(* ===== verification/Prelude.thy ===== *)
theory Prelude
  imports Main "HOL-Library.Word" "HOL-Library.Monad_Syntax"
begin

text \<open>
  Shared vocabulary of the development: the machine integer types of
  \<^verbatim>\<open>include/stdint.h\<close> as words of their width, the collections of facts the component
  theories register their lemmas in, a byte-addressed memory with its little-endian
  32-bit access (the data layout of the i386), and the generic lemmas on lists,
  words and naturals that more than one component uses.
\<close>

unbundle bit_operations_syntax

section \<open>Machine integers\<close>

type_synonym u8 = "8 word"
type_synonym u16 = "16 word"
type_synonym u32 = "32 word"

text \<open>
  \<open>frame\<close> collects the facts that an operation leaves a state component alone,
  \<open>inv\<close> the facts that an operation keeps a component's invariant.
\<close>

named_theorems frame
named_theorems inv_intro

lemma unat_lt32: "unat (a :: u32) < 2 ^ 32"
  using unsigned_less [of a] by simp

lemma unat_of_nat32 [simp]: "n < 2 ^ 32 \<Longrightarrow> unat (of_nat n :: u32) = n"
  by (simp add: unat_of_nat take_bit_nat_eq_self)

lemma of_nat32_eq_iff:
  "m < 2 ^ 32 \<Longrightarrow> n < 2 ^ 32 \<Longrightarrow> (of_nat m :: u32) = of_nat n \<longleftrightarrow> m = n"
  by (metis unat_of_nat32)

lemma of_nat32_eq_0_iff: "n < 2 ^ 32 \<Longrightarrow> (of_nat n :: u32) = 0 \<longleftrightarrow> n = 0"
  using of_nat32_eq_iff [of n 0] by simp

lemma of_nat32_le_iff:
  "m < 2 ^ 32 \<Longrightarrow> n < 2 ^ 32 \<Longrightarrow> (of_nat m :: u32) \<le> of_nat n \<longleftrightarrow> m \<le> n"
  by (simp add: word_le_nat_alt)

lemma of_nat32_less_iff:
  "m < 2 ^ 32 \<Longrightarrow> n < 2 ^ 32 \<Longrightarrow> (of_nat m :: u32) < of_nat n \<longleftrightarrow> m < n"
  by (simp add: word_less_nat_alt)

lemmas of_nat32 = of_nat32_eq_iff of_nat32_eq_0_iff of_nat32_le_iff of_nat32_less_iff

lemma unat_plus_no_wrap:
  "unat (a :: u32) + unat b < 2 ^ 32 \<Longrightarrow> unat (a + b) = unat a + unat b"
  by (simp add: unat_add_lem [THEN iffD1])

lemma word_one_le: "(x :: u32) \<noteq> 0 \<Longrightarrow> 1 \<le> x"
  by (simp add: word_le_nat_alt Suc_le_eq unat_gt_0)

text \<open>The low byte of a word, and the byte above it.\<close>

lemma unat_low_byte: "unat (ucast ((x :: u32) AND 0xFF) :: u8) = unat x mod 256"
proof -
  have "x AND 0xFF = take_bit 8 x" by (simp add: take_bit_eq_mask mask_eq_exp_minus_1)
  then show ?thesis by (simp add: unsigned_ucast_eq unsigned_take_bit_eq take_bit_eq_mod unat_mod)
qed

lemma unat_drop_bit32: "unat (drop_bit n (x :: u32)) = unat x div 2 ^ n"
  by (subst unsigned_drop_bit_eq) (simp add: drop_bit_eq_div take_bit_nat_eq_self [OF unat_lt32])

text \<open>Clearing the low bits of a word rounds it down to a multiple of a power of two.\<close>

lemma and_not_mask_eq: "(x :: u32) AND NOT (mask n) = push_bit n (drop_bit n x)"
  by (rule bit_word_eqI) (auto simp: bit_simps)

lemma unat_and_not_mask: "unat ((x :: u32) AND NOT (mask n)) = unat x div 2 ^ n * 2 ^ n"
proof -
  have "unat (push_bit n (drop_bit n x)) = take_bit 32 (push_bit n (drop_bit n (unat x)))"
    by (simp add: unsigned_push_bit_eq unsigned_drop_bit_eq take_bit_nat_eq_self [OF unat_lt32])
  also have "push_bit n (drop_bit n (unat x)) = unat x div 2 ^ n * 2 ^ n"
    by (simp add: push_bit_eq_mult drop_bit_eq_div)
  also have "take_bit 32 (unat x div 2 ^ n * 2 ^ n) = unat x div 2 ^ n * 2 ^ n"
  proof (rule take_bit_nat_eq_self)
    have "unat x div 2 ^ n * 2 ^ n \<le> unat x" by simp
    also have "\<dots> < 2 ^ 32" by (rule unat_lt32)
    finally show "unat x div 2 ^ n * 2 ^ n < 2 ^ 32" .
  qed
  finally show ?thesis by (simp only: and_not_mask_eq)
qed

lemma word_eq_mask:
  "(3 :: u32) = mask 2" "(7 :: u32) = mask 3" "(0xFFF :: u32) = mask 12"
  by (simp_all add: mask_eq_exp_minus_1)

section \<open>Byte-addressed memory\<close>

type_synonym bytemem = "u32 \<Rightarrow> u8"

definition read32 :: "bytemem \<Rightarrow> u32 \<Rightarrow> u32" where
  "read32 m a = ucast (m a) OR push_bit 8 (ucast (m (a + 1)))
     OR push_bit 16 (ucast (m (a + 2))) OR push_bit 24 (ucast (m (a + 3)))"

definition write32 :: "bytemem \<Rightarrow> u32 \<Rightarrow> u32 \<Rightarrow> bytemem" where
  "write32 m a v = m(a := ucast v, a + 1 := ucast (drop_bit 8 v),
     a + 2 := ucast (drop_bit 16 v), a + 3 := ucast (drop_bit 24 v))"

lemma read32_write32_same [simp]: "read32 (write32 m a v) a = v"
proof (rule bit_word_eqI)
  fix n assume n: "n < LENGTH(32)"
  then consider "n < 8" | "8 \<le> n \<and> n < 16" | "16 \<le> n \<and> n < 24" | "24 \<le> n \<and> n < 32"
    by fastforce
  then show "bit (read32 (write32 m a v) a) n = bit v n"
    by cases (auto simp: read32_def write32_def bit_simps)
qed

text \<open>
  Two accesses are apart when neither range reaches the other; both lie below the
  top of the address space, as every range the kernel uses does.
\<close>

definition apart :: "nat \<Rightarrow> u32 \<Rightarrow> nat \<Rightarrow> u32 \<Rightarrow> bool" where
  "apart k a l b \<longleftrightarrow> unat a + k \<le> 2 ^ 32 \<and> unat b + l \<le> 2 ^ 32 \<and>
     (unat a + k \<le> unat b \<or> unat b + l \<le> unat a)"

lemma unat_offset: "unat (a :: u32) + k < 2 ^ 32 \<Longrightarrow> unat (a + of_nat k) = unat a + k"
  by (subst unat_plus_no_wrap) simp_all

lemma apart_neq:
  assumes "apart k a l b" "i < k" "j < l"
  shows "a + of_nat i \<noteq> b + (of_nat j :: u32)"
proof
  assume eq: "a + of_nat i = b + of_nat j"
  have "unat (a + of_nat i) = unat a + i" "unat (b + of_nat j) = unat b + j"
    using assms by (simp_all add: unat_offset apart_def)
  with eq have "unat a + i = unat b + j" by simp
  with assms show False by (auto simp: apart_def)
qed

lemma write32_outside:
  assumes "\<And>j. j < 4 \<Longrightarrow> x \<noteq> a + of_nat j"
  shows "write32 m a v x = m x"
  using assms [of 0] assms [of 1] assms [of 2] assms [of 3] by (simp add: write32_def)

lemma read32_cong:
  assumes "\<And>j. j < 4 \<Longrightarrow> m (b + of_nat j) = m' (b + of_nat j)"
  shows "read32 m b = read32 m' b"
  using assms [of 0] assms [of 1] assms [of 2] assms [of 3] by (simp add: read32_def)

lemma read32_write32_apart [simp]:
  assumes "apart 4 a 4 b"
  shows "read32 (write32 m a v) b = read32 m b"
proof (rule read32_cong)
  fix j :: nat assume j: "j < 4"
  show "write32 m a v (b + of_nat j) = m (b + of_nat j)"
    by (rule write32_outside) (metis apart_neq assms j)
qed

end
