(* ===== verification/Console.thy ===== *)
theory Console
  imports Prelude
begin

text \<open>
  The VGA text console of \<^verbatim>\<open>src/kernel/printk.c\<close>: the screen memory at 0xB8000 with
  its cursor and colour, and the operations that write to it.

  The cursor is a pair of naturals: \<open>console_wf\<close> bounds it by 25 rows and 80 columns
  and every operation keeps the bound, so the 32-bit \<^verbatim>\<open>size_t\<close> arithmetic of the
  source never wraps. The screen is a function from cell index to 16-bit cell,
  so that a write outside the 2000 cells of the buffer would show.
\<close>

section \<open>State\<close>

definition VGA_WIDTH :: nat where "VGA_WIDTH = 80"
definition VGA_HEIGHT :: nat where "VGA_HEIGHT = 25"

lemmas vga_dims = VGA_WIDTH_def VGA_HEIGHT_def

record console =
  vga_memory :: "nat \<Rightarrow> u16"
  console_row :: nat
  console_column :: nat
  console_color :: u8

datatype vga_color =
    VGA_COLOR_BLACK | VGA_COLOR_BLUE | VGA_COLOR_GREEN | VGA_COLOR_CYAN
  | VGA_COLOR_RED | VGA_COLOR_MAGENTA | VGA_COLOR_BROWN | VGA_COLOR_LIGHT_GREY
  | VGA_COLOR_DARK_GREY | VGA_COLOR_LIGHT_BLUE | VGA_COLOR_LIGHT_GREEN
  | VGA_COLOR_LIGHT_CYAN | VGA_COLOR_LIGHT_RED | VGA_COLOR_LIGHT_MAGENTA
  | VGA_COLOR_LIGHT_BROWN | VGA_COLOR_WHITE

fun vga_color_val :: "vga_color \<Rightarrow> u8" where
  "vga_color_val VGA_COLOR_BLACK = 0"
| "vga_color_val VGA_COLOR_BLUE = 1"
| "vga_color_val VGA_COLOR_GREEN = 2"
| "vga_color_val VGA_COLOR_CYAN = 3"
| "vga_color_val VGA_COLOR_RED = 4"
| "vga_color_val VGA_COLOR_MAGENTA = 5"
| "vga_color_val VGA_COLOR_BROWN = 6"
| "vga_color_val VGA_COLOR_LIGHT_GREY = 7"
| "vga_color_val VGA_COLOR_DARK_GREY = 8"
| "vga_color_val VGA_COLOR_LIGHT_BLUE = 9"
| "vga_color_val VGA_COLOR_LIGHT_GREEN = 10"
| "vga_color_val VGA_COLOR_LIGHT_CYAN = 11"
| "vga_color_val VGA_COLOR_LIGHT_RED = 12"
| "vga_color_val VGA_COLOR_LIGHT_MAGENTA = 13"
| "vga_color_val VGA_COLOR_LIGHT_BROWN = 14"
| "vga_color_val VGA_COLOR_WHITE = 15"

definition vga_entry_color :: "vga_color \<Rightarrow> vga_color \<Rightarrow> u8" where
  "vga_entry_color fg bg = vga_color_val fg OR push_bit 4 (vga_color_val bg)"

definition vga_entry :: "u8 \<Rightarrow> u8 \<Rightarrow> u16" where
  "vga_entry uc color = ucast uc OR push_bit 8 (ucast color)"

definition initial_console :: console where
  "initial_console = \<lparr>vga_memory = \<lambda>_. 0, console_row = 0, console_column = 0,
     console_color = 0x07\<rparr>"

definition console_wf :: "console \<Rightarrow> bool" where
  "console_wf s \<longleftrightarrow> console_row s < VGA_HEIGHT \<and> console_column s < VGA_WIDTH"

section \<open>Operations\<close>

definition console_putchar_at :: "char \<Rightarrow> u8 \<Rightarrow> nat \<Rightarrow> nat \<Rightarrow> console \<Rightarrow> console" where
  "console_putchar_at c color x y s =
     (let index = y * VGA_WIDTH + x
      in s\<lparr>vga_memory := (vga_memory s)(index := vga_entry (of_char c) color)\<rparr>)"

definition copy_row :: "nat \<Rightarrow> (nat \<Rightarrow> u16) \<Rightarrow> nat \<Rightarrow> u16" where
  "copy_row row v = fold (\<lambda>col v. v(row * VGA_WIDTH + col :=
     v ((row + 1) * VGA_WIDTH + col))) [0..<VGA_WIDTH] v"

definition console_scroll :: "console \<Rightarrow> console" where
  "console_scroll s =
     (let v1 = fold copy_row [0..<VGA_HEIGHT - 1] (vga_memory s);
          v2 = fold (\<lambda>col v. v((VGA_HEIGHT - 1) * VGA_WIDTH + col :=
                 vga_entry (of_char CHR '' '') (console_color s))) [0..<VGA_WIDTH] v1
      in s\<lparr>vga_memory := v2, console_row := VGA_HEIGHT - 1, console_column := 0\<rparr>)"

text \<open>\<^verbatim>\<open>console_column = 0; if (++console_row == VGA_HEIGHT) console_scroll();\<close>\<close>

definition console_newline :: "console \<Rightarrow> console" where
  "console_newline s =
     (let s = s\<lparr>console_column := 0, console_row := console_row s + 1\<rparr>
      in if console_row s = VGA_HEIGHT then console_scroll s else s)"

definition console_putchar :: "char \<Rightarrow> console \<Rightarrow> console" where
  "console_putchar c s =
     (if c = CHR 0x0A then console_newline s
      else if c = CHR 0x0D then s\<lparr>console_column := 0\<rparr>
      else if c = CHR 0x09 then
        (let s = s\<lparr>console_column := (console_column s + 8) div 8 * 8\<rparr>
         in if console_column s \<ge> VGA_WIDTH then console_newline s else s)
      else
        (let s = console_putchar_at c (console_color s) (console_column s) (console_row s) s;
             s = s\<lparr>console_column := console_column s + 1\<rparr>
         in if console_column s = VGA_WIDTH then console_newline s else s))"

text \<open>\<open>console_write\<close> takes the characters of \<^verbatim>\<open>data[0 .. size)\<close>.\<close>

fun console_write :: "string \<Rightarrow> console \<Rightarrow> console" where
  "console_write [] s = s"
| "console_write (c # cs) s = console_write cs (console_putchar c s)"

text \<open>A C string is the characters up to the first NUL or, where the list holds none, up to
  the terminator that follows it.\<close>

fun strlen :: "string \<Rightarrow> nat" where
  "strlen [] = 0"
| "strlen (c # cs) = (if c = CHR 0x00 then 0 else Suc (strlen cs))"

definition console_writestring :: "string \<Rightarrow> console \<Rightarrow> console" where
  "console_writestring data s = console_write (take (strlen data) data) s"

lemma strlen_le: "strlen cs \<le> length cs"
  by (induction cs) auto

lemma take_strlen: "take (strlen cs) cs = takeWhile (\<lambda>c. c \<noteq> CHR 0x00) cs"
  by (induction cs) auto

lemma strlen_no_nul: "CHR 0x00 \<notin> set cs \<Longrightarrow> strlen cs = length cs"
  by (induction cs) auto

definition console_clear :: "console \<Rightarrow> console" where
  "console_clear s =
     (fold (\<lambda>y. fold (\<lambda>x s. console_putchar_at (CHR '' '') (console_color s) x y s)
        [0..<VGA_WIDTH]) [0..<VGA_HEIGHT] s)\<lparr>console_row := 0, console_column := 0\<rparr>"

definition console_set_color :: "u8 \<Rightarrow> console \<Rightarrow> console" where
  "console_set_color color s = s\<lparr>console_color := color\<rparr>"

definition console_get_color :: "console \<Rightarrow> u8" where
  "console_get_color s = console_color s"

definition console_backspace :: "console \<Rightarrow> console" where
  "console_backspace s =
     (if console_column s > 0 then
        (let s = s\<lparr>console_column := console_column s - 1\<rparr>
         in console_putchar_at (CHR '' '') (console_color s) (console_column s) (console_row s) s)
      else if console_row s > 0 then
        (let s = s\<lparr>console_row := console_row s - 1, console_column := VGA_WIDTH - 1\<rparr>
         in console_putchar_at (CHR '' '') (console_color s) (console_column s) (console_row s) s)
      else s)"

text \<open>The mask of the source, \<^verbatim>\<open>(console_column + 8) & ~7\<close>, is the tab stop above.\<close>

lemma tab_stop_mask:
  assumes "c < VGA_WIDTH"
  shows "unat ((of_nat c + 8 :: u32) AND NOT 7) = (c + 8) div 8 * 8"
proof -
  have "unat (of_nat (c + 8) :: u32) = c + 8"
    using assms by (intro unat_of_nat32) (simp add: vga_dims)
  then show ?thesis
    by (simp add: word_eq_mask unat_and_not_mask add.commute del: unat_of_nat32)
qed

section \<open>The loops of the screen operations in closed form\<close>

lemma fold_copy_cells:
  "n \<le> w \<Longrightarrow> fold (\<lambda>col v. v(b + col := v (b + w + col))) [0..<n] v =
     (\<lambda>i. if b \<le> i \<and> i < b + n then v (i + w) else v i)"
proof (induction n)
  case (Suc n)
  then show ?case by (auto simp: fun_eq_iff less_Suc_eq algebra_simps)
qed (auto simp: fun_eq_iff)

lemma fold_fill_cells:
  "fold (\<lambda>col v. v(b + col := x)) [0..<n] v =
     (\<lambda>i. if b \<le> i \<and> i < b + n then x else v i)"
  by (induction n) (auto simp: fun_eq_iff less_Suc_eq)

lemma copy_row_eq:
  "copy_row row v = (\<lambda>i. if row * 80 \<le> i \<and> i < row * 80 + 80 then v (i + 80) else v i)"
  using fold_copy_cells [of 80 80 "row * 80" v]
  by (simp add: copy_row_def vga_dims algebra_simps)

lemma fold_copy_row:
  "fold copy_row [0..<n] v = (\<lambda>i. if i < n * 80 then v (i + 80) else v i)"
  by (induction n) (auto simp: fun_eq_iff copy_row_eq)

definition blank_cell :: "u8 \<Rightarrow> u16" where
  "blank_cell color = vga_entry (of_char CHR '' '') color"

lemma vga_memory_scroll:
  "vga_memory (console_scroll s) =
     (\<lambda>i. if i < 1920 then vga_memory s (i + 80)
          else if i < 2000 then blank_cell (console_color s) else vga_memory s i)"
  by (auto simp: console_scroll_def fun_eq_iff fold_copy_row fold_fill_cells vga_dims
      blank_cell_def Let_def)

lemma console_scroll_cursor [simp]:
  "console_row (console_scroll s) = 24"
  "console_column (console_scroll s) = 0"
  "console_color (console_scroll s) = console_color s"
  by (simp_all add: console_scroll_def vga_dims Let_def)

lemma console_newline_cursor [simp]:
  "console_row (console_newline s) = (if console_row s = 24 then 24 else Suc (console_row s))"
  "console_column (console_newline s) = 0"
  "console_color (console_newline s) = console_color s"
  by (simp_all add: console_newline_def vga_dims Let_def)

lemma vga_memory_newline:
  "vga_memory (console_newline s) =
     (if console_row s = 24 then vga_memory (console_scroll s) else vga_memory s)"
  by (simp add: console_newline_def vga_dims Let_def vga_memory_scroll fun_eq_iff)

lemma console_color_putchar [simp]: "console_color (console_putchar c s) = console_color s"
  by (simp add: console_putchar_def console_putchar_at_def Let_def)

section \<open>The interface of a character device\<close>

text \<open>
  What the callers of \<open>console_putchar\<close> rely on: a character keeps the device
  well-formed, and touches nothing outside the device. The client lemmas are about
  whole strings.
\<close>

locale char_sink =
  fixes put :: "char \<Rightarrow> 's \<Rightarrow> 's"
    and wf :: "'s \<Rightarrow> bool"
    and outside :: "'s \<Rightarrow> 'o"
  assumes put_wf: "wf s \<Longrightarrow> wf (put c s)"
    and put_outside: "wf s \<Longrightarrow> outside (put c s) = outside s"
begin

lemma fold_put_wf: "wf s \<Longrightarrow> wf (fold put cs s)"
  by (induction cs arbitrary: s) (simp_all add: put_wf)

lemma fold_put_outside: "wf s \<Longrightarrow> outside (fold put cs s) = outside s"
  by (induction cs arbitrary: s) (simp_all add: put_wf put_outside)

end

text \<open>A device that implements an abstract one does so for whole strings too.\<close>

locale char_sink_refinement =
  conc: char_sink put wf outside + abst: char_sink aput awf aoutside
  for put :: "char \<Rightarrow> 's \<Rightarrow> 's" and wf and outside :: "'s \<Rightarrow> 'o"
    and aput :: "char \<Rightarrow> 'a \<Rightarrow> 'a" and awf and aoutside :: "'a \<Rightarrow> 'p" +
  fixes abs :: "'s \<Rightarrow> 'a"
  assumes abs_wf: "wf s \<Longrightarrow> awf (abs s)"
    and abs_put: "wf s \<Longrightarrow> abs (put c s) = aput c (abs s)"
begin

lemma abs_fold_put: "wf s \<Longrightarrow> abs (fold put cs s) = fold aput cs (abs s)"
  by (induction cs arbitrary: s) (simp_all add: abs_put conc.put_wf)

end

lemma console_write_fold: "console_write cs s = fold console_putchar cs s"
  by (induction cs arbitrary: s) simp_all

lemma console_write_append:
  "console_write (xs @ ys) s = console_write ys (console_write xs s)"
  by (simp add: console_write_fold)

text \<open>The memory around the screen buffer, which the console must not touch.\<close>

definition vga_outside :: "console \<Rightarrow> nat \<Rightarrow> u16" where
  "vga_outside s = (\<lambda>i. vga_memory s (i + VGA_WIDTH * VGA_HEIGHT))"

lemma console_putchar_wf: "console_wf s \<Longrightarrow> console_wf (console_putchar c s)"
  by (auto simp: console_wf_def console_putchar_def console_putchar_at_def Let_def vga_dims)

lemma vga_outside_scroll [simp]: "vga_outside (console_scroll s) = vga_outside s"
  by (simp add: vga_outside_def vga_memory_scroll vga_dims)

lemma vga_outside_newline [simp]: "vga_outside (console_newline s) = vga_outside s"
  by (simp add: vga_outside_def vga_memory_newline vga_memory_scroll vga_dims)

lemma vga_outside_putchar_at:
  "x < VGA_WIDTH \<Longrightarrow> y < VGA_HEIGHT \<Longrightarrow>
     vga_outside (console_putchar_at c col x y s) = vga_outside s"
  by (auto simp: vga_outside_def console_putchar_at_def fun_eq_iff vga_dims)

lemma vga_outside_cursor [simp]:
  "vga_outside (s\<lparr>console_column := x\<rparr>) = vga_outside s"
  "vga_outside (s\<lparr>console_row := y\<rparr>) = vga_outside s"
  "vga_outside (s\<lparr>console_color := c\<rparr>) = vga_outside s"
  by (simp_all add: vga_outside_def)

lemma vga_outside_putchar: "console_wf s \<Longrightarrow> vga_outside (console_putchar c s) = vga_outside s"
  by (simp add: console_putchar_def Let_def console_wf_def vga_outside_putchar_at)

interpretation vga: char_sink console_putchar console_wf vga_outside
  by unfold_locales (simp_all add: console_putchar_wf vga_outside_putchar)

section \<open>The abstract text screen\<close>

text \<open>
  What the console promises: a screen of 25 lines of 80 cells, where a character is
  entered at the cursor and a full screen loses its first line and gains a blank one.
\<close>

record screen =
  cells :: "u16 list list"
  cur_row :: nat
  cur_col :: nat
  attr :: u8

definition screen_of :: "console \<Rightarrow> screen" where
  "screen_of s =
     \<lparr>cells = map (\<lambda>r. map (\<lambda>c. vga_memory s (r * VGA_WIDTH + c)) [0..<VGA_WIDTH]) [0..<VGA_HEIGHT],
      cur_row = console_row s, cur_col = console_column s, attr = console_color s\<rparr>"

definition screen_wf :: "screen \<Rightarrow> bool" where
  "screen_wf t \<longleftrightarrow> length (cells t) = VGA_HEIGHT \<and> (\<forall>l \<in> set (cells t). length l = VGA_WIDTH) \<and>
     cur_row t < VGA_HEIGHT \<and> cur_col t < VGA_WIDTH"

definition screen_newline :: "screen \<Rightarrow> screen" where
  "screen_newline t =
     (if cur_row t + 1 = VGA_HEIGHT
      then t\<lparr>cells := tl (cells t) @ [replicate VGA_WIDTH (blank_cell (attr t))], cur_col := 0\<rparr>
      else t\<lparr>cur_row := cur_row t + 1, cur_col := 0\<rparr>)"

definition screen_enter :: "char \<Rightarrow> screen \<Rightarrow> screen" where
  "screen_enter c t = t\<lparr>cells := (cells t)[cur_row t :=
     (cells t ! cur_row t)[cur_col t := vga_entry (of_char c) (attr t)]]\<rparr>"

definition screen_put :: "char \<Rightarrow> screen \<Rightarrow> screen" where
  "screen_put c t =
     (if c = CHR 0x0A then screen_newline t
      else if c = CHR 0x0D then t\<lparr>cur_col := 0\<rparr>
      else if c = CHR 0x09 then
        (let k = (cur_col t div 8 + 1) * 8
         in if k < VGA_WIDTH then t\<lparr>cur_col := k\<rparr> else screen_newline t)
      else if cur_col t + 1 < VGA_WIDTH then (screen_enter c t)\<lparr>cur_col := cur_col t + 1\<rparr>
      else screen_newline (screen_enter c t))"

lemma cells_screen_of:
  "cells (screen_of s) = map (\<lambda>r. map (\<lambda>c. vga_memory s (r * 80 + c)) [0..<80]) [0..<25]"
  by (simp add: screen_of_def vga_dims)

lemma screen_of_cursor [simp]:
  "cur_row (screen_of s) = console_row s" "cur_col (screen_of s) = console_column s"
  "attr (screen_of s) = console_color s"
  by (simp_all add: screen_of_def)

lemma screen_eqI:
  "cells t = cells u \<Longrightarrow> cur_row t = cur_row u \<Longrightarrow> cur_col t = cur_col u \<Longrightarrow> attr t = attr u \<Longrightarrow>
     t = (u :: screen)"
  by simp

lemma screen_of_wf: "console_wf s \<Longrightarrow> screen_wf (screen_of s)"
  by (auto simp: screen_wf_def console_wf_def cells_screen_of vga_dims)

lemma screen_newline_wf: "screen_wf t \<Longrightarrow> screen_wf (screen_newline t)"
  by (auto simp: screen_wf_def screen_newline_def vga_dims dest: list.set_sel(2) [rotated])

lemma screen_enter_wf: "screen_wf t \<Longrightarrow> screen_wf (screen_enter c t)"
  by (auto simp: screen_wf_def screen_enter_def vga_dims dest!: set_update_subset_insert [THEN subsetD])

lemma screen_put_wf: "screen_wf t \<Longrightarrow> screen_wf (screen_put c t)"
proof -
  assume t: "screen_wf t"
  have "screen_wf (t\<lparr>cur_col := k\<rparr>)" if "k < 80" for k
    using t that by (simp add: screen_wf_def vga_dims)
  moreover have "screen_wf ((screen_enter c t)\<lparr>cur_col := k\<rparr>)" if "k < 80" for k
    using screen_enter_wf [OF t] that by (simp add: screen_wf_def vga_dims)
  ultimately show ?thesis
    using t by (simp add: screen_put_def Let_def vga_dims screen_newline_wf screen_enter_wf)
qed

interpretation scr: char_sink screen_put screen_wf "\<lambda>_. ()"
  by unfold_locales (simp_all add: screen_put_wf)

lemma cells_scroll:
  "cells (screen_of (console_scroll s)) =
     tl (cells (screen_of s)) @ [replicate 80 (blank_cell (console_color s))]"
  by (rule nth_equalityI)
    (auto simp: cells_screen_of vga_memory_scroll nth_append nth_tl less_Suc_eq list_eq_iff_nth_eq
      ac_simps)

lemma screen_of_newline: "screen_of (console_newline s) = screen_newline (screen_of s)"
  by (rule screen_eqI)
    (auto simp: screen_newline_def vga_dims cells_screen_of vga_memory_newline
      cells_scroll [unfolded cells_screen_of])

lemma grid_update:
  assumes "y < 25" and x: "x < 80"
  shows "map (\<lambda>r. map (\<lambda>c. if r * 80 + c = y * 80 + x then e else v (r * 80 + c)) [0..<80]) [0..<25] =
     (map (\<lambda>r. map (\<lambda>c. v (r * 80 + c)) [0..<80]) [0..<25])
       [y := (map (\<lambda>c. v (y * 80 + c)) [0..<80])[x := e]]" (is "?lhs = ?rhs")
proof (rule nth_equalityI)
  have cell: "r * 80 + k = y * 80 + x \<longleftrightarrow> r = y \<and> k = x" if "k < 80" for r k :: nat
  proof -
    have "(r * 80 + k) div 80 = r" "(r * 80 + k) mod 80 = k"
      "(y * 80 + x) div 80 = y" "(y * 80 + x) mod 80 = x" using that x by simp_all
    then show ?thesis by metis
  qed
  fix r assume r: "r < length ?lhs"
  have "map (\<lambda>c. if r * 80 + c = y * 80 + x then e else v (r * 80 + c)) [0..<80] =
      (if r = y then (map (\<lambda>c. v (y * 80 + c)) [0..<80])[x := e] else map (\<lambda>c. v (r * 80 + c)) [0..<80])"
    by (rule nth_equalityI) (simp_all add: cell nth_list_update)
  with r show "?lhs ! r = ?rhs ! r"
    by (simp add: nth_list_update cong: if_cong)
qed simp

lemma console_putchar_at_cursor [simp]:
  "console_row (console_putchar_at c col x y s) = console_row s"
  "console_column (console_putchar_at c col x y s) = console_column s"
  "console_color (console_putchar_at c col x y s) = console_color s"
  by (simp_all add: console_putchar_at_def)

lemma screen_of_enter:
  assumes "console_wf s"
  shows "screen_of (console_putchar_at c (console_color s) (console_column s) (console_row s) s) =
     screen_enter c (screen_of s)"
  using assms
  by (intro screen_eqI) (simp_all add: console_wf_def cells_screen_of vga_dims screen_enter_def
      console_putchar_at_def grid_update)

lemma screen_of_column: "screen_of (s\<lparr>console_column := k\<rparr>) = (screen_of s)\<lparr>cur_col := k\<rparr>"
  by (simp add: screen_of_def)

lemma screen_newline_col [simp]: "screen_newline (t\<lparr>cur_col := k\<rparr>) = screen_newline t"
  by (simp add: screen_newline_def)

lemma screen_of_putchar:
  assumes "console_wf s"
  shows "screen_of (console_putchar c s) = screen_put c (screen_of s)"
proof -
  have tab: "(console_column s + 8) div 8 = console_column s div 8 + 1" by simp
  show ?thesis
    using assms unfolding console_putchar_def screen_put_def
    by (auto simp: Let_def screen_of_newline screen_of_enter screen_of_column tab
        console_wf_def vga_dims)
qed

interpretation vga_screen:
  char_sink_refinement console_putchar console_wf vga_outside screen_put screen_wf "\<lambda>_. ()" screen_of
  by unfold_locales (simp_all add: screen_of_wf screen_of_putchar)

lemma console_clear_eq:
  "console_clear s = s\<lparr>vga_memory := (\<lambda>i. if i < 2000 then blank_cell (console_color s) else vga_memory s i),
     console_row := 0, console_column := 0\<rparr>"
proof -
  have row: "fold (\<lambda>x s. console_putchar_at (CHR '' '') (console_color s) x y s) [0..<n] t =
      t\<lparr>vga_memory := (\<lambda>i. if y * 80 \<le> i \<and> i < y * 80 + n then blank_cell (console_color t)
         else vga_memory t i)\<rparr>" for y n t
  proof (induction n)
    case 0
    show ?case by (cases t) (auto simp: fun_eq_iff)
  next
    case (Suc n)
    then show ?case
      by (auto simp: console_putchar_at_def vga_dims blank_cell_def fun_eq_iff less_Suc_eq)
  qed
  have "fold (\<lambda>y. fold (\<lambda>x s. console_putchar_at (CHR '' '') (console_color s) x y s) [0..<80]) [0..<n] s =
      s\<lparr>vga_memory := (\<lambda>i. if i < n * 80 then blank_cell (console_color s) else vga_memory s i)\<rparr>" for n
  proof (induction n)
    case 0
    show ?case by (cases s) (auto simp: fun_eq_iff)
  next
    case (Suc n)
    then show ?case by (auto simp: row fun_eq_iff)
  qed
  from this [of 25] show ?thesis by (simp add: console_clear_def vga_dims)
qed

section \<open>Properties\<close>

text \<open>C25 (refinement): writing a string on a well-formed console is entering its
  characters, one by one, on the abstract screen of 25 lines of 80 cells.\<close>

theorem console_write_refines_screen:
  assumes "console_wf s"
  shows "screen_of (console_write cs s) = fold screen_put cs (screen_of s)"
  using assms by (simp add: console_write_fold vga_screen.abs_fold_put)

theorem console_write_refines_screen_witness:
  "screen_of (console_write ''ok'' initial_console) = fold screen_put ''ok'' (screen_of initial_console)"
  by (rule console_write_refines_screen) (simp add: console_wf_def initial_console_def vga_dims)

text \<open>Fact (safety): no string, whatever its control characters, moves the cursor off the
  screen or writes a cell outside the 2000 cells of the VGA text buffer.\<close>

theorem console_write_in_bounds:
  assumes "console_wf s" and "VGA_WIDTH * VGA_HEIGHT \<le> i"
  shows "console_wf (console_write cs s) \<and> vga_memory (console_write cs s) i = vga_memory s i"
proof -
  have "vga_outside (console_write cs s) (i - 2000) = vga_outside s (i - 2000)"
    using assms(1) by (simp add: console_write_fold vga.fold_put_outside)
  with assms show ?thesis
    by (simp add: console_write_fold vga.fold_put_wf vga_outside_def vga_dims)
qed

theorem console_write_in_bounds_witness:
  "console_wf (console_write (replicate 3000 CHR ''x'') initial_console) \<and>
   vga_memory (console_write (replicate 3000 CHR ''x'') initial_console) 2000 = 0"
  using console_write_in_bounds [of initial_console 2000 "replicate 3000 CHR ''x''"]
  by (simp add: console_wf_def initial_console_def vga_dims)

text \<open>Fact (roundtrip): a backspace after a printable character puts the cursor back and
  blanks the cell, also across the right margin, unless the character scrolled the screen.\<close>

theorem console_backspace_putchar:
  assumes "console_wf s" and "c \<notin> {CHR 0x0A, CHR 0x0D, CHR 0x09}"
    and "console_row s + 1 < VGA_HEIGHT \<or> console_column s + 1 < VGA_WIDTH"
  shows "console_backspace (console_putchar c s) = s\<lparr>vga_memory := (vga_memory s)
     (console_row s * VGA_WIDTH + console_column s := blank_cell (console_color s))\<rparr>"
  using assms
  by (auto simp: console_backspace_def console_putchar_def console_putchar_at_def Let_def
      console_newline_def console_wf_def vga_dims blank_cell_def)

theorem console_backspace_putchar_witness:
  "console_backspace (console_putchar CHR ''a'' (initial_console\<lparr>console_column := 79\<rparr>)) =
   initial_console\<lparr>console_column := 79, vga_memory := (\<lambda>_. 0)(79 := blank_cell 7)\<rparr>"
  using console_backspace_putchar [of "initial_console\<lparr>console_column := 79\<rparr>" "CHR ''a''"]
  by (simp add: console_wf_def initial_console_def vga_dims)

text \<open>Fact (functional): clearing blanks exactly the 25 lines of the screen in the current
  colour and homes the cursor.\<close>

theorem console_clear_blanks:
  "screen_of (console_clear s) = \<lparr>cells = replicate VGA_HEIGHT
       (replicate VGA_WIDTH (blank_cell (console_color s))),
     cur_row = 0, cur_col = 0, attr = console_color s\<rparr> \<and>
   vga_outside (console_clear s) = vga_outside s"
  by (auto simp: console_clear_eq screen_of_def vga_outside_def vga_dims list_eq_iff_nth_eq fun_eq_iff)

end
