(* ===== verification/Printk.thy ===== *)
theory Printk
  imports Console "HOL-Library.Signed_Division"
begin

text \<open>
  The formatted output of \<^verbatim>\<open>src/kernel/printk.c\<close>: number conversion
  (\<open>itoa\<close>, \<open>utoa\<close>, \<open>utoa_upper\<close>), the format interpreter \<open>printk\<close> and the
  coloured log functions. On the i386 every variadic argument is a 32-bit word; the model
  separates the words that are read as strings.

  A result \<open>None\<close> stands for what C leaves undefined: an argument that is missing or of the
  other kind, a format that ends in \<^verbatim>\<open>%\<close> (the source then reads past its terminator), a
  division by a zero base.
\<close>

section \<open>Number conversion\<close>

function reverse_loop :: "string \<Rightarrow> int \<Rightarrow> int \<Rightarrow> string" where
  "reverse_loop str start stop =
     (if start < stop
      then reverse_loop (str[nat start := str ! nat stop, nat stop := str ! nat start])
             (start + 1) (stop - 1)
      else str)"
  by pat_completeness auto
termination
  by (relation "measure (\<lambda>(str, start, stop). nat (stop - start))") auto

declare reverse_loop.simps [simp del]

definition reverse_string :: "string \<Rightarrow> int \<Rightarrow> string" where
  "reverse_string str len = reverse_loop str 0 (len - 1)"

text \<open>\<^verbatim>\<open>(rem > 9) ? (rem - 10) + letter : rem + '0'\<close>, stored in a \<^verbatim>\<open>char\<close>.\<close>

definition digit_char :: "int \<Rightarrow> int \<Rightarrow> char" where
  "digit_char letter rem = (if rem > 9 then char_of ((rem - 10) + letter) else char_of (rem + 48))"

text \<open>The two's complement negation of a 32-bit \<^verbatim>\<open>int\<close>: the most negative value is its own.\<close>

definition neg32 :: "int \<Rightarrow> int" where
  "neg32 v = (if v = - (2 ^ 31) then v else - v)"

partial_function (option) itoa_loop :: "int \<Rightarrow> int \<Rightarrow> string \<Rightarrow> string option" where
  "itoa_loop value base str =
     (if value \<noteq> 0 then
        (if base = 0 then None
         else itoa_loop (value sdiv base) base (str @ [digit_char 97 (value smod base)]))
      else Some str)"

declare itoa_loop.simps [code]

definition itoa :: "int \<Rightarrow> int \<Rightarrow> string option" where
  "itoa value base =
     (if value = 0 then Some ''0''
      else
        (let is_negative = (value < 0 \<and> base = 10);
             value = (if is_negative then neg32 value else value)
         in do {
           str \<leftarrow> itoa_loop value base [];
           let str = (if is_negative then str @ ''-'' else str);
           Some (reverse_string str (int (length str)))
         }))"

partial_function (option) utoa_loop :: "int \<Rightarrow> u32 \<Rightarrow> u32 \<Rightarrow> string \<Rightarrow> string option" where
  "utoa_loop letter value base str =
     (if value \<noteq> 0 then
        (if base = 0 then None
         else utoa_loop letter (value div base) base
                (str @ [digit_char letter (uint (value mod base))]))
      else Some str)"

declare utoa_loop.simps [code]

definition utoa :: "u32 \<Rightarrow> u32 \<Rightarrow> string option" where
  "utoa value base =
     (if value = 0 then Some ''0''
      else do {
        str \<leftarrow> utoa_loop 97 value base [];
        Some (reverse_string str (int (length str)))
      })"

definition utoa_upper :: "u32 \<Rightarrow> u32 \<Rightarrow> string option" where
  "utoa_upper value base =
     (if value = 0 then Some ''0''
      else do {
        str \<leftarrow> utoa_loop 65 value base [];
        Some (reverse_string str (int (length str)))
      })"

section \<open>The format interpreter\<close>

datatype varg = VInt u32 | VStr "string option"

fun va_int :: "varg list \<Rightarrow> (u32 \<times> varg list) option" where
  "va_int (VInt w # args) = Some (w, args)"
| "va_int _ = None"

fun va_str :: "varg list \<Rightarrow> (string \<times> varg list) option" where
  "va_str (VStr None # args) = Some (''(null)'', args)"
| "va_str (VStr (Some str) # args) = Some (str, args)"
| "va_str _ = None"

fun printk_loop :: "string \<Rightarrow> varg list \<Rightarrow> int \<Rightarrow> console \<Rightarrow> (int \<times> console) option" where
  "printk_loop [] args written s = Some (written, s)"
| "printk_loop [c] args written s =
     (if c = CHR ''%'' then None else Some (written + 1, console_putchar c s))"
| "printk_loop (c # f # fmt) args written s =
     (if c \<noteq> CHR ''%'' then printk_loop (f # fmt) args (written + 1) (console_putchar c s)
      else if f = CHR ''s'' then do {
        (str, args) \<leftarrow> va_str args;
        printk_loop fmt args (written + int (strlen str)) (console_writestring str s) }
      else if f = CHR ''c'' then do {
        (w, args) \<leftarrow> va_int args;
        printk_loop fmt args (written + 1) (console_putchar (char_of (unat w)) s) }
      else if f = CHR ''d'' then do {
        (w, args) \<leftarrow> va_int args;
        buffer \<leftarrow> itoa (sint w) 10;
        printk_loop fmt args (written + int (length buffer)) (console_writestring buffer s) }
      else if f = CHR ''u'' then do {
        (w, args) \<leftarrow> va_int args;
        buffer \<leftarrow> utoa w 10;
        printk_loop fmt args (written + int (length buffer)) (console_writestring buffer s) }
      else if f = CHR ''x'' then do {
        (w, args) \<leftarrow> va_int args;
        buffer \<leftarrow> utoa w 16;
        printk_loop fmt args (written + int (length buffer)) (console_writestring buffer s) }
      else if f = CHR ''X'' then do {
        (w, args) \<leftarrow> va_int args;
        buffer \<leftarrow> utoa_upper w 16;
        printk_loop fmt args (written + int (length buffer)) (console_writestring buffer s) }
      else if f = CHR ''p'' then do {
        (w, args) \<leftarrow> va_int args;
        buffer \<leftarrow> utoa w 16;
        printk_loop fmt args (written + int (length buffer) + 2)
          (console_writestring buffer (console_writestring ''0x'' s)) }
      else if f = CHR ''%'' then
        printk_loop fmt args (written + 1) (console_putchar (CHR ''%'') s)
      else
        printk_loop fmt args (written + 2) (console_putchar f (console_putchar (CHR ''%'') s)))"

definition printk :: "string \<Rightarrow> varg list \<Rightarrow> console \<Rightarrow> (int \<times> console) option" where
  "printk format args s = printk_loop format args 0 s"

section \<open>The log functions\<close>

definition printk_level :: "vga_color \<Rightarrow> string \<Rightarrow> string \<Rightarrow> console \<Rightarrow> console" where
  "printk_level color tag format s =
     (let old_color = console_color s;
          s = console_set_color (vga_entry_color color VGA_COLOR_BLACK) s;
          s = console_writestring tag s;
          s = console_set_color (vga_entry_color VGA_COLOR_WHITE VGA_COLOR_BLACK) s;
          s = console_writestring format s;
          s = console_putchar (CHR 0x0A) s
      in console_set_color old_color s)"

definition printk_info :: "string \<Rightarrow> varg list \<Rightarrow> console \<Rightarrow> console" where
  "printk_info format args = printk_level VGA_COLOR_LIGHT_CYAN ''[INFO] '' format"

definition printk_warn :: "string \<Rightarrow> varg list \<Rightarrow> console \<Rightarrow> console" where
  "printk_warn format args = printk_level VGA_COLOR_LIGHT_BROWN ''[WARN] '' format"

definition printk_error :: "string \<Rightarrow> varg list \<Rightarrow> console \<Rightarrow> console" where
  "printk_error format args = printk_level VGA_COLOR_LIGHT_RED ''[ERROR] '' format"

section \<open>The kernel's console\<close>

text \<open>
  The state of the kernel is a chain of records, each component extending the one below
  it; the console is its base. \<open>kprintk\<close> and its relatives are the calls the other
  components make: only the console changes. Where \<open>printk\<close> is undefined, so is the
  console afterwards (\<open>the None\<close>), and nothing can be proved about it.
\<close>

record kout =
  con :: console

definition kprintk :: "string \<Rightarrow> varg list \<Rightarrow> 'a kout_scheme \<Rightarrow> 'a kout_scheme" where
  "kprintk format args s = s\<lparr>con := snd (the (printk format args (con s)))\<rparr>"

definition kinfo :: "string \<Rightarrow> varg list \<Rightarrow> 'a kout_scheme \<Rightarrow> 'a kout_scheme" where
  "kinfo format args s = s\<lparr>con := printk_info format args (con s)\<rparr>"

definition kwarn :: "string \<Rightarrow> varg list \<Rightarrow> 'a kout_scheme \<Rightarrow> 'a kout_scheme" where
  "kwarn format args s = s\<lparr>con := printk_warn format args (con s)\<rparr>"

definition kerror :: "string \<Rightarrow> varg list \<Rightarrow> 'a kout_scheme \<Rightarrow> 'a kout_scheme" where
  "kerror format args s = s\<lparr>con := printk_error format args (con s)\<rparr>"

lemmas kout_defs = kprintk_def kinfo_def kwarn_def kerror_def

section \<open>Correctness of the conversions\<close>

lemma reverse_loop_rev:
  "reverse_loop (xs @ ys @ zs) (int (length xs)) (int (length xs + length ys) - 1) = xs @ rev ys @ zs"
proof (induction "length ys" arbitrary: xs ys zs rule: less_induct)
  case less
  show ?case
  proof (cases "length ys < 2")
    case True
    then have "rev ys = ys" by (cases ys) auto
    with True show ?thesis by (subst reverse_loop.simps) simp
  next
    case False
    then obtain a ws b where ys: "ys = a # ws @ [b]"
      by (metis One_nat_def append_butlast_last_id length_Cons less_2_cases_iff list.exhaust list.size(3)
          length_0_conv)
    have upd: "(xs @ b # ws @ b # zs)[Suc (length ws + length xs) := a] = xs @ b # ws @ a # zs"
      by (simp add: list_update_append)
    have "reverse_loop ((xs @ [b]) @ ws @ a # zs) (int (length (xs @ [b])))
        (int (length (xs @ [b]) + length ws) - 1) = (xs @ [b]) @ rev ws @ a # zs"
      by (rule less) (simp add: ys)
    then show ?thesis
      by (subst reverse_loop.simps) (simp add: ys upd nth_append nat_add_distrib algebra_simps)
  qed
qed

lemma reverse_string_rev [simp]: "reverse_string str (int (length str)) = rev str"
  using reverse_loop_rev [of "[]" str "[]"] by (simp add: reverse_string_def)

text \<open>The digits of a number, least significant first, and the number a digit string denotes.\<close>

fun udigits :: "nat \<Rightarrow> nat \<Rightarrow> nat list" where
  "udigits b n = (if n = 0 \<or> b < 2 then [] else n mod b # udigits b (n div b))"

declare udigits.simps [simp del]

definition digit_value :: "char \<Rightarrow> nat" where
  "digit_value c = (let k = of_char c in if k \<le> 57 then k - 48 else if k \<ge> 97 then k - 87 else k - 55)"

definition numeral_value :: "nat \<Rightarrow> string \<Rightarrow> nat" where
  "numeral_value b cs = foldl (\<lambda>v c. v * b + digit_value c) 0 cs"

definition signed_value :: "nat \<Rightarrow> string \<Rightarrow> int" where
  "signed_value b cs = (if cs \<noteq> [] \<and> hd cs = CHR ''-'' then - int (numeral_value b (tl cs))
     else int (numeral_value b cs))"

lemma udigits_less: "d \<in> set (udigits b n) \<Longrightarrow> d < b"
proof (induction b n rule: udigits.induct)
  case (1 b n)
  then show ?case by (subst (asm) (2) udigits.simps) (auto split: if_splits)
qed

lemma udigits_value: "2 \<le> b \<Longrightarrow> foldr (\<lambda>d v. v * b + d) (udigits b n) 0 = n"
proof (induction b n rule: udigits.induct)
  case (1 b n)
  then show ?case by (subst udigits.simps) simp
qed

lemma udigits_length: "n < b ^ k \<Longrightarrow> length (udigits b n) \<le> k"
proof (induction k arbitrary: n)
  case 0
  then show ?case by (subst udigits.simps) simp
next
  case (Suc k)
  then have "n div b < b ^ k" by (simp add: less_mult_imp_div_less mult.commute)
  then show ?case using Suc.IH by (subst udigits.simps) simp
qed

lemma udigits_eq_Nil: "2 \<le> b \<Longrightarrow> udigits b n = [] \<longleftrightarrow> n = 0"
  by (subst udigits.simps) simp

lemma udigits_last: "2 \<le> b \<Longrightarrow> n \<noteq> 0 \<Longrightarrow> last (udigits b n) \<noteq> 0"
proof (induction b n rule: udigits.induct)
  case (1 b n)
  show ?case
  proof (cases "n div b = 0")
    case True
    with "1.prems" show ?thesis
      by (subst udigits.simps) (simp add: udigits_eq_Nil div_eq_0_iff)
  next
    case False
    with "1" show ?thesis by (subst udigits.simps) (simp add: udigits_eq_Nil)
  qed
qed

lemma utoa_loop_digits:
  assumes "2 \<le> unat base"
  shows "utoa_loop letter v base str =
     Some (str @ map (\<lambda>d. digit_char letter (int d)) (udigits (unat base) (unat v)))"
proof (induction "unat v" arbitrary: v str rule: less_induct)
  case less
  from assms have base: "base \<noteq> 0" by auto
  show ?case
  proof (cases "v = 0")
    case True
    then show ?thesis by (subst utoa_loop.simps, subst udigits.simps) simp
  next
    case False
    then have "unat v > 0" by (simp add: unat_gt_0)
    then have "unat (v div base) < unat v" using assms by (simp add: unat_div)
    then have "utoa_loop letter (v div base) base (str @ [digit_char letter (uint (v mod base))]) =
      Some ((str @ [digit_char letter (uint (v mod base))]) @
        map (\<lambda>d. digit_char letter (int d)) (udigits (unat base) (unat (v div base))))"
      by (rule less)
    with False base assms show ?thesis
      by (subst utoa_loop.simps, subst udigits.simps)
        (simp add: unat_div unat_mod uint_nat unat_eq_zero)
  qed
qed

lemma itoa_loop_digits:
  assumes "2 \<le> b"
  shows "itoa_loop (int n) (int b) str =
     Some (str @ map (\<lambda>d. digit_char 97 (int d)) (udigits b n))"
proof (induction n arbitrary: str rule: less_induct)
  case (less n)
  show ?case
  proof (cases "n = 0")
    case True
    then show ?thesis by (subst itoa_loop.simps, subst udigits.simps) simp
  next
    case False
    with assms have "n div b < n" by simp
    note IH = less [OF this]
    have "int n sdiv int b = int (n div b)" "int n smod int b = int (n mod b)"
      using False assms by (simp_all add: signed_divide_int_def signed_modulo_int_def zdiv_int zmod_int
          minus_div_mult_eq_mod)
    with False assms show ?thesis
      by (subst itoa_loop.simps, subst udigits.simps) (simp add: IH)
  qed
qed

lemma digit_value_char:
  assumes "d < 36" and "letter \<in> {65, 97}"
  shows "digit_value (digit_char letter (int d)) = d"
proof -
  have "char_of (int d + 48) = (char_of (d + 48) :: char)"
    "char_of (int d + 55) = (char_of (d + 55) :: char)"
    "char_of (int d + 87) = (char_of (d + 87) :: char)"
    using char_of_nat [of "d + 48"] char_of_nat [of "d + 55"] char_of_nat [of "d + 87"] by simp_all
  with assms show ?thesis by (auto simp: digit_char_def digit_value_def Let_def algebra_simps)
qed

lemma numeral_value_rev_digits:
  assumes "\<And>d. d \<in> set ds \<Longrightarrow> d < 36" and "letter \<in> {65, 97}"
  shows "numeral_value b (rev (map (\<lambda>d. digit_char letter (int d)) ds)) =
     foldr (\<lambda>d v. v * b + d) ds 0"
  using assms(1)
  by (induction ds) (simp_all add: numeral_value_def digit_value_char [OF _ assms(2)])

definition utoa_spec :: "nat \<Rightarrow> int \<Rightarrow> nat \<Rightarrow> string" where
  "utoa_spec b letter n = (if n = 0 then ''0''
     else rev (map (\<lambda>d. digit_char letter (int d)) (udigits b n)))"

lemma utoa_eq_spec:
  "2 \<le> unat base \<Longrightarrow> utoa w base = Some (utoa_spec (unat base) 97 (unat w))"
  "2 \<le> unat base \<Longrightarrow> utoa_upper w base = Some (utoa_spec (unat base) 65 (unat w))"
  by (simp_all add: utoa_def utoa_upper_def utoa_spec_def utoa_loop_digits unat_eq_zero)

lemma numeral_value_spec:
  assumes "2 \<le> b" "b \<le> 36" "letter \<in> {65, 97}"
  shows "numeral_value b (utoa_spec b letter n) = n"
proof (cases "n = 0")
  case True
  then show ?thesis by (simp add: utoa_spec_def numeral_value_def digit_value_def)
next
  case False
  have "d < 36" if "d \<in> set (udigits b n)" for d
    using udigits_less [OF that] assms(2) by simp
  with False assms show ?thesis
    by (simp add: utoa_spec_def numeral_value_rev_digits udigits_value)
qed

lemma length_utoa_spec: "0 < k \<Longrightarrow> n < b ^ k \<Longrightarrow> length (utoa_spec b letter n) \<le> k"
  using udigits_length [of n b k] by (simp add: utoa_spec_def)

lemma hd_utoa_spec:
  assumes "2 \<le> b" "b \<le> 36" "letter \<in> {65, 97}" "n \<noteq> 0"
  shows "hd (utoa_spec b letter n) \<noteq> CHR ''0''"
proof
  let ?d = "last (udigits b n)"
  have ne: "udigits b n \<noteq> []" using assms by (simp add: udigits_eq_Nil)
  then have "?d < 36" using udigits_less [of ?d b n] assms(2) by (auto dest: order_less_le_trans)
  moreover assume "hd (utoa_spec b letter n) = CHR ''0''"
  then have "digit_char letter (int ?d) = CHR ''0''"
    using assms(4) ne by (simp add: utoa_spec_def hd_rev last_map)
  ultimately have "?d = digit_value CHR ''0''"
    using digit_value_char [OF _ assms(3), of ?d] by simp
  then show False using udigits_last [OF assms(1,4)] by (simp add: digit_value_def)
qed

lemma digit_char_range:
  "- 9 \<le> r \<Longrightarrow> r < 36 \<Longrightarrow> letter \<in> {65, 97} \<Longrightarrow> digit_char letter r \<noteq> CHR 0x00"
proof -
  assume r: "- 9 \<le> r" "r < 36" "letter \<in> {65, 97}"
  then have "of_char (digit_char letter r) \<noteq> (0 :: int)"
    by (auto simp: digit_char_def dest!: zdvd_imp_le)
  then show ?thesis by auto
qed

lemma utoa_spec_no_nul:
  "b \<le> 36 \<Longrightarrow> letter \<in> {65, 97} \<Longrightarrow> CHR 0x00 \<notin> set (utoa_spec b letter n)"
proof -
  assume b: "b \<le> 36" and l: "letter \<in> {65, 97}"
  have "digit_char letter (int d) \<noteq> CHR 0x00" if "d \<in> set (udigits b n)" for d
    using udigits_less [OF that] b by (intro digit_char_range l) simp_all
  then have "CHR 0x00 \<notin> (\<lambda>d. digit_char letter (int d)) ` set (udigits b n)"
    by fastforce
  then show ?thesis by (simp add: utoa_spec_def)
qed

text \<open>The most negative \<^verbatim>\<open>int\<close> stays negative under the negation, so every remainder is
  negative and every digit lies below the character \<^verbatim>\<open>0\<close>.\<close>

lemma itoa_INT_MIN: "itoa (- (2 ^ 31)) 10 = Some ''-./,),(-*,(''"
proof -
  have "itoa_loop (- 2147483648) 10 [] = Some ''(,*-(,),/.''"
    by (simp add: itoa_loop.simps signed_divide_int_def signed_modulo_int_def digit_char_def
        char_of_def)
  then show ?thesis
    using reverse_string_rev [of "''(,*-(,),/.-''"]
    by (simp add: itoa_def neg32_def)
qed

lemma itoa_eq_spec:
  assumes "- (2 ^ 31) < v"
  shows "itoa v 10 = Some (if v < 0 then CHR ''-'' # utoa_spec 10 97 (nat (- v)) else utoa_spec 10 97 (nat v))"
proof -
  have *: "itoa_loop w 10 [] = Some (map (\<lambda>d. digit_char 97 (int d)) (udigits 10 (nat w)))"
    if "0 \<le> w" for w
    using itoa_loop_digits [of 10 "nat w" "[]"] that by simp
  show ?thesis
    using assms * [of v] * [of "- v"]
      reverse_string_rev [of "map (\<lambda>d. digit_char 97 (int d)) (udigits 10 (nat (- v))) @ ''-''"]
    by (auto simp: itoa_def neg32_def utoa_spec_def)
qed

section \<open>The rendered text of a format\<close>

text \<open>What one conversion contributes to the output, and the arguments it leaves.\<close>

definition directive :: "char \<Rightarrow> varg list \<Rightarrow> (string \<times> varg list) option" where
  "directive f args =
     (if f = CHR ''s'' then map_option (\<lambda>(str, rest). (take (strlen str) str, rest)) (va_str args)
      else if f = CHR ''c'' then map_option (\<lambda>(w, rest). ([char_of (unat w)], rest)) (va_int args)
      else if f = CHR ''d'' then map_option (\<lambda>(w, rest). (the (itoa (sint w) 10), rest)) (va_int args)
      else if f = CHR ''u'' then map_option (\<lambda>(w, rest). (utoa_spec 10 97 (unat w), rest)) (va_int args)
      else if f = CHR ''x'' then map_option (\<lambda>(w, rest). (utoa_spec 16 97 (unat w), rest)) (va_int args)
      else if f = CHR ''X'' then map_option (\<lambda>(w, rest). (utoa_spec 16 65 (unat w), rest)) (va_int args)
      else if f = CHR ''p'' then
        map_option (\<lambda>(w, rest). (''0x'' @ utoa_spec 16 97 (unat w), rest)) (va_int args)
      else if f = CHR ''%'' then Some (''%'', args)
      else Some (''%'' @ [f], args))"

fun render :: "string \<Rightarrow> varg list \<Rightarrow> string option" where
  "render [] args = Some []"
| "render [c] args = (if c = CHR ''%'' then None else Some [c])"
| "render (c # f # fmt) args =
     (if c \<noteq> CHR ''%'' then map_option ((#) c) (render (f # fmt) args)
      else do {
        (out, args) \<leftarrow> directive f args;
        map_option ((@) out) (render fmt args) })"

lemma console_writestring_no_nul:
  "CHR 0x00 \<notin> set cs \<Longrightarrow> console_writestring cs s = console_write cs s"
  by (simp add: console_writestring_def strlen_no_nul)

lemma itoa_sint:
  "\<exists>buf. itoa (sint (w :: u32)) 10 = Some buf \<and> CHR 0x00 \<notin> set buf \<and> length buf \<le> 11"
proof (cases "sint w = - (2 ^ 31)")
  case True
  then show ?thesis using itoa_INT_MIN by simp
next
  case False
  have bounds: "- (2 ^ 31) \<le> sint w" "sint w < 2 ^ 31"
    using sint_ge [of w] sint_lt [of w] by simp_all
  have "length (utoa_spec 10 97 (nat (sint w))) \<le> 10" "length (utoa_spec 10 97 (nat (- sint w))) \<le> 10"
    by (rule length_utoa_spec; use bounds in simp)+
  then show ?thesis using itoa_eq_spec [of "sint w"] False bounds utoa_spec_no_nul [of 10 97]
    by auto
qed

lemma printk_directive:
  "printk_loop (CHR ''%'' # f # fmt) args written s =
     (case directive f args of None \<Rightarrow> None
      | Some (out, args) \<Rightarrow> printk_loop fmt args (written + int (length out)) (console_write out s))"
proof -
  have num: "console_writestring (utoa_spec 10 97 n) s = console_write (utoa_spec 10 97 n) s"
    "console_writestring (utoa_spec 16 97 n) s = console_write (utoa_spec 16 97 n) s"
    "console_writestring (utoa_spec 16 65 n) s = console_write (utoa_spec 16 65 n) s"
    "console_writestring ''0x'' s = console_putchar CHR ''x'' (console_putchar CHR ''0'' s)" for n s
    by (simp_all add: console_writestring_no_nul utoa_spec_no_nul)
  have str: "console_writestring cs s = console_write (take (strlen cs) cs) s" for cs s
    by (simp add: console_writestring_def)
  have hex: "utoa w 16 = Some (utoa_spec 16 97 (unat w))" for w
    by (simp add: utoa_eq_spec)
  consider (s) "f = CHR ''s''" | (c) "f = CHR ''c''" | (d) "f = CHR ''d''" | (u) "f = CHR ''u''"
    | (x) "f = CHR ''x''" | (X) "f = CHR ''X''" | (p) "f = CHR ''p''" | (percent) "f = CHR ''%''"
    | (other) "f \<notin> set ''scduxXp%''" by auto
  then show ?thesis
  proof cases
    case s
    then show ?thesis
      by (cases "va_str args") (auto simp: directive_def str strlen_le min_absorb2)
  next
    case c
    then show ?thesis by (cases "va_int args") (auto simp: directive_def)
  next
    case d
    show ?thesis
    proof (cases "va_int args")
      case None
      with d show ?thesis by (simp add: directive_def)
    next
      case (Some wr)
      obtain buf where "itoa (sint (fst wr)) 10 = Some buf" "CHR 0x00 \<notin> set buf"
        using itoa_sint by blast
      with d Some show ?thesis
        by (cases wr) (simp add: directive_def console_writestring_no_nul)
    qed
  next
    case u
    then show ?thesis by (cases "va_int args") (auto simp: directive_def num utoa_eq_spec)
  next
    case x
    then show ?thesis by (cases "va_int args") (auto simp: directive_def num utoa_eq_spec)
  next
    case X
    then show ?thesis by (cases "va_int args") (auto simp: directive_def num utoa_eq_spec)
  next
    case p
    then show ?thesis
      by (cases "va_int args") (auto simp: directive_def num hex algebra_simps)
  next
    case percent
    then show ?thesis by (simp add: directive_def)
  next
    case other
    then show ?thesis by (simp add: directive_def)
  qed
qed

lemma printk_loop_render:
  "printk_loop fmt args written s =
     map_option (\<lambda>out. (written + int (length out), console_write out s)) (render fmt args)"
proof (induction fmt arbitrary: args written s rule: length_induct)
  case (1 fmt)
  consider "fmt = []" | c where "fmt = [c]" | f fs where "fmt = CHR ''%'' # f # fs"
    | c f fs where "fmt = c # f # fs" "c \<noteq> CHR ''%''"
    by (metis list.exhaust)
  then show ?case
  proof cases
    case (3 f fs)
    then have "length fs < length fmt" by simp
    note IH = "1.IH" [rule_format, OF this]
    show ?thesis unfolding 3 printk_directive
      by (auto simp: IH option.map_comp o_def console_write_append add.assoc split: option.splits)
  next
    case (4 c f fs)
    then have "length (f # fs) < length fmt" by simp
    note IH = "1.IH" [rule_format, OF this]
    show ?thesis using 4(2) by (simp add: 4(1) IH option.map_comp o_def add.assoc)
  qed simp_all
qed

lemma printk_render:
  "printk fmt args s = map_option (\<lambda>out. (int (length out), console_write out s)) (render fmt args)"
  by (simp add: printk_def printk_loop_render)

lemma printk_level_cursor_wf: "console_wf s \<Longrightarrow> console_wf (printk_level color tag fmt s)"
  by (simp add: printk_level_def Let_def console_set_color_def console_writestring_def
      console_write_fold vga.fold_put_wf console_putchar_wf console_wf_def [of "_\<lparr>console_color := _\<rparr>"]
      flip: console_wf_def)

section \<open>Properties\<close>


text \<open>C38 (roundtrip): the unsigned conversion returns a numeral that denotes the number, without
  a leading zero and short enough for the 32-byte buffer of its callers, for every base from
  3 to 36.\<close>

theorem utoa_denotes:
  assumes "3 \<le> unat base" "unat base \<le> 36"
  shows "\<exists>buf. utoa w base = Some buf \<and> numeral_value (unat base) buf = unat w \<and>
    length buf \<le> 21 \<and> (hd buf = CHR ''0'' \<longrightarrow> w = 0)"
proof -
  have "unat w < 2 ^ 32" by (rule unat_lt32)
  also have "(2 :: nat) ^ 32 \<le> 3 ^ 21" by simp
  also have "(3 :: nat) ^ 21 \<le> unat base ^ 21" by (rule power_mono) (use assms in simp_all)
  finally have "length (utoa_spec (unat base) 97 (unat w)) \<le> 21"
    by (intro length_utoa_spec) simp_all
  with assms hd_utoa_spec [of "unat base" 97 "unat w"] show ?thesis
    by (auto simp: utoa_eq_spec numeral_value_spec unat_eq_zero)
qed

theorem utoa_denotes_witness:
  "\<exists>buf. utoa 0xDEADBEEF 16 = Some buf \<and> numeral_value 16 buf = 0xDEADBEEF \<and> length buf \<le> 21 \<and>
     (hd buf = CHR ''0'' \<longrightarrow> (0xDEADBEEF :: u32) = 0)"
  using utoa_denotes [of 16 "0xDEADBEEF"] by simp

text \<open>Fact (roundtrip): the signed conversion denotes its argument, sign included, for every
  \<^verbatim>\<open>int\<close> but the most negative one, and fits the 32-byte buffer.\<close>

theorem itoa_denotes:
  assumes "- (2 ^ 31) < v" and "v < 2 ^ 31"
  shows "\<exists>buf. itoa v 10 = Some buf \<and> signed_value 10 buf = v \<and> length buf \<le> 11"
proof -
  have len: "length (utoa_spec 10 97 (nat v)) \<le> 10" "length (utoa_spec 10 97 (nat (- v))) \<le> 10"
    by (rule length_utoa_spec; use assms in simp)+
  have ne: "utoa_spec 10 97 n \<noteq> []" for n
    using udigits_eq_Nil [of 10 n] by (simp add: utoa_spec_def)
  have plain: "hd (utoa_spec 10 97 n) \<noteq> CHR ''-''" for n
  proof
    assume hd: "hd (utoa_spec 10 97 n) = CHR ''-''"
    with ne [of n] have "CHR ''-'' \<in> set (utoa_spec 10 97 n)" by (metis hd_in_set)
    then obtain d where d: "d \<in> set (udigits 10 n)" "CHR ''-'' = digit_char 97 (int d)"
      by (auto simp: utoa_spec_def split: if_splits)
    from d(1) have "d < 10" by (rule udigits_less)
    with d(2) have "d = digit_value CHR ''-''" using digit_value_char [of d 97] by simp
    then have "d = 0" by (simp add: digit_value_def)
    moreover have "digit_char 97 0 = CHR ''0''" by (simp add: digit_char_def char_of_def)
    ultimately show False using d(2) by simp
  qed
  have val: "numeral_value 10 (utoa_spec 10 97 n) = n" for n
    by (simp add: numeral_value_spec)
  show ?thesis
  proof (cases "v < 0")
    case True
    then have "signed_value 10 (CHR ''-'' # utoa_spec 10 97 (nat (- v))) = v"
      by (simp add: signed_value_def val)
    with True len(2) show ?thesis by (simp add: itoa_eq_spec [OF assms(1)])
  next
    case False
    then have "signed_value 10 (utoa_spec 10 97 (nat v)) = v"
      by (simp add: signed_value_def val plain)
    with False len(1) show ?thesis by (simp add: itoa_eq_spec [OF assms(1)])
  qed
qed

theorem itoa_denotes_witness:
  "\<exists>buf. itoa (- 12345) 10 = Some buf \<and> signed_value 10 buf = - 12345 \<and> length buf \<le> 11"
  using itoa_denotes [of "- 12345"] by simp

text \<open>Fact (error): the most negative \<^verbatim>\<open>int\<close> is printed as punctuation, because the conversion
  negates it before taking digits and the negation overflows back to itself.\<close>

theorem printk_INT_MIN_garbage:
  "printk ''%d'' [VInt 0x80000000] s = Some (11, console_write ''-./,),(-*,('' s)"
  using itoa_INT_MIN by (simp add: printk_render directive_def)

text \<open>Fact (functional): width and padding are not interpreted. A conversion that starts with
  a digit or a minus sign is printed as it stands and consumes no argument.\<close>

theorem printk_ignores_width:
  assumes "f \<in> set ''-0123456789''"
  shows "render (CHR ''%'' # f # fmt) args = map_option ((@) [CHR ''%'', f]) (render fmt args)"
  using assms by (auto simp: directive_def)

theorem printk_ignores_width_witness:
  "render ''%08X is %u'' [VInt 7] = Some ''%08X is 7''"
  using printk_ignores_width [of "CHR ''0''" "''8X is %u''" "[VInt 7]"]
    udigits.simps [of 10 7] udigits.simps [of 10 0]
  by (simp add: directive_def utoa_spec_def digit_char_def char_of_def)

text \<open>Fact (functional): an error line is the tag, the format text as it stands (no conversion
  in it is performed, no argument is read) and a newline; the colour of the console is restored.\<close>

theorem printk_error_verbatim:
  assumes "CHR 0x00 \<notin> set fmt"
  shows "printk_error fmt args s =
    (let s1 = console_write ''[ERROR] '' (s\<lparr>console_color := 0x0C\<rparr>);
         s2 = console_write (fmt @ [CHR 0x0A]) (s1\<lparr>console_color := 0x0F\<rparr>)
     in s2\<lparr>console_color := console_color s\<rparr>)"
proof -
  have colors: "vga_entry_color VGA_COLOR_LIGHT_RED VGA_COLOR_BLACK = 0x0C"
    "vga_entry_color VGA_COLOR_WHITE VGA_COLOR_BLACK = 0x0F"
    by (simp_all add: vga_entry_color_def)
  show ?thesis
    using assms unfolding printk_error_def printk_level_def
    by (simp add: colors console_set_color_def console_writestring_no_nul console_write_append Let_def
        del: console_write.simps) simp
qed

theorem printk_error_verbatim_witness:
  "printk_error ''pid %d'' [VInt 7] initial_console =
    (let s1 = console_write ''[ERROR] '' (initial_console\<lparr>console_color := 0x0C\<rparr>);
         s2 = console_write (''pid %d'' @ [CHR 0x0A]) (s1\<lparr>console_color := 0x0F\<rparr>)
     in s2\<lparr>console_color := console_color initial_console\<rparr>)"
  by (rule printk_error_verbatim) simp

end
