(* ===== verification/Pic.thy ===== *)
theory Pic
  imports Printk
begin

text \<open>
  Port input and output, and the driver of the two 8259A interrupt controllers in
  \<^verbatim>\<open>src/kernel/pic.c\<close>.

  The devices behind the ports are not code of this repository. Every access is recorded
  in order in \<open>io_log\<close>; what a read returns is a parameter \<open>dev\<close> of the
  definitions that read, a function of the accesses so far. What the drivers rely on is
  a hypothesis about \<open>dev\<close>, such as \<open>imr_readback\<close> below.
\<close>

section \<open>Port input and output\<close>

datatype io_event = In u16 u8 | Out u16 u8

type_synonym device = "io_event list \<Rightarrow> u16 \<Rightarrow> u8"

record ports = kout +
  io_log :: "io_event list"

definition outb :: "u16 \<Rightarrow> u8 \<Rightarrow> 'a ports_scheme \<Rightarrow> 'a ports_scheme" where
  "outb port val s = s\<lparr>io_log := io_log s @ [Out port val]\<rparr>"

definition inb :: "device \<Rightarrow> u16 \<Rightarrow> 'a ports_scheme \<Rightarrow> u8 \<times> 'a ports_scheme" where
  "inb dev port s = (let v = dev (io_log s) port in (v, s\<lparr>io_log := io_log s @ [In port v]\<rparr>))"

definition io_wait :: "'a ports_scheme \<Rightarrow> 'a ports_scheme" where
  "io_wait s = outb 0x80 0 s"

section \<open>The interrupt controllers\<close>

definition PIC1_COMMAND :: u16 where "PIC1_COMMAND = 0x20"
definition PIC1_DATA :: u16 where "PIC1_DATA = 0x21"
definition PIC2_COMMAND :: u16 where "PIC2_COMMAND = 0xA0"
definition PIC2_DATA :: u16 where "PIC2_DATA = 0xA1"
definition ICW1_ICW4 :: u8 where "ICW1_ICW4 = 0x01"
definition ICW1_INIT :: u8 where "ICW1_INIT = 0x10"
definition ICW4_8086 :: u8 where "ICW4_8086 = 0x01"
definition IRQ_BASE_MASTER :: u8 where "IRQ_BASE_MASTER = 0x20"
definition IRQ_BASE_SLAVE :: u8 where "IRQ_BASE_SLAVE = 0x28"

lemmas pic_consts = PIC1_COMMAND_def PIC1_DATA_def PIC2_COMMAND_def PIC2_DATA_def
  ICW1_ICW4_def ICW1_INIT_def ICW4_8086_def IRQ_BASE_MASTER_def IRQ_BASE_SLAVE_def

definition pic_init :: "device \<Rightarrow> 'a ports_scheme \<Rightarrow> 'a ports_scheme" where
  "pic_init dev s =
     (let s = kinfo ''Initializing Programmable Interrupt Controller (PIC)'' [] s;
          (master_mask, s) = inb dev PIC1_DATA s;
          (slave_mask, s) = inb dev PIC2_DATA s;
          s = kprintk (''  Current masks: Master=0x%02X, Slave=0x%02X'' @ [CHR 0x0A])
                [VInt (ucast master_mask), VInt (ucast slave_mask)] s;
          s = io_wait (outb PIC1_COMMAND (ICW1_INIT OR ICW1_ICW4) s);
          s = io_wait (outb PIC2_COMMAND (ICW1_INIT OR ICW1_ICW4) s);
          s = io_wait (outb PIC1_DATA IRQ_BASE_MASTER s);
          s = io_wait (outb PIC2_DATA IRQ_BASE_SLAVE s);
          s = io_wait (outb PIC1_DATA 4 s);
          s = io_wait (outb PIC2_DATA 2 s);
          s = io_wait (outb PIC1_DATA ICW4_8086 s);
          s = io_wait (outb PIC2_DATA ICW4_8086 s);
          s = outb PIC1_DATA 0xFB s;
          s = outb PIC2_DATA 0xFF s;
          s = kprintk (''  [OK] PIC remapped: IRQ 0-7 -> INT 0x%02X-0x%02X'' @ [CHR 0x0A])
                [VInt (ucast IRQ_BASE_MASTER), VInt (ucast (IRQ_BASE_MASTER + 7))] s;
          s = kprintk (''                    IRQ 8-15 -> INT 0x%02X-0x%02X'' @ [CHR 0x0A])
                [VInt (ucast IRQ_BASE_SLAVE), VInt (ucast (IRQ_BASE_SLAVE + 7))] s
      in kprintk (''       All IRQs masked pending specific driver setup'' @ [CHR 0x0A]) [] s)"

definition pic_send_eoi :: "u8 \<Rightarrow> 'a ports_scheme \<Rightarrow> 'a ports_scheme" where
  "pic_send_eoi irq s =
     (let s = (if irq \<ge> 8 then outb PIC2_COMMAND 0x20 s else s)
      in outb PIC1_COMMAND 0x20 s)"

definition pic_enable_irq :: "device \<Rightarrow> u8 \<Rightarrow> 'a ports_scheme \<Rightarrow> 'a ports_scheme" where
  "pic_enable_irq dev irq s =
     (let (port, irq) = (if irq < 8 then (PIC1_DATA, irq) else (PIC2_DATA, irq - 8));
          (mask, s) = inb dev port s
      in outb port (mask AND NOT (push_bit (unat irq) 1)) s)"

definition pic_disable_irq :: "device \<Rightarrow> u8 \<Rightarrow> 'a ports_scheme \<Rightarrow> 'a ports_scheme" where
  "pic_disable_irq dev irq s =
     (let (port, irq) = (if irq < 8 then (PIC1_DATA, irq) else (PIC2_DATA, irq - 8));
          (mask, s) = inb dev port s
      in outb port (mask OR push_bit (unat irq) 1) s)"

text \<open>The source leaves the order of the two reads open; gcc evaluates the left one first.\<close>

definition pic_get_mask :: "device \<Rightarrow> 'a ports_scheme \<Rightarrow> u16 \<times> 'a ports_scheme" where
  "pic_get_mask dev s =
     (let (hi, s) = inb dev PIC2_DATA s; (lo, s) = inb dev PIC1_DATA s
      in (push_bit 8 (ucast hi) OR ucast lo, s))"

section \<open>What the driver relies on\<close>

text \<open>
  How many initialization words a controller still expects after the accesses of a log:
  a command byte with bit 4 set (ICW1) announces three, each data byte is one of them.
\<close>

fun icw_left :: "u16 \<Rightarrow> u16 \<Rightarrow> nat \<Rightarrow> io_event list \<Rightarrow> nat" where
  "icw_left cmd data n [] = n"
| "icw_left cmd data n (Out p v # es) =
     icw_left cmd data (if p = cmd \<and> bit v 4 then 3 else if p = data then n - 1 else n) es"
| "icw_left cmd data n (In p v # es) = icw_left cmd data n es"

definition quiet :: "u16 \<Rightarrow> u16 \<Rightarrow> io_event \<Rightarrow> bool" where
  "quiet cmd data e = (case e of In _ _ \<Rightarrow> True | Out p _ \<Rightarrow> p \<noteq> data \<and> p \<noteq> cmd)"

text \<open>
  Documented behaviour of the 8259A: a data byte sent outside an initialization sequence
  (OCW1) sets the interrupt mask register, and a read of the data port returns that
  register until the controller is written to again.
\<close>

definition imr_readback :: "device \<Rightarrow> bool" where
  "imr_readback dev \<longleftrightarrow>
     (\<forall>cmd data log v es. (cmd, data) \<in> {(PIC1_COMMAND, PIC1_DATA), (PIC2_COMMAND, PIC2_DATA)} \<longrightarrow>
        icw_left cmd data 0 log = 0 \<longrightarrow> list_all (quiet cmd data) es \<longrightarrow>
        dev (log @ Out data v # es) data = v)"

text \<open>The simplest device with that behaviour: a data port returns the last byte sent to it.\<close>

fun last_out :: "u16 \<Rightarrow> u8 \<Rightarrow> io_event list \<Rightarrow> u8" where
  "last_out p v [] = v"
| "last_out p v (Out q w # es) = last_out p (if q = p then w else v) es"
| "last_out p v (In q w # es) = last_out p v es"

definition latch_device :: device where
  "latch_device log p = last_out p 0 log"

lemma last_out_append: "last_out p v (xs @ ys) = last_out p (last_out p v xs) ys"
  by (induction p v xs rule: last_out.induct) auto

lemma last_out_quiet: "list_all (quiet cmd p) es \<Longrightarrow> last_out p v es = v"
  by (induction p v es rule: last_out.induct) (auto simp: quiet_def)

lemma imr_readback_latch: "imr_readback latch_device"
  by (auto simp: imr_readback_def latch_device_def last_out_append last_out_quiet)

lemma icw_left_append: "icw_left c d n (xs @ ys) = icw_left c d (icw_left c d n xs) ys"
  by (induction c d n xs rule: icw_left.induct) auto

text \<open>The bytes a log sends to one of two ports, in order.\<close>

definition sent_to :: "u16 set \<Rightarrow> io_event list \<Rightarrow> (u16 \<times> u8) list" where
  "sent_to ps log = concat (map (\<lambda>e. case e of Out p v \<Rightarrow> if p \<in> ps then [(p, v)] else [] | _ \<Rightarrow> []) log)"

lemma sent_to_simps [simp]:
  "sent_to ps [] = []"
  "sent_to ps (xs @ ys) = sent_to ps xs @ sent_to ps ys"
  "sent_to ps (Out p v # es) = (if p \<in> ps then (p, v) # sent_to ps es else sent_to ps es)"
  "sent_to ps (In p v # es) = sent_to ps es"
  by (simp_all add: sent_to_def)

lemmas port_defs = outb_def inb_def io_wait_def

lemma io_log_kout [simp]:
  "io_log (kprintk f a s) = io_log s" "io_log (kinfo f a s) = io_log s"
  "io_log (kwarn f a s) = io_log s" "io_log (kerror f a s) = io_log s"
  by (simp_all add: kout_defs)

lemma io_log_pic_init:
  "io_log (pic_init dev s) = io_log s @
     (let m = dev (io_log s) 0x21 in
      [In 0x21 m, In 0xA1 (dev (io_log s @ [In 0x21 m]) 0xA1),
       Out 0x20 0x11, Out 0x80 0, Out 0xA0 0x11, Out 0x80 0, Out 0x21 0x20, Out 0x80 0,
       Out 0xA1 0x28, Out 0x80 0, Out 0x21 4, Out 0x80 0, Out 0xA1 2, Out 0x80 0,
       Out 0x21 1, Out 0x80 0, Out 0xA1 1, Out 0x80 0, Out 0x21 0xFB, Out 0xA1 0xFF])"
  by (simp add: pic_init_def port_defs pic_consts Let_def)

section \<open>The interrupt mask\<close>

text \<open>\<open>imr_is\<close>: the mask register of a controller holds \<open>v\<close>, by the log alone.\<close>

definition imr_is :: "u16 \<Rightarrow> u16 \<Rightarrow> u8 \<Rightarrow> io_event list \<Rightarrow> bool" where
  "imr_is cmd data v log \<longleftrightarrow> (\<exists>log0 es. log = log0 @ Out data v # es \<and>
     icw_left cmd data 0 log0 = 0 \<and> list_all (quiet cmd data) es)"

abbreviation "master_imr \<equiv> imr_is PIC1_COMMAND PIC1_DATA"
abbreviation "slave_imr \<equiv> imr_is PIC2_COMMAND PIC2_DATA"

lemma icw_left_quiet: "list_all (quiet c d) es \<Longrightarrow> icw_left c d n es = n"
  by (induction c d n es rule: icw_left.induct) (auto simp: quiet_def)

lemma imr_is_icw_left: "imr_is c d v log \<Longrightarrow> c \<noteq> d \<Longrightarrow> icw_left c d 0 log = 0"
  by (auto simp: imr_is_def icw_left_append icw_left_quiet)

lemma imr_is_quiet:
  assumes "imr_is c d v log" "list_all (quiet c d) es"
  shows "imr_is c d v (log @ es)"
proof -
  from assms(1) obtain log0 es0 where "log = log0 @ Out d v # es0"
    "icw_left c d 0 log0 = 0" "list_all (quiet c d) es0" by (auto simp: imr_is_def)
  with assms(2) show ?thesis
    unfolding imr_is_def by (intro exI [of _ log0] exI [of _ "es0 @ es"]) simp
qed

lemma imr_is_write:
  assumes "icw_left c d 0 log = 0" "list_all (quiet c d) es" "list_all (quiet c d) es'"
  shows "imr_is c d v (log @ es @ Out d v # es')"
  unfolding imr_is_def
  by (intro exI [of _ "log @ es"] exI [of _ es'])
    (simp add: assms icw_left_append icw_left_quiet)

lemma imr_readback_master: "imr_readback dev \<Longrightarrow> master_imr v log \<Longrightarrow> dev log PIC1_DATA = v"
  by (auto simp: imr_readback_def imr_is_def)

lemma imr_readback_slave: "imr_readback dev \<Longrightarrow> slave_imr v log \<Longrightarrow> dev log PIC2_DATA = v"
  by (auto simp: imr_readback_def imr_is_def)

lemma pic_ports_distinct [simp]: "PIC1_COMMAND \<noteq> PIC1_DATA" "PIC2_COMMAND \<noteq> PIC2_DATA"
  by (simp_all add: pic_consts)

lemma io_log_enable:
  "io_log (pic_enable_irq dev irq s) =
     (let (port, k) = (if irq < 8 then (PIC1_DATA, irq) else (PIC2_DATA, irq - 8)); m = dev (io_log s) port
      in io_log s @ [In port m, Out port (m AND NOT (push_bit (unat k) 1))])"
  by (simp add: pic_enable_irq_def port_defs Let_def split: prod.split)

lemma io_log_disable:
  "io_log (pic_disable_irq dev irq s) =
     (let (port, k) = (if irq < 8 then (PIC1_DATA, irq) else (PIC2_DATA, irq - 8)); m = dev (io_log s) port
      in io_log s @ [In port m, Out port (m OR push_bit (unat k) 1)])"
  by (simp add: pic_disable_irq_def port_defs Let_def split: prod.split)

lemma imr_change:
  assumes "imr_is c d m log" "c \<noteq> d"
  shows "imr_is c d w (log @ [In p u, Out d w])"
  using imr_is_write [OF imr_is_icw_left [OF assms], of "[In p u]" "[]" w] by (simp add: quiet_def)

lemma imr_pic_init:
  assumes "icw_left PIC1_COMMAND PIC1_DATA 0 (io_log s) = 0"
    and "icw_left PIC2_COMMAND PIC2_DATA 0 (io_log s) = 0"
  shows "master_imr 0xFB (io_log (pic_init dev s))" "slave_imr 0xFF (io_log (pic_init dev s))"
proof -
  define pre where "pre = (let m = dev (io_log s) 0x21 in
      [In 0x21 m, In 0xA1 (dev (io_log s @ [In 0x21 m]) 0xA1),
       Out 0x20 0x11, Out 0x80 0, Out 0xA0 0x11, Out 0x80 0, Out 0x21 0x20, Out 0x80 0,
       Out 0xA1 0x28, Out 0x80 0, Out 0x21 4, Out 0x80 0, Out 0xA1 2, Out 0x80 0,
       Out 0x21 1, Out 0x80 0, Out 0xA1 1, Out 0x80 (0 :: u8)])"
  have log: "io_log (pic_init dev s) = (io_log s @ pre) @ Out 0x21 0xFB # [Out 0xA1 0xFF]"
    "io_log (pic_init dev s) = (io_log s @ pre @ [Out 0x21 0xFB]) @ Out 0xA1 0xFF # []"
    by (simp_all add: io_log_pic_init pre_def Let_def)
  have "bit (0x11 :: u8) 4" by simp
  then show "master_imr 0xFB (io_log (pic_init dev s))"
    unfolding imr_is_def
    by (intro exI [of _ "io_log s @ pre"] exI [of _ "[Out 0xA1 0xFF]"])
      (simp add: log(1) icw_left_append pre_def Let_def pic_consts quiet_def)
  show "slave_imr 0xFF (io_log (pic_init dev s))"
    using \<open>bit (0x11 :: u8) 4\<close> unfolding imr_is_def
    by (intro exI [of _ "io_log s @ pre @ [Out 0x21 0xFB]"] exI [of _ "[]"])
      (simp add: log(2) icw_left_append pre_def Let_def pic_consts quiet_def)
qed

section \<open>Properties\<close>

text \<open>Fact (functional): the initialization words reach each controller in the documented
  order (ICW1 to ICW4, then the mask), whatever the controllers return: the master is
  remapped to vector 0x20 with a slave on line 2, the slave to vector 0x28 with identity 2.\<close>

theorem pic_init_programs_both:
  "sent_to {0x20, 0x21} (io_log (pic_init dev s)) = sent_to {0x20, 0x21} (io_log s) @
     [(0x20, 0x11), (0x21, 0x20), (0x21, 0x04), (0x21, 0x01), (0x21, 0xFB)] \<and>
   sent_to {0xA0, 0xA1} (io_log (pic_init dev s)) = sent_to {0xA0, 0xA1} (io_log s) @
     [(0xA0, 0x11), (0xA1, 0x28), (0xA1, 0x02), (0xA1, 0x01), (0xA1, 0xFF)]"
  by (simp add: io_log_pic_init Let_def)

text \<open>Fact (safety): on controllers that return their mask as documented, enabling a line
  clears its bit and no other of the sixteen, and disabling it again restores the mask if
  the line was disabled before.\<close>

theorem pic_enable_disable:
  assumes dev: "imr_readback dev" and m: "master_imr m (io_log s)" and k: "slave_imr k (io_log s)"
    and irq: "irq < 8" and off: "bit m (unat irq)"
  shows "fst (pic_get_mask dev (pic_enable_irq dev irq s)) =
      push_bit 8 (ucast k) OR ucast (m AND NOT (push_bit (unat irq) 1)) \<and>
    fst (pic_get_mask dev (pic_disable_irq dev irq (pic_enable_irq dev irq s))) =
      fst (pic_get_mask dev s)"
proof -
  let ?b = "push_bit (unat irq) 1 :: u8"
  let ?s1 = "pic_enable_irq dev irq s" and ?s2 = "pic_disable_irq dev irq (pic_enable_irq dev irq s)"
  have qu: "list_all (quiet PIC2_COMMAND PIC2_DATA) [In PIC1_DATA u, Out PIC1_DATA w]" for u w
    by (simp add: quiet_def pic_consts)
  have get: "fst (pic_get_mask dev t) = push_bit 8 (ucast k') OR ucast m'"
    if "master_imr m' (io_log t)" "slave_imr k' (io_log t)" for t :: "'a ports_scheme" and m' k'
  proof -
    have "master_imr m' (io_log t @ [In PIC2_DATA k'])"
      by (rule imr_is_quiet [OF that(1)]) (simp add: quiet_def)
    with that(2) show ?thesis
      by (simp add: pic_get_mask_def inb_def imr_readback_master [OF dev] imr_readback_slave [OF dev])
  qed
  have log1: "io_log ?s1 = io_log s @ [In PIC1_DATA m, Out PIC1_DATA (m AND NOT ?b)]"
    using irq imr_readback_master [OF dev m] by (simp add: io_log_enable)
  have m1: "master_imr (m AND NOT ?b) (io_log ?s1)" unfolding log1 by (rule imr_change [OF m]) simp
  have k1: "slave_imr k (io_log ?s1)" unfolding log1 by (rule imr_is_quiet [OF k qu])
  have log2: "io_log ?s2 = io_log ?s1 @ [In PIC1_DATA (m AND NOT ?b), Out PIC1_DATA ((m AND NOT ?b) OR ?b)]"
    using irq imr_readback_master [OF dev m1] by (simp add: io_log_disable Let_def)
  have m2: "master_imr ((m AND NOT ?b) OR ?b) (io_log ?s2)"
    unfolding log2 by (rule imr_change [OF m1]) simp
  have k2: "slave_imr k (io_log ?s2)" unfolding log2 by (rule imr_is_quiet [OF k1 qu])
  have "(m AND NOT ?b) OR ?b = m"
    by (rule bit_word_eqI) (use off in \<open>auto simp: bit_simps\<close>)
  then show ?thesis using get [OF m1 k1] get [OF m2 k2] get [OF m k] by simp
qed

definition masked_ports :: ports where
  "masked_ports = \<lparr>con = initial_console, io_log = [Out PIC1_DATA 0xFB, Out PIC2_DATA 0xFF]\<rparr>"

theorem pic_enable_disable_witness:
  "fst (pic_get_mask latch_device (pic_enable_irq latch_device 1 masked_ports)) = 0xFFF9 \<and>
   fst (pic_get_mask latch_device (pic_disable_irq latch_device 1
     (pic_enable_irq latch_device 1 masked_ports))) = fst (pic_get_mask latch_device masked_ports)"
proof -
  have m: "master_imr 0xFB (io_log masked_ports)"
    unfolding imr_is_def
    by (intro exI [of _ "[]"] exI [of _ "[Out PIC2_DATA 0xFF]"])
      (simp add: masked_ports_def quiet_def pic_consts)
  have k: "slave_imr 0xFF (io_log masked_ports)"
    unfolding imr_is_def
    by (intro exI [of _ "[Out PIC1_DATA 0xFB]"] exI [of _ "[]"])
      (simp add: masked_ports_def pic_consts)
  show ?thesis
    using pic_enable_disable [OF imr_readback_latch m k, of 1] by (simp add: bit_numeral_rec)
qed

text \<open>Fact (safety): after initialization and the two drivers that enable a line, exactly the
  timer, the keyboard and the cascade are unmasked.\<close>

theorem pic_boot_mask:
  assumes dev: "imr_readback dev"
    and "icw_left PIC1_COMMAND PIC1_DATA 0 (io_log s) = 0" "icw_left PIC2_COMMAND PIC2_DATA 0 (io_log s) = 0"
  shows "fst (pic_get_mask dev (pic_enable_irq dev 1 (pic_enable_irq dev 0 (pic_init dev s)))) = 0xFFF8"
proof -
  let ?s0 = "pic_init dev s"
  note init = imr_pic_init [OF assms(2,3), of dev]
  have qu: "list_all (quiet PIC2_COMMAND PIC2_DATA) [In PIC1_DATA u, Out PIC1_DATA w]" for u w
    by (simp add: quiet_def pic_consts)
  have log1: "io_log (pic_enable_irq dev 0 ?s0) = io_log ?s0 @ [In PIC1_DATA 0xFB, Out PIC1_DATA 0xFA]"
    using imr_readback_master [OF dev init(1)] by (simp add: io_log_enable)
  have m1: "master_imr 0xFA (io_log (pic_enable_irq dev 0 ?s0))"
    unfolding log1 by (rule imr_change [OF init(1)]) simp
  have log2: "io_log (pic_enable_irq dev 1 (pic_enable_irq dev 0 ?s0)) =
      io_log (pic_enable_irq dev 0 ?s0) @ [In PIC1_DATA 0xFA, Out PIC1_DATA 0xF8]"
    using imr_readback_master [OF dev m1] by (simp add: io_log_enable)
  let ?t = "pic_enable_irq dev 1 (pic_enable_irq dev 0 ?s0)"
  have "slave_imr 0xFF (io_log ?t)"
    unfolding log2 log1 by (intro imr_is_quiet [OF _ qu] init(2))
  moreover have "master_imr 0xF8 (io_log ?t @ [In PIC2_DATA 0xFF])"
    by (intro imr_is_quiet, unfold log2, rule imr_change [OF m1]) (simp_all add: quiet_def)
  ultimately show ?thesis
    by (simp add: pic_get_mask_def inb_def imr_readback_master [OF dev] imr_readback_slave [OF dev])
qed

theorem pic_boot_mask_witness:
  "fst (pic_get_mask latch_device (pic_enable_irq latch_device 1 (pic_enable_irq latch_device 0
     (pic_init latch_device \<lparr>con = initial_console, io_log = []\<rparr>)))) = 0xFFF8"
  by (rule pic_boot_mask [OF imr_readback_latch]) simp_all

end
