(* ===== verification/Timer.thy ===== *)
theory Timer
  imports Pic
begin

text \<open>
  The programmable interval timer of \<^verbatim>\<open>src/kernel/timer.c\<close>: tick counter, frequency,
  uptime and sleeping. The interrupt handler itself is in \<open>Interrupts\<close>, because it calls the
  scheduler. \<open>None\<close> is the divide error of a zero frequency, or a sleep that never ends.
\<close>

record timer_st = ports +
  system_ticks :: u32
  timer_frequency_hz :: u32

definition PIT_CHANNEL0 :: u16 where "PIT_CHANNEL0 = 0x40"
definition PIT_COMMAND :: u16 where "PIT_COMMAND = 0x43"
definition PIT_FREQUENCY :: u32 where "PIT_FREQUENCY = 1193182"
definition PIT_SELECT_CH0 :: u8 where "PIT_SELECT_CH0 = 0"
definition PIT_ACCESS_BOTH :: u8 where "PIT_ACCESS_BOTH = push_bit 4 3"
definition PIT_MODE2 :: u8 where "PIT_MODE2 = push_bit 1 2"
definition PIT_BINARY :: u8 where "PIT_BINARY = 0"

lemmas pit_consts = PIT_CHANNEL0_def PIT_COMMAND_def PIT_FREQUENCY_def PIT_SELECT_CH0_def
  PIT_ACCESS_BOTH_def PIT_MODE2_def PIT_BINARY_def

definition pit_divisor :: "u32 \<Rightarrow> u32" where
  "pit_divisor frequency_hz =
     (let divisor = PIT_FREQUENCY div frequency_hz;
          divisor = (if divisor < 1 then 1 else divisor)
      in if divisor > 65535 then 65535 else divisor)"

definition timer_init :: "device \<Rightarrow> u32 \<Rightarrow> 'a timer_st_scheme \<Rightarrow> 'a timer_st_scheme option" where
  "timer_init dev frequency_hz s =
     (let s = kinfo ''Initializing Programmable Interval Timer (PIT)'' [] s
      in if frequency_hz = 0 then None
      else
        (let divisor = pit_divisor frequency_hz;
             s = s\<lparr>timer_frequency_hz := PIT_FREQUENCY div divisor\<rparr>;
             s = kprintk (''  Requested: %u Hz, Divisor: %u, Actual: %u Hz'' @ [CHR 0x0A])
                   [VInt frequency_hz, VInt divisor, VInt (timer_frequency_hz s)] s;
             s = outb PIT_COMMAND (PIT_SELECT_CH0 OR PIT_ACCESS_BOTH OR PIT_MODE2 OR PIT_BINARY) s;
             s = outb PIT_CHANNEL0 (ucast (divisor AND 0xFF)) s;
             s = outb PIT_CHANNEL0 (ucast (drop_bit 8 divisor AND 0xFF)) s;
             s = pic_enable_irq dev 0 s
         in Some (kprintk (''  [OK] Timer configured: %u Hz (%u.%03u ms period)'' @ [CHR 0x0A])
              [VInt (timer_frequency_hz s), VInt (1000 div timer_frequency_hz s),
               VInt ((1000000 div timer_frequency_hz s) mod 1000)] s)))"

definition timer_get_ticks :: "'a timer_st_scheme \<Rightarrow> u32" where
  "timer_get_ticks s = system_ticks s"

definition timer_get_uptime_seconds :: "'a timer_st_scheme \<Rightarrow> u32 option" where
  "timer_get_uptime_seconds s =
     (if timer_frequency_hz s = 0 then None else Some (system_ticks s div timer_frequency_hz s))"

definition timer_get_frequency :: "'a timer_st_scheme \<Rightarrow> u32" where
  "timer_get_frequency s = timer_frequency_hz s"

text \<open>
  \<^verbatim>\<open>hlt\<close> resumes after an interrupt has been handled: \<open>hlt\<close> is the effect of the
  interrupt that arrives, a parameter of the sleeping functions.
\<close>

partial_function (option) timer_sleep_loop ::
    "('a timer_st_scheme \<Rightarrow> 'a timer_st_scheme) \<Rightarrow> u32 \<Rightarrow> 'a timer_st_scheme \<Rightarrow>
     'a timer_st_scheme option" where
  "timer_sleep_loop hlt target s =
     (if system_ticks s < target then timer_sleep_loop hlt target (hlt s) else Some s)"

declare timer_sleep_loop.simps [code]

definition timer_sleep_ticks ::
    "('a timer_st_scheme \<Rightarrow> 'a timer_st_scheme) \<Rightarrow> u32 \<Rightarrow> 'a timer_st_scheme \<Rightarrow>
     'a timer_st_scheme option" where
  "timer_sleep_ticks hlt ticks s = timer_sleep_loop hlt (system_ticks s + ticks) s"

definition sleep_ticks_of_ms :: "u32 \<Rightarrow> u32 \<Rightarrow> u32" where
  "sleep_ticks_of_ms milliseconds frequency_hz =
     (let ticks = (milliseconds * frequency_hz) div 1000 in if ticks = 0 then 1 else ticks)"

definition timer_sleep_ms ::
    "('a timer_st_scheme \<Rightarrow> 'a timer_st_scheme) \<Rightarrow> u32 \<Rightarrow> 'a timer_st_scheme \<Rightarrow>
     'a timer_st_scheme option" where
  "timer_sleep_ms hlt milliseconds s =
     timer_sleep_ticks hlt (sleep_ticks_of_ms milliseconds (timer_frequency_hz s)) s"

section \<open>The divisor\<close>

lemma pit_divisor_range: "1 \<le> unat (pit_divisor f) \<and> unat (pit_divisor f) \<le> 65535"
proof -
  have "1 \<le> pit_divisor f \<and> pit_divisor f \<le> 65535"
    by (auto simp: pit_divisor_def Let_def not_less word_one_le)
  then show ?thesis by (simp add: word_le_nat_alt)
qed

lemma pit_divisor_exact:
  assumes "19 \<le> unat f" "unat f \<le> 1193182"
  shows "unat (pit_divisor f) = 1193182 div unat f"
proof -
  have d: "unat (PIT_FREQUENCY div f) = 1193182 div unat f"
    by (simp add: PIT_FREQUENCY_def unat_div)
  have "1193182 div unat f \<le> 1193182 div 19" using assms by (intro div_le_mono2) simp_all
  moreover have "0 < 1193182 div unat f" using assms by (simp add: div_greater_zero_iff)
  ultimately show ?thesis
    using d by (auto simp: pit_divisor_def Let_def word_less_nat_alt unat_eq_zero)
qed

lemma low_high_bytes:
  assumes "unat d \<le> 65535"
  shows "unat (ucast ((d :: u32) AND 0xFF) :: u8) + 256 * unat (ucast (drop_bit 8 d AND 0xFF) :: u8) =
    unat d"
proof -
  have "unat d div 256 < 256" using assms by (simp add: less_mult_imp_div_less)
  then show ?thesis by (simp add: unat_low_byte unat_drop_bit32)
qed

lemma timer_init_effect:
  assumes "f \<noteq> 0" and "timer_init dev f s = Some t"
  shows "timer_frequency_hz t = PIT_FREQUENCY div pit_divisor f"
    and "sent_to {PIT_COMMAND, PIT_CHANNEL0} (io_log t) = sent_to {PIT_COMMAND, PIT_CHANNEL0} (io_log s) @
      [(PIT_COMMAND, 0x34), (PIT_CHANNEL0, ucast (pit_divisor f AND 0xFF)),
       (PIT_CHANNEL0, ucast (drop_bit 8 (pit_divisor f) AND 0xFF))]"
    and "system_ticks t = system_ticks s"
  using assms
  by (auto simp: timer_init_def Let_def kout_defs outb_def inb_def pic_enable_irq_def pic_consts pit_consts)

text \<open>Sleeping when every \<^verbatim>\<open>hlt\<close> is ended by one timer tick.\<close>

lemma timer_sleep_loop_ticks:
  assumes hlt: "\<And>s. system_ticks (hlt s) = system_ticks s + 1"
  shows "unat target = unat (system_ticks s) + n \<Longrightarrow> timer_sleep_loop hlt target s = Some ((hlt ^^ n) s)"
proof (induction n arbitrary: s)
  case 0
  then show ?case by (subst timer_sleep_loop.simps) (simp add: word_less_nat_alt)
next
  case (Suc n)
  have "unat (system_ticks s) + 1 < 2 ^ 32" using Suc.prems unat_lt32 [of target] by simp
  then have "unat (system_ticks (hlt s)) = unat (system_ticks s) + 1"
    by (simp add: hlt unat_plus_no_wrap)
  with Suc.prems have "timer_sleep_loop hlt target (hlt s) = Some ((hlt ^^ n) (hlt s))"
    by (intro Suc.IH) simp
  moreover have "system_ticks s < target" using Suc.prems by (simp add: word_less_nat_alt)
  ultimately show ?case
    by (subst timer_sleep_loop.simps) (simp add: funpow_swap1)
qed

section \<open>Properties\<close>

text \<open>C40 (bounds): for every non-zero frequency the timer is programmed with a divisor from 1 to
  65535, sent low byte first, in mode 2 with both bytes; the recorded frequency is the
  quotient, never zero.\<close>

theorem timer_init_programs_divisor:
  assumes "f \<noteq> 0"
  shows "\<exists>t lo hi. timer_init dev f s = Some t \<and>
    sent_to {PIT_COMMAND, PIT_CHANNEL0} (io_log t) = sent_to {PIT_COMMAND, PIT_CHANNEL0} (io_log s) @
      [(PIT_COMMAND, 0x34), (PIT_CHANNEL0, lo), (PIT_CHANNEL0, hi)] \<and>
    1 \<le> unat lo + 256 * unat hi \<and>
    timer_frequency_hz t = PIT_FREQUENCY div of_nat (unat lo + 256 * unat hi) \<and>
    timer_frequency_hz t \<noteq> 0"
proof -
  let ?d = "pit_divisor f"
  let ?lo = "ucast (?d AND 0xFF) :: u8" and ?hi = "ucast (drop_bit 8 ?d AND 0xFF) :: u8"
  obtain t where t: "timer_init dev f s = Some t" using assms by (simp add: timer_init_def Let_def)
  have range: "1 \<le> unat ?d" "unat ?d \<le> 65535" using pit_divisor_range [of f] by simp_all
  have d: "unat ?lo + 256 * unat ?hi = unat ?d" by (rule low_high_bytes [OF range(2)])
  have "0 < PIT_FREQUENCY div ?d"
    using range by (simp add: PIT_FREQUENCY_def word_less_nat_alt unat_div div_greater_zero_iff)
  with range(1) timer_init_effect [OF assms t] t show ?thesis
    by (intro exI [of _ t] exI [of _ ?lo] exI [of _ ?hi]) (simp add: d word_gt_0)
qed

definition idle_timer :: timer_st where
  "idle_timer = \<lparr>con = initial_console, io_log = [], system_ticks = 0, timer_frequency_hz = 0\<rparr>"

theorem timer_init_programs_divisor_witness:
  "\<exists>t lo hi. timer_init latch_device 100 idle_timer = Some t \<and>
    sent_to {PIT_COMMAND, PIT_CHANNEL0} (io_log t) =
      [(PIT_COMMAND, 0x34), (PIT_CHANNEL0, lo), (PIT_CHANNEL0, hi)] \<and>
    1 \<le> unat lo + 256 * unat hi \<and>
    timer_frequency_hz t = PIT_FREQUENCY div of_nat (unat lo + 256 * unat hi) \<and>
    timer_frequency_hz t \<noteq> 0"
  using timer_init_programs_divisor [of 100 latch_device idle_timer] by (simp add: idle_timer_def)

text \<open>Fact (liveness): where each \<^verbatim>\<open>hlt\<close> is ended by one tick, a sleep returns after exactly
  the requested number of them, unless the deadline wraps around the 32-bit counter: then
  it returns at once.\<close>

theorem timer_sleep_returns:
  assumes hlt: "\<And>s. system_ticks (hlt s) = system_ticks s + 1"
  shows "timer_sleep_ticks hlt ticks s =
    Some (if unat (system_ticks s) + unat ticks < 2 ^ 32 then (hlt ^^ unat ticks) s else s)"
proof (cases "unat (system_ticks s) + unat ticks < 2 ^ 32")
  case True
  then show ?thesis
    unfolding timer_sleep_ticks_def
    using timer_sleep_loop_ticks [OF hlt, where n = "unat ticks"] by (simp add: unat_plus_no_wrap)
next
  case False
  then have "\<not> system_ticks s < system_ticks s + ticks"
    using unat_lt32 [of ticks] unat_lt32 [of "system_ticks s"]
    by (auto simp: word_less_nat_alt unat_word_ariths mod_if)
  with False show ?thesis
    unfolding timer_sleep_ticks_def by (subst timer_sleep_loop.simps) simp
qed

theorem timer_sleep_returns_witness:
  "timer_sleep_ticks (\<lambda>s. s\<lparr>system_ticks := system_ticks s + 1\<rparr>) 2 idle_timer =
     Some (idle_timer\<lparr>system_ticks := 2\<rparr>) \<and>
   timer_sleep_ticks (\<lambda>s. s\<lparr>system_ticks := system_ticks s + 1\<rparr>) 2 (idle_timer\<lparr>system_ticks := 0xFFFFFFFE\<rparr>) =
     Some (idle_timer\<lparr>system_ticks := 0xFFFFFFFE\<rparr>)"
proof -
  let ?tick = "\<lambda>s :: timer_st. s\<lparr>system_ticks := system_ticks s + 1\<rparr>"
  have "unat (0xFFFFFFFE :: u32) = 0xFFFFFFFE" by simp
  moreover have "(?tick ^^ 2) idle_timer = idle_timer\<lparr>system_ticks := 2\<rparr>"
    by (simp add: idle_timer_def numeral_2_eq_2)
  ultimately show ?thesis
    using timer_sleep_returns [of ?tick 2 idle_timer]
      timer_sleep_returns [of ?tick 2 "idle_timer\<lparr>system_ticks := 0xFFFFFFFE\<rparr>"]
    by (simp add: idle_timer_def)
qed

end
