(* ===== verification/Heap_Layout.thy ===== *)
theory Heap_Layout
  imports Memory
begin

text \<open>
  The kernel heap, specified: the block list as a list of sizes and free flags, what a
  first-fit allocation and a release do to it, the invariant that the bytes of memory
  represent such a list, and what the steps of the allocator (search, split, merge)
  do to a represented list.
\<close>

section \<open>The abstract heap\<close>

type_synonym blocks = "(nat \<times> bool) list"

fun blen :: "blocks \<Rightarrow> nat" where
  "blen [] = 0"
| "blen ((n, f) # bs) = 16 + n + blen bs"

text \<open>An allocation of \<open>n\<close> bytes in a free block of \<open>k\<close>: the rest becomes a free block where
  it has room for a header and at least one byte more.\<close>

definition carve :: "nat \<Rightarrow> nat \<Rightarrow> blocks" where
  "carve n k = (if n + 16 < k then [(n, False), (k - n - 16, True)] else [(k, False)])"

fun first_fit :: "nat \<Rightarrow> blocks \<Rightarrow> (nat \<times> blocks) option" where
  "first_fit n [] = None"
| "first_fit n ((k, f) # bs) =
     (if f \<and> n \<le> k then Some (0, carve n k @ bs)
      else map_option (\<lambda>(off, bs'). (16 + k + off, (k, f) # bs')) (first_fit n bs))"

text \<open>The release of a block of \<open>n\<close> bytes between \<open>xs\<close> and \<open>ys\<close>, merged with free neighbours.\<close>

fun absorb_next :: "nat \<Rightarrow> blocks \<Rightarrow> blocks" where
  "absorb_next n ((k, True) # ys) = (n + 16 + k, True) # ys"
| "absorb_next n ys = (n, True) # ys"

definition release :: "blocks \<Rightarrow> nat \<Rightarrow> blocks \<Rightarrow> blocks" where
  "release xs n ys =
     (let zs = absorb_next n ys
      in if xs \<noteq> [] \<and> snd (last xs)
         then butlast xs @ (fst (last xs) + 16 + fst (hd zs), True) # tl zs
         else xs @ zs)"

text \<open>No two neighbouring blocks are free.\<close>

fun coalesced :: "blocks \<Rightarrow> bool" where
  "coalesced (x # y # bs) = (\<not> (snd x \<and> snd y) \<and> coalesced (y # bs))"
| "coalesced _ = True"

definition aligned_blocks :: "blocks \<Rightarrow> bool" where
  "aligned_blocks bs \<longleftrightarrow> (\<forall>(n, f) \<in> set bs. 4 dvd n)"

definition free_bytes :: "blocks \<Rightarrow> nat" where
  "free_bytes bs = sum_list (map fst (filter snd bs))"

definition used_bytes :: "blocks \<Rightarrow> nat" where
  "used_bytes bs = sum_list (map fst (filter (\<lambda>b. \<not> snd b) bs))"

lemma blen_append [simp]: "blen (xs @ ys) = blen xs + blen ys"
  by (induction xs) auto

lemma blen_eq_0 [simp]: "blen bs = 0 \<longleftrightarrow> bs = []"
  by (cases bs) auto

lemma first_fit_None_iff: "first_fit n bs = None \<longleftrightarrow> (\<forall>(k, f) \<in> set bs. \<not> (f \<and> n \<le> k))"
  by (induction n bs rule: first_fit.induct) auto

lemma first_fit_Some:
  "first_fit n bs = Some (off, bs') \<Longrightarrow>
     \<exists>xs k ys. bs = xs @ (k, True) # ys \<and> n \<le> k \<and> off = blen xs \<and> bs' = xs @ carve n k @ ys \<and>
       (\<forall>(k, f) \<in> set xs. \<not> (f \<and> n \<le> k))"
proof (induction n bs arbitrary: off bs' rule: first_fit.induct)
  case (1 n)
  then show ?case by simp
next
  case (2 n k f bs)
  show ?case
  proof (cases "f \<and> n \<le> k")
    case True
    with "2.prems" show ?thesis by (intro exI [of _ "[]"] exI [of _ k] exI [of _ bs]) auto
  next
    case False
    with "2.prems" obtain off1 bs1 where r: "first_fit n bs = Some (off1, bs1)"
      "off = 16 + k + off1" "bs' = (k, f) # bs1" by auto
    from "2.IH" [OF False r(1)] obtain xs k' ys where "bs = xs @ (k', True) # ys" "n \<le> k'"
      "off1 = blen xs" "bs1 = xs @ carve n k' @ ys" "\<forall>(k, f) \<in> set xs. \<not> (f \<and> n \<le> k)"
      by blast
    with False r(2,3) show ?thesis
      by (intro exI [of _ "(k, f) # xs"] exI [of _ k'] exI [of _ ys]) auto
  qed
qed

section \<open>The representation in memory\<close>

text \<open>Word accesses at natural addresses, so that layout questions are linear arithmetic.\<close>

definition rd :: "bytemem \<Rightarrow> nat \<Rightarrow> nat" where
  "rd m x = unat (read32 m (of_nat x))"

definition wr :: "bytemem \<Rightarrow> nat \<Rightarrow> nat \<Rightarrow> bytemem" where
  "wr m x v = write32 m (of_nat x) (of_nat v)"

lemma rd_wr_same [simp]: "v < 2 ^ 32 \<Longrightarrow> rd (wr m x v) x = v"
  by (simp add: rd_def wr_def)

lemma rd_wr_other:
  assumes "x + 4 \<le> y \<or> y + 4 \<le> x" "x + 4 \<le> 2 ^ 32" "y + 4 \<le> 2 ^ 32"
  shows "rd (wr m x v) y = rd m y"
proof -
  have "apart 4 (of_nat x) 4 (of_nat y)"
    using assms by (simp add: apart_def)
  then show ?thesis by (simp add: rd_def wr_def)
qed

text \<open>The header at address \<open>a\<close>: size, flag, next and previous block.\<close>

definition hdr :: "bytemem \<Rightarrow> nat \<Rightarrow> nat \<Rightarrow> bool \<Rightarrow> nat \<Rightarrow> nat \<Rightarrow> bool" where
  "hdr m a n f t p \<longleftrightarrow> rd m a = n \<and> rd m (a + 4) = of_bool f \<and> rd m (a + 8) = t \<and> rd m (a + 12) = p"

text \<open>
  A segment of the block list: blocks that tile memory from address \<open>a\<close> on, linked both
  ways, the first after the block at \<open>p\<close>; with \<open>e\<close>, the last one ends the list.
\<close>

fun hseg :: "bytemem \<Rightarrow> nat \<Rightarrow> nat \<Rightarrow> blocks \<Rightarrow> bool \<Rightarrow> bool" where
  "hseg m p a [] e = True"
| "hseg m p a ((n, f) # bs) e =
     (hdr m a n f (if bs = [] \<and> e then 0 else a + 16 + n) p \<and> hseg m a (a + 16 + n) bs e)"

text \<open>The address of the last block of a segment, or what precedes an empty one.\<close>

fun last_addr :: "nat \<Rightarrow> nat \<Rightarrow> blocks \<Rightarrow> nat" where
  "last_addr p a [] = p"
| "last_addr p a ((n, f) # bs) = last_addr a (a + 16 + n) bs"

definition heap_rep :: "'a memory_st_scheme \<Rightarrow> blocks \<Rightarrow> bool" where
  "heap_rep s bs \<longleftrightarrow> heap_initialized s \<and> bs \<noteq> [] \<and> 0 < unat (heap_start s) \<and>
     blen bs = unat (total_heap_size s) \<and> unat (heap_start s) + blen bs < 2 ^ 32 \<and>
     hseg (mem s) 0 (unat (heap_start s)) bs True \<and>
     heap_end s = of_nat (last_addr 0 (unat (heap_start s)) bs)"

lemma hseg_append:
  "hseg m p a (xs @ ys) e \<longleftrightarrow>
     hseg m p a xs (e \<and> ys = []) \<and> hseg m (last_addr p a xs) (a + blen xs) ys e"
  by (induction m p a xs e rule: hseg.induct) (auto simp: add.assoc)

lemma last_addr_append:
  "last_addr p a (xs @ ys) = last_addr (last_addr p a xs) (a + blen xs) ys"
  by (induction p a xs rule: last_addr.induct) (auto simp: add.assoc)

lemma last_addr_Cons: "last_addr p a ((n, f) # bs) = last_addr a (a + 16 + n) bs"
  by simp

lemma last_addr_snoc: "last_addr p a (xs @ [(n, f)]) = a + blen xs"
  by (simp add: last_addr_append)

lemma last_addr_indep: "bs \<noteq> [] \<Longrightarrow> last_addr p a bs = last_addr q a bs"
  by (cases bs) auto

text \<open>Segments only depend on the words of their headers.\<close>

lemma hseg_cong:
  assumes "\<And>x. a \<le> x \<Longrightarrow> x + 4 \<le> a + blen bs \<Longrightarrow> rd m x = rd m' x"
  shows "hseg m p a bs e = hseg m' p a bs e"
  using assms
proof (induction m p a bs e rule: hseg.induct)
  case (2 m p a n f bs e)
  have "hdr m a n f t p = hdr m' a n f t p" for t
    using "2.prems" [of a] "2.prems" [of "a + 4"] "2.prems" [of "a + 8"] "2.prems" [of "a + 12"]
    by (simp add: hdr_def)
  moreover have "hseg m a (a + 16 + n) bs e = hseg m' a (a + 16 + n) bs e"
    by (rule "2.IH") (simp add: "2.prems")
  ultimately show ?case by simp
qed simp

lemma hseg_wr_outside:
  assumes "x + 4 \<le> a \<or> a + blen bs \<le> x" "x + 4 \<le> 2 ^ 32" "a + blen bs \<le> 2 ^ 32"
  shows "hseg (wr m x v) p a bs e = hseg m p a bs e"
  by (rule hseg_cong) (use assms in \<open>auto intro: rd_wr_other\<close>)

text \<open>Relinking the first block of a segment to another predecessor.\<close>

lemma hseg_relink:
  assumes "hseg m p a bs e" "bs \<noteq> []" "a + blen bs \<le> 2 ^ 32" "q < 2 ^ 32"
  shows "hseg (wr m (a + 12) q) q a bs e"
proof -
  obtain n f bs' where bs: "bs = (n, f) # bs'" using assms(2) by (cases bs) auto
  have "hdr (wr m (a + 12) q) a n f t q" if "hdr m a n f t p" for t
    using that assms(3,4) by (simp add: hdr_def bs rd_wr_other)
  moreover have "hseg (wr m (a + 12) q) a (a + 16 + n) bs' e = hseg m a (a + 16 + n) bs' e"
    by (rule hseg_wr_outside) (use assms(3) bs in auto)
  ultimately show ?thesis using assms(1) by (simp add: bs)
qed

section \<open>The code's accesses at natural addresses\<close>

lemma block_at_nat [simp]:
  "blk_size (block_at s (of_nat a)) = of_nat (rd (mem s) a)"
  "blk_is_free (block_at s (of_nat a)) = of_nat (rd (mem s) (a + 4))"
  "blk_next (block_at s (of_nat a)) = of_nat (rd (mem s) (a + 8))"
  "blk_prev (block_at s (of_nat a)) = of_nat (rd (mem s) (a + 12))"
  by (simp_all add: block_at_def read_block_def rd_def)

lemma set_nat [simp]:
  "set_size (of_nat a) (of_nat v) s = s\<lparr>mem := wr (mem s) a v\<rparr>"
  "set_is_free (of_nat a) (of_nat v) s = s\<lparr>mem := wr (mem s) (a + 4) v\<rparr>"
  "set_next (of_nat a) (of_nat v) s = s\<lparr>mem := wr (mem s) (a + 8) v\<rparr>"
  "set_prev (of_nat a) (of_nat v) s = s\<lparr>mem := wr (mem s) (a + 12) v\<rparr>"
  by (simp_all add: set_size_def set_is_free_def set_next_def set_prev_def wr_def)

lemma set_nat_01 [simp]:
  "set_is_free (of_nat a) 0 s = s\<lparr>mem := wr (mem s) (a + 4) 0\<rparr>"
  "set_is_free (of_nat a) 1 s = s\<lparr>mem := wr (mem s) (a + 4) 1\<rparr>"
  "set_next (of_nat a) 0 s = s\<lparr>mem := wr (mem s) (a + 8) 0\<rparr>"
  "set_prev (of_nat a) 0 s = s\<lparr>mem := wr (mem s) (a + 12) 0\<rparr>"
  using set_nat(2) [of a 0 s] set_nat(2) [of a 1 s] set_nat(3) [of a 0 s] set_nat(4) [of a 0 s]
  by simp_all

lemma rd_less [simp]: "rd m x < 4294967296"
  using unat_lt32 [of "read32 m (of_nat x)"] by (simp add: rd_def)

section \<open>The search\<close>

lemma find_free_step:
  assumes "hseg (mem s) p a ((k, f) # bs) True" "0 < a" "a + blen ((k, f) # bs) < 2 ^ 32" "n < 2 ^ 32"
  shows "find_free_loop (of_nat n) (of_nat a) s =
    (if f \<and> n \<le> k then Some (of_nat a)
     else find_free_loop (of_nat n) (if bs = [] then 0 else of_nat (a + 16 + k)) s)"
proof -
  have "(of_nat a :: u32) \<noteq> 0" using assms by (simp add: of_nat32_eq_0_iff)
  moreover have "(of_nat n :: u32) \<le> of_nat k \<longleftrightarrow> n \<le> k" using assms by (simp add: of_nat32_le_iff)
  ultimately show ?thesis
    using assms(1) by (subst find_free_loop.simps) (auto simp: hdr_def)
qed

lemma find_free_fit:
  assumes "hseg (mem s) p a (xs @ (k, True) # ys) True" "0 < a"
    "a + blen (xs @ (k, True) # ys) < 2 ^ 32" "n \<le> k" "\<forall>(k, f) \<in> set xs. \<not> (f \<and> n \<le> k)"
  shows "find_free_loop (of_nat n) (of_nat a) s = Some (of_nat (a + blen xs))"
  using assms
proof (induction xs arbitrary: p a)
  case Nil
  then show ?case using find_free_step [of s p a k True ys n] by simp
next
  case (Cons x xs)
  obtain l f where x: "x = (l, f)" by (cases x)
  have "find_free_loop (of_nat n) (of_nat (a + 16 + l)) s = Some (of_nat (a + 16 + l + blen xs))"
    by (rule Cons.IH [of a]) (use Cons.prems x in auto)
  moreover have "find_free_loop (of_nat n) (of_nat a) s = find_free_loop (of_nat n) (of_nat (a + 16 + l)) s"
  proof (rule trans [OF find_free_step])
    show "hseg (mem s) p a ((l, f) # xs @ (k, True) # ys) True" using Cons.prems(1) x by simp
    show "a + blen ((l, f) # xs @ (k, True) # ys) < 2 ^ 32" "0 < a" "n < 2 ^ 32"
      using Cons.prems x by simp_all
    have "\<not> (f \<and> n \<le> l)" using Cons.prems(5) x by simp
    then show "(if f \<and> n \<le> l then Some (of_nat a) else find_free_loop (of_nat n)
        (if xs @ (k, True) # ys = [] then 0 else of_nat (a + 16 + l)) s) =
      find_free_loop (of_nat n) (of_nat (a + 16 + l)) s" by (auto simp del: of_nat_add)
  qed
  ultimately show ?case by (simp add: x add.assoc)
qed

lemma find_free_none:
  assumes "hseg (mem s) p a bs True" "0 < a" "a + blen bs < 2 ^ 32" "n < 2 ^ 32" "bs \<noteq> []"
    "\<forall>(k, f) \<in> set bs. \<not> (f \<and> n \<le> k)"
  shows "find_free_loop (of_nat n) (of_nat a) s = Some 0"
  using assms
proof (induction bs arbitrary: p a)
  case Nil
  then show ?case by simp
next
  case (Cons x bs)
  obtain l f where x: "x = (l, f)" by (cases x)
  have "find_free_loop (of_nat n) 0 s = Some 0" by (subst find_free_loop.simps) simp
  moreover have "find_free_loop (of_nat n) (of_nat (a + 16 + l)) s = Some 0" if "bs \<noteq> []"
    by (rule Cons.IH [of a]) (use Cons.prems x that in auto)
  ultimately show ?case
    using find_free_step [of s p a l f bs n] Cons.prems x by auto
qed

section \<open>Carving a block\<close>

definition carve_mem :: "bytemem \<Rightarrow> nat \<Rightarrow> nat \<Rightarrow> nat \<Rightarrow> nat \<Rightarrow> bytemem" where
  "carve_mem m a n k t =
     (let b = a + 16 + n;
          m = wr (wr (wr (wr m b (k - n - 16)) (b + 4) 1) (b + 8) t) (b + 12) a;
          m = (if t = 0 then m else wr m (t + 12) b)
      in wr (wr m (a + 8) b) a n)"

lemma split_block_carve:
  assumes "rd (mem s) a = k" "rd (mem s) (a + 8) = t" "a + 16 + k < 2 ^ 32" "n + 16 < k"
    and t: "t = 0 \<or> a + 16 + k \<le> t \<and> t + 16 \<le> 2 ^ 32"
  shows "split_block (of_nat a) (of_nat n) s =
    s\<lparr>mem := carve_mem (mem s) a n k t,
      heap_end := (if t = 0 then of_nat (a + 16 + n) else heap_end s)\<rparr>"
proof -
  define b where "b = a + 16 + n"
  have b: "of_nat a + 16 + of_nat n = (of_nat b :: u32)" by (simp add: b_def)
  have bounds: "a + 16 \<le> b" "b + 16 < a + 16 + k" "b < 2 ^ 32"
    using assms(3,4) by (simp_all add: b_def)
  have big: "\<not> (of_nat k :: u32) \<le> of_nat n + 16"
  proof -
    have "(of_nat n + 16 :: u32) = of_nat (n + 16)" by simp
    moreover have "k < 2 ^ 32" "n + 16 < 2 ^ 32" using assms by simp_all
    ultimately show ?thesis using assms(4) by (simp only: of_nat32_le_iff not_le)
  qed
  have rest: "(of_nat k - of_nat n - 16 :: u32) = of_nat (k - n - 16)"
    using assms(4) by simp
  have t0: "(of_nat t :: u32) = 0 \<longleftrightarrow> t = 0" using t by (auto simp: of_nat32_eq_0_iff)
  show ?thesis
    using bounds assms(1-3)
    unfolding split_block_def SIZEOF_BLOCK_def b
    by (simp add: big rest t0 carve_mem_def Let_def rd_wr_other flip: b_def
        del: of_nat_add of_nat_diff One_nat_def)
qed

lemma hseg_carve:
  assumes seg: "hseg m p st (xs @ (k, True) # ys) True"
    and bound: "st + blen (xs @ (k, True) # ys) < 2 ^ 32" and n: "n + 16 < k"
    and a: "a = st + blen xs" and t: "t = (if ys = [] then 0 else a + 16 + k)"
  shows "hseg (wr (carve_mem m a n k t) (a + 4) 0) p st (xs @ [(n, False), (k - n - 16, True)] @ ys) True"
proof -
  define b where "b = a + 16 + n"
  define m4 where "m4 = wr (wr (wr (wr m b (k - n - 16)) (b + 4) 1) (b + 8) t) (b + 12) a"
  define m5 where "m5 = (if t = 0 then m4 else wr m4 (t + 12) b)"
  let ?m8 = "wr (wr (wr m5 (a + 8) b) a n) (a + 4) 0"
  have m8: "wr (carve_mem m a n k t) (a + 4) 0 = ?m8"
    by (simp add: carve_mem_def Let_def m5_def m4_def b_def)
  have ab: "a + 16 \<le> b" "b + 16 < a + 16 + k" "b + 16 + (k - n - 16) = a + 16 + k"
    using n by (simp_all add: b_def)
  have hi: "a + 16 + k + blen ys < 2 ^ 32" using bound a by simp
  have parts: "hseg m p st xs False" "hdr m a k True t (last_addr p st xs)"
    "hseg m a (a + 16 + k) ys True"
    using seg by (auto simp: hseg_append a t)
  have tt: "t = 0 \<or> a + 16 + k \<le> t \<and> t + 16 \<le> 2 ^ 32"
    using hi t by (cases ys) auto
  have xs: "hseg ?m8 p st xs False"
    using parts(1) ab hi tt a unfolding m5_def m4_def by (auto simp: hseg_wr_outside)
  have hdr_a: "hdr ?m8 a n False b (last_addr p st xs)"
    using parts(2) ab hi tt unfolding m5_def m4_def by (auto simp: hdr_def rd_wr_other)
  have hdr_b: "hdr ?m8 b (k - n - 16) True t a"
    using parts(2) ab hi tt unfolding m5_def m4_def by (auto simp: hdr_def rd_wr_other)
  have ys: "hseg ?m8 b (a + 16 + k) ys True"
  proof (cases ys)
    case Nil
    then show ?thesis by simp
  next
    case (Cons y ys')
    then have t': "t = a + 16 + k" using t by simp
    have "hseg m4 a (a + 16 + k) ys True"
      using parts(3) ab hi unfolding m4_def by (simp add: hseg_wr_outside)
    then have "hseg m5 b (a + 16 + k) ys True"
      using hseg_relink [of m4 a "a + 16 + k" ys True b] Cons hi ab t' by (simp add: m5_def)
    then show ?thesis using ab hi by (simp add: hseg_wr_outside)
  qed
  have "hseg ?m8 a b ((k - n - 16, True) # ys) True"
    using hdr_b ys unfolding hseg.simps ab(3) by (simp add: t)
  then have "hseg ?m8 (last_addr p st xs) a ((n, False) # (k - n - 16, True) # ys) True"
    using hdr_a by (simp add: b_def)
  then show ?thesis
    using xs unfolding m8 by (simp add: hseg_append a)
qed

lemma hseg_claim:
  assumes seg: "hseg m p st (xs @ (k, f) # ys) True"
    and bound: "st + blen (xs @ (k, f) # ys) < 2 ^ 32" and a: "a = st + blen xs"
  shows "hseg (wr m (a + 4) (of_bool g)) p st (xs @ (k, g) # ys) True"
proof -
  have parts: "hseg m p st xs False"
    "hdr m a k f (if ys = [] then 0 else a + 16 + k) (last_addr p st xs)"
    "hseg m a (a + 16 + k) ys True"
    using seg by (auto simp: hseg_append a)
  have "hseg (wr m (a + 4) (of_bool g)) p st xs False"
    "hseg (wr m (a + 4) (of_bool g)) a (a + 16 + k) ys True"
    using parts(1,3) bound a by (simp_all add: hseg_wr_outside)
  moreover have "hdr (wr m (a + 4) (of_bool g)) a k g (if ys = [] then 0 else a + 16 + k)
      (last_addr p st xs)"
    using parts(2) bound a by (auto simp: hdr_def rd_wr_other)
  ultimately show ?thesis by (cases "ys = []") (simp_all add: hseg_append a)
qed

section \<open>Joining two neighbours\<close>

definition join_mem :: "bytemem \<Rightarrow> nat \<Rightarrow> nat \<Rightarrow> nat \<Rightarrow> nat \<Rightarrow> bytemem" where
  "join_mem m a n k c =
     (let m = wr m a (n + (16 + k));
          m = (if c = 0 then m else wr m (c + 12) a)
      in wr m (a + 8) c)"

lemma hseg_join:
  assumes seg: "hseg m p st (xs @ (n, g) # (k, f) # ys) True"
    and bound: "st + blen (xs @ (n, g) # (k, f) # ys) < 2 ^ 32"
    and a: "a = st + blen xs" and c: "c = (if ys = [] then 0 else a + 16 + n + 16 + k)"
  shows "hseg (join_mem m a n k c) p st (xs @ (n + 16 + k, g) # ys) True"
proof -
  define m1 where "m1 = wr m a (n + (16 + k))"
  define m2 where "m2 = (if c = 0 then m1 else wr m1 (c + 12) a)"
  let ?m = "wr m2 (a + 8) c"
  have hi: "a + 16 + n + 16 + k + blen ys < 2 ^ 32" using bound a by simp
  have parts: "hseg m p st xs False" "hdr m a n g (a + 16 + n) (last_addr p st xs)"
    "hseg m (a + 16 + n) (a + 16 + n + 16 + k) ys True"
    using seg by (auto simp: hseg_append a)
  have cc: "c = 0 \<or> a + 16 + n + 16 + k \<le> c \<and> c + 16 \<le> 2 ^ 32"
    using hi c by (cases ys) auto
  have xs: "hseg ?m p st xs False"
    using parts(1) hi cc a unfolding m2_def m1_def by (auto simp: hseg_wr_outside)
  have hdr_a: "hdr ?m a (n + 16 + k) g c (last_addr p st xs)"
    using parts(2) hi cc unfolding m2_def m1_def by (auto simp: hdr_def rd_wr_other)
  have ys: "hseg ?m a (a + 16 + n + 16 + k) ys True"
  proof (cases ys)
    case Nil
    then show ?thesis by simp
  next
    case (Cons y ys')
    then have c': "c = a + 16 + n + 16 + k" using c by simp
    have "hseg m1 (a + 16 + n) (a + 16 + n + 16 + k) ys True"
      using parts(3) hi unfolding m1_def by (simp add: hseg_wr_outside)
    then have "hseg m2 a (a + 16 + n + 16 + k) ys True"
      using hseg_relink [of m1 "a + 16 + n" "a + 16 + n + 16 + k" ys True a] Cons hi c'
      by (simp add: m2_def)
    then show ?thesis using hi by (simp add: hseg_wr_outside)
  qed
  have "join_mem m a n k c = ?m" by (simp add: join_mem_def Let_def m2_def m1_def)
  moreover have "hseg ?m (last_addr p st xs) a ((n + 16 + k, g) # ys) True"
  proof -
    have "a + 16 + (n + 16 + k) = a + 16 + n + 16 + k" by simp
    then show ?thesis using hdr_a ys unfolding hseg.simps by (simp only: c simp_thms)
  qed
  ultimately show ?thesis using xs by (simp add: hseg_append a)
qed

text \<open>The two merges of the code are this join, when the neighbour is free.\<close>

lemma merge_next_join:
  assumes "rd (mem s) a = n" "rd (mem s) (a + 8) = b" "rd (mem s) (b + 4) = of_bool f"
    "rd (mem s) b = k" "rd (mem s) (b + 8) = c"
    "b = a + 16 + n" "b + 16 + k < 2 ^ 32" "c = 0 \<or> b + 16 + k \<le> c \<and> c + 16 \<le> 2 ^ 32"
  shows "merge_next (of_nat a) s =
    (if f then s\<lparr>mem := join_mem (mem s) a n k c,
                 heap_end := (if c = 0 then of_nat a else heap_end s)\<rparr> else s)"
proof -
  have c0: "(of_nat c :: u32) = 0 \<longleftrightarrow> c = 0" "(of_nat b :: u32) \<noteq> 0"
    using assms(6,7,8) by (auto simp: of_nat32_eq_0_iff simp del: of_nat_add)
  have sz: "of_nat n + (16 + of_nat k) = (of_nat (n + (16 + k)) :: u32)" by simp
  have bounds: "a + 16 \<le> b" "b + 16 < 2 ^ 32" using assms(6,7) by simp_all
  show ?thesis
  proof (cases "c = 0")
    case True
    then have z: "rd (mem s) (b + 8) = 0" using assms(5) by simp
    show ?thesis
      using bounds unfolding merge_next_def SIZEOF_BLOCK_def
      by (simp add: assms(1-4) z True c0 sz join_mem_def Let_def rd_wr_other
          del: of_nat_add of_nat_mult One_nat_def)
  next
    case False
    then have "b + 16 + k \<le> c" "c + 16 \<le> 2 ^ 32" using assms(8) by simp_all
    with bounds False show ?thesis
      unfolding merge_next_def SIZEOF_BLOCK_def
      by (simp add: assms(1-5) c0 sz join_mem_def Let_def rd_wr_other
          del: of_nat_add of_nat_mult One_nat_def)
  qed
qed

lemma merge_prev_join:
  assumes "rd (mem s) a = n" "rd (mem s) (b + 12) = a" "rd (mem s) (a + 4) = of_bool f"
    "rd (mem s) b = k" "rd (mem s) (b + 8) = c"
    "b = a + 16 + n" "0 < a" "b + 16 + k < 2 ^ 32" "c = 0 \<or> b + 16 + k \<le> c \<and> c + 16 \<le> 2 ^ 32"
  shows "merge_prev (of_nat b) s =
    (if f then s\<lparr>mem := join_mem (mem s) a n k c,
                 heap_end := (if c = 0 then of_nat a else heap_end s)\<rparr> else s)"
proof -
  have c0: "(of_nat c :: u32) = 0 \<longleftrightarrow> c = 0" "(of_nat a :: u32) \<noteq> 0"
    using assms(6-9) by (auto simp: of_nat32_eq_0_iff simp del: of_nat_add)
  have sz: "of_nat n + (16 + of_nat k) = (of_nat (n + (16 + k)) :: u32)" by simp
  have bounds: "a + 16 \<le> b" "b + 16 < 2 ^ 32" using assms(6,8) by simp_all
  show ?thesis
  proof (cases "c = 0")
    case True
    then have z: "rd (mem s) (b + 8) = 0" using assms(5) by simp
    show ?thesis
      using bounds unfolding merge_prev_def SIZEOF_BLOCK_def
      by (simp add: assms(1-4) z True c0 sz join_mem_def Let_def rd_wr_other
          del: of_nat_add of_nat_mult One_nat_def)
  next
    case False
    then have "b + 16 + k \<le> c" "c + 16 \<le> 2 ^ 32" using assms(9) by simp_all
    with bounds False show ?thesis
      unfolding merge_prev_def SIZEOF_BLOCK_def
      by (simp add: assms(1-5) c0 sz join_mem_def Let_def rd_wr_other
          del: of_nat_add of_nat_mult One_nat_def)
  qed
qed

end
