(* ===== verification/Heap_Refinement.thy ===== *)
theory Heap_Refinement
  imports Heap_Layout
begin

text \<open>
  \<open>kmalloc\<close>, \<open>kfree\<close> and \<open>memory_init\<close> of \<^verbatim>\<open>src/kernel/memory.c\<close> implement the abstract heap:
  on a represented list they return, leave the list the abstract operation gives,
  and keep every live payload byte.
\<close>

section \<open>The allocator implements the abstract heap\<close>

definition round4 :: "u32 \<Rightarrow> nat" where
  "round4 sz = unat (sz + 3) div 4 * 4"

lemma round4_code: "(sz + 3) AND NOT 3 = of_nat (round4 sz)"
  and round4_less: "round4 sz < 2 ^ 32"
proof -
  have u: "unat ((sz + 3) AND NOT 3) = round4 sz"
    using unat_and_not_mask [of "sz + 3" 2] by (simp only: word_eq_mask(1) [symmetric] round4_def) simp
  then show less: "round4 sz < 2 ^ 32" using unat_lt32 [of "(sz + 3) AND NOT 3"] by simp
  then show "(sz + 3) AND NOT 3 = of_nat (round4 sz)"
    using u by (simp add: word_unat_eq_iff)
qed

text \<open>The rounded size is a multiple of four, and large enough unless the addition wraps.\<close>

lemma round4_dvd: "4 dvd round4 sz"
  by (simp add: round4_def)

lemma round4_ge:
  assumes "unat sz + 3 < 2 ^ 32"
  shows "unat sz \<le> round4 sz"
proof -
  have "unat (sz + 3) = unat sz + 3"
    using assms by (subst unat_plus_no_wrap) simp_all
  then show ?thesis by (simp add: round4_def)
qed

lemma round4_wraps:
  assumes "2 ^ 32 \<le> unat sz + 3"
  shows "round4 sz = 0"
proof -
  have "unat (sz + 3) = (unat sz + 3) mod 2 ^ 32" by (simp add: unat_word_ariths)
  also have "\<dots> = unat sz + 3 - 2 ^ 32"
    using assms unat_lt32 [of sz] by (simp add: mod_if)
  finally show ?thesis using unat_lt32 [of sz] by (simp add: round4_def)
qed

lemma kmalloc_unfold:
  assumes "heap_initialized s" "sz \<noteq> 0"
  shows "kmalloc sz s = find_free_block (of_nat (round4 sz)) s \<bind> (\<lambda>block.
    if block = 0 then Some (0, s)
    else Some (block + 16, set_is_free block 0 (split_block block (of_nat (round4 sz)) s)))"
  unfolding kmalloc_def Let_def round4_code SIZEOF_BLOCK_def using assms by simp

lemma heap_rep_ranges:
  assumes "heap_rep s (xs @ (k, f) # ys)" "st = unat (heap_start s)" "a = st + blen xs"
  shows "0 < a" "a + 16 + k + blen ys < 2 ^ 32" "rd (mem s) a = k" "rd (mem s) (a + 4) = of_bool f"
    "rd (mem s) (a + 8) = (if ys = [] then 0 else a + 16 + k)"
    "rd (mem s) (a + 12) = last_addr 0 st xs"
    "hseg (mem s) 0 st (xs @ (k, f) # ys) True"
  using assms by (auto simp: heap_rep_def hseg_append hdr_def)

lemma kmalloc_none:
  assumes rep: "heap_rep s bs" and sz: "sz \<noteq> 0"
    and ff: "first_fit (round4 sz) bs = None"
  shows "kmalloc sz s = Some (0, s)"
proof -
  have "find_free_block (of_nat (round4 sz)) s = Some 0"
    using find_free_none [of s 0 "unat (heap_start s)" bs "round4 sz"] rep ff round4_less [of sz]
    by (simp add: find_free_block_def heap_rep_def first_fit_None_iff)
  then show ?thesis
    using rep sz by (simp add: kmalloc_unfold heap_rep_def)
qed

lemma kmalloc_some:
  assumes rep: "heap_rep s (xs @ (k, True) # ys)" and sz: "sz \<noteq> 0"
    and fit: "round4 sz \<le> k" "\<forall>(k, f) \<in> set xs. \<not> (f \<and> round4 sz \<le> k)"
    and a: "a = unat (heap_start s) + blen xs" and t: "t = (if ys = [] then 0 else a + 16 + k)"
  shows "kmalloc sz s = Some (of_nat (a + 16),
    if round4 sz + 16 < k
    then s\<lparr>mem := wr (carve_mem (mem s) a (round4 sz) k t) (a + 4) 0,
           heap_end := (if ys = [] then of_nat (a + 16 + round4 sz) else heap_end s)\<rparr>
    else s\<lparr>mem := wr (mem s) (a + 4) 0\<rparr>)"
proof -
  note r = heap_rep_ranges [OF rep refl a]
  have bound: "unat (heap_start s) + blen (xs @ (k, True) # ys) < 2 ^ 32" using r(2) a by simp
  have "find_free_block (of_nat (round4 sz)) s = Some (of_nat a)"
    using find_free_fit [of s 0 "unat (heap_start s)" xs k ys "round4 sz"] r(7) bound fit rep
    by (simp add: find_free_block_def heap_rep_def a)
  moreover have "of_nat a \<noteq> (0 :: u32)" using r(1,2) by (simp add: of_nat32_eq_0_iff)
  moreover have "split_block (of_nat a) (of_nat (round4 sz)) s =
     (if round4 sz + 16 < k then s\<lparr>mem := carve_mem (mem s) a (round4 sz) k t,
        heap_end := (if ys = [] then of_nat (a + 16 + round4 sz) else heap_end s)\<rparr> else s)"
  proof (cases "round4 sz + 16 < k")
    case True
    have tt: "t = 0 \<or> a + 16 + k \<le> t \<and> t + 16 \<le> 2 ^ 32"
      using r(2) t by (cases ys) auto
    have "(t = 0) = (ys = [])" using r(1) t by auto
    then show ?thesis
      using split_block_carve [OF r(3) _ _ True tt] r(2,5) t True by simp
  next
    case False
    have "(of_nat k :: u32) \<le> of_nat (round4 sz) + 16"
    proof -
      have "of_nat (round4 sz) + 16 = (of_nat (round4 sz + 16) :: u32)" by simp
      then show ?thesis using False r(2) fit(1) by (simp only: of_nat32_le_iff) 
    qed
    then show ?thesis using False r(3) by (simp add: split_block_def SIZEOF_BLOCK_def)
  qed
  ultimately show ?thesis
    using rep sz by (simp add: kmalloc_unfold heap_rep_def)
qed

text \<open>The addresses of live payload bytes.\<close>

fun live :: "nat \<Rightarrow> blocks \<Rightarrow> nat set" where
  "live a [] = {}"
| "live a ((n, f) # bs) = (if f then {} else {a + 16..<a + 16 + n}) \<union> live (a + 16 + n) bs"

lemma live_append: "live a (xs @ ys) = live a xs \<union> live (a + blen xs) ys"
  by (induction a xs rule: live.induct) (auto simp: add.assoc)

lemma live_bounds: "x \<in> live a bs \<Longrightarrow> a + 16 \<le> x \<and> x < a + blen bs"
  by (induction a bs rule: live.induct) (auto split: if_splits)

lemma wr_byte_other:
  assumes "x + 1 \<le> y \<or> y + 4 \<le> x" "x < 2 ^ 32" "y + 4 \<le> 2 ^ 32"
  shows "wr m y v (of_nat x) = m (of_nat x)"
  unfolding wr_def
proof (rule write32_outside)
  fix j :: nat assume "j < 4"
  have "(of_nat x :: u32) \<noteq> of_nat (y + j)"
    using assms \<open>j < 4\<close> by (subst of_nat32_eq_iff) auto
  then show "(of_nat x :: u32) \<noteq> of_nat y + of_nat j" by simp
qed

lemma carve_mem_byte:
  assumes "x < a \<or> a + 16 + k + 16 \<le> x" "x < 2 ^ 32" "a + 16 + k < 2 ^ 32" "n + 16 < k"
    "t = 0 \<or> t = a + 16 + k \<and> t + 16 \<le> 2 ^ 32"
  shows "carve_mem m a n k t (of_nat x) = m (of_nat x)"
  using assms unfolding carve_mem_def Let_def by (auto simp: wr_byte_other)

lemma join_mem_byte:
  assumes "x < a \<or> a + 16 \<le> x \<and> (c = 0 \<or> x < c \<or> c + 16 \<le> x)" "x < 2 ^ 32" "a + 16 < 2 ^ 32"
    "c = 0 \<or> a + 16 \<le> c \<and> c + 16 \<le> 2 ^ 32"
  shows "join_mem m a n k c (of_nat x) = m (of_nat x)"
  using assms unfolding join_mem_def Let_def by (auto simp: wr_byte_other)

text \<open>The live bytes around a block are outside its extent and the header after it.\<close>

lemma live_around:
  assumes "x \<in> live st xs \<or> x \<in> live (a + 16 + k) ys" "a = st + blen xs"
  shows "x < a \<or> a + 16 + k + 16 \<le> x" "x < a + 16 + k + blen ys"
  using assms live_bounds [of x st xs] live_bounds [of x "a + 16 + k" ys] by auto

section \<open>Refinement\<close>

definition same_bytes :: "nat set \<Rightarrow> bytemem \<Rightarrow> bytemem \<Rightarrow> bool" where
  "same_bytes X m m' \<longleftrightarrow> (\<forall>x\<in>X. m' (of_nat x) = m (of_nat x))"

lemma same_bytes_trans: "same_bytes X m m' \<Longrightarrow> same_bytes X m' m'' \<Longrightarrow> same_bytes X m m''"
  by (simp add: same_bytes_def)

lemma same_bytes_refl [simp]: "same_bytes X m m"
  by (simp add: same_bytes_def)

text \<open>Only the heap's bytes and the end pointer change.\<close>

definition heap_step :: "'a memory_st_scheme \<Rightarrow> 'a memory_st_scheme \<Rightarrow> bool" where
  "heap_step s s' \<longleftrightarrow> s' = s\<lparr>mem := mem s', heap_end := heap_end s'\<rparr>"

lemma heap_step_refl [simp]: "heap_step s s"
  by (simp add: heap_step_def)

lemma heap_step_update [simp]:
  "heap_step s (s\<lparr>mem := m\<rparr>)" "heap_step s (s\<lparr>mem := m, heap_end := e\<rparr>)" "heap_step s (s\<lparr>heap_end := e\<rparr>)"
  by (simp_all add: heap_step_def)

lemma heap_step_trans: "heap_step s s' \<Longrightarrow> heap_step s' s'' \<Longrightarrow> heap_step s s''"
  unfolding heap_step_def by (metis (no_types, lifting) memory_st.surjective memory_st.update_convs(1,3))

lemma heap_step_fields:
  assumes "heap_step s s'"
  shows "heap_start s' = heap_start s" "total_heap_size s' = total_heap_size s"
    "heap_initialized s' = heap_initialized s" "con s' = con s" "io_log s' = io_log s"
    "system_ticks s' = system_ticks s"
proof -
  have e: "s' = s\<lparr>mem := mem s', heap_end := heap_end s'\<rparr>" using assms by (simp only: heap_step_def)
  show "heap_start s' = heap_start s" "total_heap_size s' = total_heap_size s"
    "heap_initialized s' = heap_initialized s" "con s' = con s" "io_log s' = io_log s"
    "system_ticks s' = system_ticks s"
    by (subst e, simp)+
qed

text \<open>The two ways to claim a free block: splitting it, and taking it whole.\<close>

lemma split_claim:
  assumes rep: "heap_rep s (xs @ (k, True) # ys)" and st: "st = unat (heap_start s)" and a: "a = st + blen xs"
    and t: "t = (if ys = [] then 0 else a + 16 + k)" and n: "n + 16 < k"
  defines "s' \<equiv> s\<lparr>mem := wr (carve_mem (mem s) a n k t) (a + 4) 0,
      heap_end := (if ys = [] then of_nat (a + 16 + n) else heap_end s)\<rparr>"
  shows "heap_rep s' (xs @ [(n, False), (k - n - 16, True)] @ ys)"
    "same_bytes (live st (xs @ (k, True) # ys)) (mem s) (mem s')"
proof -
  note r = heap_rep_ranges [OF rep st a]
  have bound: "st + blen (xs @ (k, True) # ys) < 2 ^ 32" using r(2) a by simp
  have "hseg (mem s') 0 st (xs @ [(n, False), (k - n - 16, True)] @ ys) True"
    using hseg_carve [OF r(7) bound n a t] by (simp add: s'_def)
  moreover have "heap_end s' = of_nat (last_addr 0 st (xs @ [(n, False), (k - n - 16, True)] @ ys))"
    using rep n last_addr_indep [of ys a "a + 16 + k" "a + 16 + n"]
    by (cases "ys = []") (simp_all add: s'_def heap_rep_def last_addr_append a add.assoc flip: st)
  ultimately show "heap_rep s' (xs @ [(n, False), (k - n - 16, True)] @ ys)"
    using rep n by (simp add: heap_rep_def s'_def st)
  have tt: "t = 0 \<or> t = a + 16 + k \<and> t + 16 \<le> 2 ^ 32" using r(2) t by (cases ys) auto
  show "same_bytes (live st (xs @ (k, True) # ys)) (mem s) (mem s')"
    unfolding same_bytes_def
  proof
    fix x assume "x \<in> live st (xs @ (k, True) # ys)"
    then have "x \<in> live st xs \<or> x \<in> live (a + 16 + k) ys" by (simp add: live_append a add.assoc)
    note la = live_around [OF this a]
    have "carve_mem (mem s) a n k t (of_nat x) = mem s (of_nat x)"
      by (rule carve_mem_byte) (use la n r(2) tt in auto)
    then show "mem s' (of_nat x) = mem s (of_nat x)" using la r(2) by (auto simp: s'_def wr_byte_other)
  qed
qed

lemma whole_claim:
  assumes rep: "heap_rep s (xs @ (k, True) # ys)" and st: "st = unat (heap_start s)" and a: "a = st + blen xs"
  defines "s' \<equiv> s\<lparr>mem := wr (mem s) (a + 4) 0\<rparr>"
  shows "heap_rep s' (xs @ (k, False) # ys)" "same_bytes (live st (xs @ (k, True) # ys)) (mem s) (mem s')"
proof -
  note r = heap_rep_ranges [OF rep st a]
  have bound: "st + blen (xs @ (k, True) # ys) < 2 ^ 32" using r(2) a by simp
  have "hseg (mem s') 0 st (xs @ (k, False) # ys) True"
    using hseg_claim [OF r(7) bound a, of False] by (simp add: s'_def)
  moreover have "heap_end s' = of_nat (last_addr 0 st (xs @ (k, False) # ys))"
    using rep by (simp add: s'_def heap_rep_def last_addr_append flip: st)
  ultimately show "heap_rep s' (xs @ (k, False) # ys)" using rep by (simp add: heap_rep_def s'_def st)
  show "same_bytes (live st (xs @ (k, True) # ys)) (mem s) (mem s')"
    unfolding same_bytes_def
  proof
    fix x assume "x \<in> live st (xs @ (k, True) # ys)"
    then have "x \<in> live st xs \<or> x \<in> live (a + 16 + k) ys" by (simp add: live_append a add.assoc)
    from live_around [OF this a] show "mem s' (of_nat x) = mem s (of_nat x)"
      using r(2) by (auto simp: s'_def wr_byte_other)
  qed
qed

lemma kmalloc_refines_some:
  assumes rep: "heap_rep s bs" and sz: "sz \<noteq> 0"
    and ff: "first_fit (round4 sz) bs = Some (off, bs')"
  shows "\<exists>s'. kmalloc sz s = Some (of_nat (unat (heap_start s) + off + 16), s') \<and> heap_rep s' bs' \<and>
    heap_step s s' \<and> same_bytes (live (unat (heap_start s)) bs) (mem s) (mem s')"
proof -
  obtain xs k ys where d: "bs = xs @ (k, True) # ys" "round4 sz \<le> k" "off = blen xs"
    "bs' = xs @ carve (round4 sz) k @ ys" "\<forall>(k, f) \<in> set xs. \<not> (f \<and> round4 sz \<le> k)"
    using first_fit_Some [OF ff] by blast
  define n where "n = round4 sz"
  define st where "st = unat (heap_start s)"
  define a where "a = st + blen xs"
  define t where "t = (if ys = [] then 0 else a + 16 + k)"
  have rep': "heap_rep s (xs @ (k, True) # ys)" using rep d(1) by simp
  note k = kmalloc_some [OF rep' sz d(2,5) a_def [unfolded st_def] t_def, folded n_def]
  show ?thesis
  proof (cases "n + 16 < k")
    case True
    then show ?thesis using split_claim [OF rep' st_def a_def t_def True] k
      by (simp add: d a_def st_def n_def carve_def)
  next
    case False
    then show ?thesis using whole_claim [OF rep' st_def a_def] k
      by (simp add: d a_def st_def n_def carve_def)
  qed
qed


text \<open>A release: the flag is set, and the block joins its free neighbours.\<close>

lemma heap_rep_flag:
  assumes rep: "heap_rep s (xs @ (k, f) # ys)" and a: "a = unat (heap_start s) + blen xs"
  shows "heap_rep (s\<lparr>mem := wr (mem s) (a + 4) (of_bool g)\<rparr>) (xs @ (k, g) # ys)"
proof -
  note r = heap_rep_ranges [OF rep refl a]
  have "hseg (wr (mem s) (a + 4) (of_bool g)) 0 (unat (heap_start s)) (xs @ (k, g) # ys) True"
    by (rule hseg_claim [OF r(7) _ a]) (use r(2) a in simp)
  then show ?thesis using rep by (simp add: heap_rep_def last_addr_append)
qed

lemma heap_rep_join:
  assumes rep: "heap_rep s (xs @ (n, g) # (k, f) # ys)" and a: "a = unat (heap_start s) + blen xs"
    and c: "c = (if ys = [] then 0 else a + 16 + n + 16 + k)"
  shows "heap_rep (s\<lparr>mem := join_mem (mem s) a n k c,
      heap_end := (if c = 0 then of_nat a else heap_end s)\<rparr>) (xs @ (n + 16 + k, g) # ys)"
proof -
  note r = heap_rep_ranges [OF rep refl a]
  have "hseg (join_mem (mem s) a n k c) 0 (unat (heap_start s)) (xs @ (n + 16 + k, g) # ys) True"
    by (rule hseg_join [OF r(7) _ a c]) (use r(2) a in simp)
  moreover have "c = 0 \<longleftrightarrow> ys = []" using r(1) c by auto
  ultimately show ?thesis
    using rep last_addr_indep [of ys a "a + 16 + n + 16 + k" "a + 16 + n"] a
    by (auto simp: heap_rep_def last_addr_append add.assoc)
qed

lemma join_same_bytes:
  assumes "a = st + blen xs" "c = (if ys = [] then 0 else a + 16 + n + 16 + k)"
    "a + 16 + n + 16 + k + blen ys < 2 ^ 32"
  shows "same_bytes (live st (xs @ (n + 16 + k, True) # ys)) m (join_mem m a n k c)"
  unfolding same_bytes_def
proof
  fix x assume "x \<in> live st (xs @ (n + 16 + k, True) # ys)"
  then have x': "x \<in> live st xs \<or> x \<in> live (a + 16 + (n + 16 + k)) ys"
    by (simp add: live_append assms(1) add.assoc)
  note la = live_around [OF x' assms(1)]
  have cc: "c = 0 \<or> c = a + 16 + n + 16 + k \<and> c + 16 \<le> 2 ^ 32"
    using assms(2,3) by (cases ys) auto
  show "join_mem m a n k c (of_nat x) = m (of_nat x)"
    by (rule join_mem_byte) (use la assms(3) cc in auto)
qed

lemma merge_next_refines:
  assumes rep: "heap_rep s (xs @ (n, True) # ys)" and a: "a = unat (heap_start s) + blen xs"
  defines "s' \<equiv> merge_next (of_nat a) s"
  shows "heap_rep s' (xs @ absorb_next n ys)" "heap_step s s'"
    "same_bytes (live (unat (heap_start s)) (xs @ absorb_next n ys)) (mem s) (mem s')"
proof -
  note r = heap_rep_ranges [OF rep refl a]
  consider "ys = []" | k f zs where "ys = (k, f) # zs"
    by (metis list.exhaust prod.exhaust)
  then have "heap_rep s' (xs @ absorb_next n ys) \<and> heap_step s s' \<and>
    same_bytes (live (unat (heap_start s)) (xs @ absorb_next n ys)) (mem s) (mem s')"
  proof cases
    case 1
    then have "s' = s" using r(5) by (simp add: s'_def merge_next_def)
    then show ?thesis using rep 1 by simp
  next
    case (2 k f zs)
    define b where "b = a + 16 + n"
    define c where "c = (if zs = [] then 0 else b + 16 + k)"
    have rep2: "heap_rep s ((xs @ [(n, True)]) @ (k, f) # zs)" using rep 2 by simp
    have b: "b = unat (heap_start s) + blen (xs @ [(n, True)])" by (simp add: a b_def)
    note q = heap_rep_ranges [OF rep2 refl b]
    have cc: "c = 0 \<or> b + 16 + k \<le> c \<and> c + 16 \<le> 2 ^ 32"
      using q(2) c_def by (cases zs) auto
    have c': "c = (if zs = [] then 0 else a + 16 + n + 16 + k)" by (simp add: c_def b_def)
    have nx: "rd (mem s) (a + 8) = b" using r(5) 2 by (simp add: b_def)
    have nn: "rd (mem s) (b + 8) = c" using q(5) by (simp add: c_def)
    have bk: "b + 16 + k < 2 ^ 32" using q(2) by simp
    have m: "s' = (if f then s\<lparr>mem := join_mem (mem s) a n k c,
        heap_end := (if c = 0 then of_nat a else heap_end s)\<rparr> else s)"
      unfolding s'_def by (rule merge_next_join [OF r(3) nx q(4) q(3) nn b_def bk cc])
    show ?thesis
    proof (cases f)
      case True
      have rep3: "heap_rep s (xs @ (n, True) # (k, True) # zs)" using rep 2 True by simp
      have bb: "a + 16 + n + 16 + k + blen zs < 2 ^ 32" using q(2) by (simp add: b_def)
      show ?thesis
        using heap_rep_join [OF rep3 a c'] join_same_bytes [OF a c' bb, of "mem s"] m True 2 by simp
    next
      case False
      then show ?thesis using rep m 2 by simp
    qed
  qed
  then show "heap_rep s' (xs @ absorb_next n ys)" "heap_step s s'"
    "same_bytes (live (unat (heap_start s)) (xs @ absorb_next n ys)) (mem s) (mem s')" by simp_all
qed

lemma merge_prev_refines:
  assumes rep: "heap_rep s (xs @ (n, True) # ys)" and b: "b = unat (heap_start s) + blen xs"
  defines "s' \<equiv> merge_prev (of_nat b) s"
  defines "bs' \<equiv> if xs \<noteq> [] \<and> snd (last xs) then butlast xs @ (fst (last xs) + 16 + n, True) # ys
                else xs @ (n, True) # ys"
  shows "heap_rep s' bs'" "heap_step s s'"
    "same_bytes (live (unat (heap_start s)) bs') (mem s) (mem s')"
proof -
  note r = heap_rep_ranges [OF rep refl b]
  consider "xs = []" | zs k f where "xs = zs @ [(k, f)]"
    by (metis rev_exhaust prod.exhaust)
  then have "heap_rep s' bs' \<and> heap_step s s' \<and>
    same_bytes (live (unat (heap_start s)) bs') (mem s) (mem s')"
  proof cases
    case 1
    then have "s' = s" using r(6) by (simp add: s'_def merge_prev_def)
    then show ?thesis using rep 1 by (simp add: bs'_def)
  next
    case (2 zs k f)
    define a where "a = unat (heap_start s) + blen zs"
    define c where "c = (if ys = [] then 0 else b + 16 + n)"
    have ba: "b = a + 16 + k" by (simp add: b 2 a_def)
    have rep2: "heap_rep s (zs @ (k, f) # (n, True) # ys)" using rep 2 by simp
    note q = heap_rep_ranges [OF rep2 refl a_def]
    have pv: "rd (mem s) (b + 12) = a" using r(6) 2 by (simp add: last_addr_snoc a_def)
    have cc: "c = 0 \<or> b + 16 + n \<le> c \<and> c + 16 \<le> 2 ^ 32"
      using r(2) c_def by (cases ys) auto
    have nn: "rd (mem s) (b + 8) = c" using r(5) by (simp add: c_def)
    have bn: "b + 16 + n < 2 ^ 32" using r(2) by simp
    have m: "s' = (if f then s\<lparr>mem := join_mem (mem s) a k n c,
        heap_end := (if c = 0 then of_nat a else heap_end s)\<rparr> else s)"
      unfolding s'_def by (rule merge_prev_join [OF q(3) pv q(4) r(3) nn ba q(1) bn cc])
    have c': "c = (if ys = [] then 0 else a + 16 + k + 16 + n)" by (simp add: c_def ba)
    show ?thesis
    proof (cases f)
      case True
      have rep3: "heap_rep s (zs @ (k, True) # (n, True) # ys)" using rep2 True by simp
      have bb: "a + 16 + k + 16 + n + blen ys < 2 ^ 32" using q(2) by simp
      show ?thesis
        using heap_rep_join [OF rep3 a_def c'] join_same_bytes [OF a_def c' bb, of "mem s"] m True 2
        by (simp add: bs'_def)
    next
      case False
      then show ?thesis using rep m 2 by (simp add: bs'_def)
    qed
  qed
  then show "heap_rep s' bs'" "heap_step s s'"
    "same_bytes (live (unat (heap_start s)) bs') (mem s) (mem s')" by simp_all
qed

lemma absorb_next_shape: "\<exists>k zs. absorb_next n ys = (k, True) # zs"
  by (cases "(n, ys)" rule: absorb_next.cases) auto

lemma live_absorb_next:
  "live st (xs @ absorb_next n ys) = live st (xs @ (n, True) # ys)"
  by (cases "(n, ys)" rule: absorb_next.cases) (auto simp: live_append add.assoc)

lemma live_release: "live st (release xs n ys) = live st (xs @ (n, True) # ys)"
proof -
  obtain k zs where s: "absorb_next n ys = (k, True) # zs" using absorb_next_shape by blast
  have "live st (release xs n ys) = live st (xs @ (k, True) # zs)"
  proof (cases "xs \<noteq> [] \<and> snd (last xs)")
    case True
    then obtain us l where "xs = us @ [(l, True)]" by (metis append_butlast_last_id prod.collapse)
    then show ?thesis by (simp add: release_def s live_append add.assoc)
  next
    case False
    then show ?thesis by (auto simp: release_def s)
  qed
  then show ?thesis using live_absorb_next [of st xs n ys] s by simp
qed

lemma kfree_valid:
  assumes rep: "heap_rep s (xs @ (n, f) # ys)" and a: "a = unat (heap_start s) + blen xs"
  shows "kfree (of_nat (a + 16)) s = merge_free_blocks (of_nat a) (s\<lparr>mem := wr (mem s) (a + 4) 1\<rparr>)"
proof -
  note r = heap_rep_ranges [OF rep refl a]
  have ptr: "of_nat (a + 16) \<noteq> (0 :: u32)" using r(2) by (subst of_nat32_eq_0_iff) simp_all
  have blk: "of_nat (a + 16) - 16 = (of_nat a :: u32)" by simp
  have end1: "unat (heap_start s + total_heap_size s) = unat (heap_start s) + unat (total_heap_size s)"
    using rep by (subst unat_plus_no_wrap) (simp_all add: heap_rep_def)
  have ua: "unat (of_nat a :: u32) = a" using r(2) by simp
  have "\<not> of_nat a < heap_start s" unfolding word_less_nat_alt ua using a by simp
  moreover have "\<not> heap_start s + total_heap_size s \<le> of_nat a"
    unfolding word_le_nat_alt ua end1 using r(2) rep a by (simp add: heap_rep_def)
  moreover have "heap_initialized s" using rep by (simp add: heap_rep_def)
  ultimately show ?thesis
    unfolding kfree_def SIZEOF_BLOCK_def blk Let_def using ptr by simp
qed

lemma kfree_refines_abs:
  assumes rep: "heap_rep s (xs @ (n, f) # ys)"
  defines "s' \<equiv> kfree (of_nat (unat (heap_start s) + blen xs + 16)) s"
  shows "heap_rep s' (release xs n ys)" "heap_step s s'"
    "same_bytes (live (unat (heap_start s)) (release xs n ys)) (mem s) (mem s')"
proof -
  define st where "st = unat (heap_start s)"
  define a where "a = st + blen xs"
  define s1 where "s1 = s\<lparr>mem := wr (mem s) (a + 4) 1\<rparr>"
  define s2 where "s2 = merge_next (of_nat a) s1"
  have a': "a = unat (heap_start s) + blen xs" by (simp add: a_def st_def)
  note r = heap_rep_ranges [OF rep refl a']
  have s': "s' = merge_prev (of_nat a) s2"
    unfolding s'_def a' [symmetric] kfree_valid [OF rep a'] merge_free_blocks_def s2_def s1_def ..
  have rep1: "heap_rep s1 (xs @ (n, True) # ys)"
    using heap_rep_flag [OF rep a', of True] by (simp add: s1_def)
  have a1: "a = unat (heap_start s1) + blen xs" by (simp add: a' s1_def)
  note n1 = merge_next_refines [OF rep1 a1, folded s2_def]
  obtain k zs where z: "absorb_next n ys = (k, True) # zs" using absorb_next_shape by blast
  have a2: "a = unat (heap_start s2) + blen xs" using a1 heap_step_fields(1) [OF n1(2)] by simp
  note p1 = merge_prev_refines [OF n1(1) [unfolded z] a2, folded s']
  have rel: "release xs n ys = (if xs \<noteq> [] \<and> snd (last xs)
      then butlast xs @ (fst (last xs) + 16 + k, True) # zs else xs @ (k, True) # zs)"
    by (simp add: release_def z)
  show "heap_rep s' (release xs n ys)" unfolding rel by (rule p1)
  have h1: "heap_step s s1" by (simp add: s1_def)
  then show "heap_step s s'" using n1(2) p1(2) by (blast intro: heap_step_trans)
  have st1: "unat (heap_start s1) = st" "unat (heap_start s2) = st"
    using a1 a2 by (simp_all add: a_def)
  have L: "live st (release xs n ys) = live st (xs @ (n, True) # ys)"
    "live st (xs @ absorb_next n ys) = live st (xs @ (n, True) # ys)"
    by (simp_all add: live_release live_absorb_next)
  have "same_bytes (live st (xs @ (n, True) # ys)) (mem s) (mem s1)"
    unfolding same_bytes_def
  proof
    fix x assume "x \<in> live st (xs @ (n, True) # ys)"
    then have x': "x \<in> live st xs \<or> x \<in> live (a + 16 + n) ys"
      by (simp add: live_append a_def add.assoc)
    note la = live_around [OF x' a_def]
    show "mem s1 (of_nat x) = mem s (of_nat x)"
      using la r(2) by (auto simp: s1_def wr_byte_other)
  qed
  moreover have "same_bytes (live st (xs @ (n, True) # ys)) (mem s1) (mem s2)"
    using n1(3) L(2) by (simp add: st1)
  moreover have "same_bytes (live st (xs @ (n, True) # ys)) (mem s2) (mem s')"
    using p1(3) L(1) rel by (simp add: st1)
  ultimately show "same_bytes (live (unat (heap_start s)) (release xs n ys)) (mem s) (mem s')"
    unfolding st_def [symmetric] L by (blast intro: same_bytes_trans)
qed

lemma memory_init_rep:
  "heap_rep (memory_init s) [(0x3FFFF0, True)]"
  "heap_start (memory_init s) = 0x200000"
proof -
  have a: "(0x200000 :: u32) = of_nat 0x200000" "(0x400000 - 16 :: u32) = of_nat 0x3FFFF0" by simp_all
  have c: "memory_init s = s\<lparr>heap_start := 0x200000, total_heap_size := 0x400000, heap_end := 0x200000,
     heap_initialized := True, con := con (memory_init s),
     mem := wr (wr (wr (wr (mem s) 0x200000 0x3FFFF0) (0x200000 + 4) 1) (0x200000 + 8) 0) (0x200000 + 12) 0\<rparr>"
    unfolding memory_init_def KERNEL_HEAP_START_def KERNEL_HEAP_SIZE_def SIZEOF_BLOCK_def Let_def
    by (simp add: kout_defs wr_def set_size_def set_is_free_def set_next_def set_prev_def)
  show "heap_start (memory_init s) = 0x200000" by (subst c) simp
  show "heap_rep (memory_init s) [(0x3FFFF0, True)]"
    by (subst c) (simp add: heap_rep_def hdr_def rd_wr_other)
qed

end
