(* ===== verification/Heap_Invariant.thy ===== *)
theory Heap_Invariant
  imports Heap_Refinement
begin

text \<open>
  The invariants of the kernel heap: no two neighbouring blocks are free, every size is a
  multiple of four, the blocks tile the heap. The allocated payloads do not overlap, and
  the heaps the kernel reaches by allocating, freeing and storing into what it holds
  keep all of this (\<open>heap_reach\<close>).
\<close>

section \<open>The invariant on block lists\<close>

lemma coalesced_append:
  "coalesced (xs @ ys) \<longleftrightarrow> coalesced xs \<and> coalesced ys \<and>
     \<not> (xs \<noteq> [] \<and> ys \<noteq> [] \<and> snd (last xs) \<and> snd (hd ys))"
proof (induction xs rule: coalesced.induct, goal_cases)
  case (3 v)
  then show ?case by (cases ys) auto
qed auto

lemma coalesced_carve:
  "coalesced (xs @ (k, True) # ys) \<Longrightarrow> coalesced (xs @ carve n k @ ys)"
  by (cases ys) (auto simp: coalesced_append carve_def)

lemma coalesced_release:
  assumes "coalesced (xs @ (n, False) # ys)"
  shows "coalesced (release xs n ys)"
proof -
  obtain k zs where z: "absorb_next n ys = (k, True) # zs" using absorb_next_shape by blast
  have zs: "coalesced ((k, True) # zs)"
    using assms z by (cases "(n, ys)" rule: absorb_next.cases; cases zs) (auto simp: coalesced_append)
  have "coalesced (butlast xs)" "coalesced xs"
    using assms by (auto simp: coalesced_append) (metis append_butlast_last_id butlast.simps(1) coalesced_append)
  moreover have "snd (last (butlast xs)) \<Longrightarrow> butlast xs \<noteq> [] \<Longrightarrow> \<not> snd (last xs)"
    using assms by (cases xs rule: rev_cases) (auto simp: coalesced_append)
  moreover have "coalesced ((l, True) # zs)" for l using zs by (cases zs) auto
  ultimately show ?thesis
    using zs by (auto simp: release_def Let_def z coalesced_append)
qed

lemma aligned_carve:
  "aligned_blocks (xs @ (k, True) # ys) \<Longrightarrow> 4 dvd n \<Longrightarrow> n \<le> k \<Longrightarrow> aligned_blocks (xs @ carve n k @ ys)"
proof -
  assume a: "aligned_blocks (xs @ (k, True) # ys)" "4 dvd n" "n \<le> k"
  have "4 dvd k - n - 16" if "n + 16 < k"
    using a that by (auto simp: aligned_blocks_def intro!: dvd_diff_nat)
  then show ?thesis using a by (auto simp: aligned_blocks_def carve_def)
qed

lemma aligned_release:
  "aligned_blocks (xs @ (n, f) # ys) \<Longrightarrow> aligned_blocks (release xs n ys)"
proof -
  assume a: "aligned_blocks (xs @ (n, f) # ys)"
  obtain k zs where z: "absorb_next n ys = (k, True) # zs" using absorb_next_shape by blast
  have "aligned_blocks ((k, True) # zs)" "aligned_blocks xs"
    using a z by (cases "(n, ys)" rule: absorb_next.cases; auto simp: aligned_blocks_def)+
  moreover have "4 dvd fst (last xs)" if "xs \<noteq> []"
    using \<open>aligned_blocks xs\<close> last_in_set [OF that] by (auto simp: aligned_blocks_def)
  ultimately show ?thesis
    by (auto simp: release_def Let_def z aligned_blocks_def dest: in_set_butlastD)
qed

lemma release_carve:
  assumes "coalesced (xs @ (k, True) # ys)"
  shows "(if n + 16 < k then release xs n ((k - n - 16, True) # ys) else release xs k ys) = xs @ (k, True) # ys"
proof -
  have "\<not> (xs \<noteq> [] \<and> snd (last xs))" using assms by (auto simp: coalesced_append)
  moreover have "absorb_next k ys = (k, True) # ys"
    using assms by (cases "(k, ys)" rule: absorb_next.cases) (auto simp: coalesced_append)
  ultimately show ?thesis by (auto simp: release_def)
qed

lemma blen_carve: "n \<le> k \<Longrightarrow> blen (carve n k) = 16 + k"
  by (simp add: carve_def)

lemma blen_release: "blen (release xs n ys) = blen (xs @ (n, f) # ys)"
proof -
  obtain k zs where z: "absorb_next n ys = (k, True) # zs" using absorb_next_shape by blast
  have "blen ((k, True) # zs) = 16 + n + blen ys"
    using z by (cases "(n, ys)" rule: absorb_next.cases) auto
  then show ?thesis
    by (cases xs rule: rev_cases) (auto simp: release_def Let_def z)
qed

lemma blen_account: "blen bs = 16 * length bs + free_bytes bs + used_bytes bs"
  by (induction bs rule: blen.induct) (auto simp: free_bytes_def used_bytes_def)

section \<open>The invariant of represented heaps\<close>

definition heap_wf :: "'a memory_st_scheme \<Rightarrow> blocks \<Rightarrow> bool" where
  "heap_wf s bs \<longleftrightarrow> heap_rep s bs \<and> coalesced bs \<and> aligned_blocks bs"

lemma heap_rep_bound: "heap_rep s bs \<Longrightarrow> unat (heap_start s) + blen bs < 2 ^ 32"
  by (simp add: heap_rep_def)

lemma kmalloc_zero: "kmalloc 0 s = Some (0, s)"
  by (simp add: kmalloc_def)

lemma kmalloc_cases:
  assumes "heap_rep s bs" "kmalloc sz s = Some (p, s')"
  obtains (fails) "p = 0" "s' = s"
  | (fits) xs k ys where "sz \<noteq> 0" "bs = xs @ (k, True) # ys" "round4 sz \<le> k"
      "p = of_nat (unat (heap_start s) + blen xs + 16)" "heap_rep s' (xs @ carve (round4 sz) k @ ys)"
      "heap_step s s'" "same_bytes (live (unat (heap_start s)) bs) (mem s) (mem s')"
proof (cases "sz = 0")
  case True
  then show ?thesis using assms(2) fails by (simp add: kmalloc_zero)
next
  case False
  show ?thesis
  proof (cases "first_fit (round4 sz) bs")
    case None
    then show ?thesis using kmalloc_none [OF assms(1) False None] assms(2) fails by simp
  next
    case (Some r)
    obtain off bs' where r: "r = (off, bs')" by (cases r)
    obtain xs k ys where d: "bs = xs @ (k, True) # ys" "round4 sz \<le> k" "off = blen xs"
        "bs' = xs @ carve (round4 sz) k @ ys"
      using first_fit_Some [OF Some [unfolded r]] by blast
    show ?thesis
      using kmalloc_refines_some [OF assms(1) False Some [unfolded r]] assms(2) d False
      by (auto intro: fits)
  qed
qed

text \<open>The payloads of the allocated blocks: address and size.\<close>

fun used_at :: "nat \<Rightarrow> blocks \<Rightarrow> (nat \<times> nat) list" where
  "used_at a [] = []"
| "used_at a ((n, f) # bs) = (if f then [] else [(a + 16, n)]) @ used_at (a + 16 + n) bs"

lemma used_at_append: "used_at a (xs @ ys) = used_at a xs @ used_at (a + blen xs) ys"
  by (induction a xs rule: used_at.induct) (auto simp: add.assoc)

lemma used_at_bounds: "(x, n) \<in> set (used_at a bs) \<Longrightarrow> a + 16 \<le> x \<and> x + n \<le> a + blen bs"
  by (induction a bs rule: used_at.induct) (auto split: if_splits)

lemma used_at_split:
  "(x, n) \<in> set (used_at a bs) \<longleftrightarrow> (\<exists>xs ys. bs = xs @ (n, False) # ys \<and> x = a + blen xs + 16)"
proof
  assume "(x, n) \<in> set (used_at a bs)"
  then show "\<exists>xs ys. bs = xs @ (n, False) # ys \<and> x = a + blen xs + 16"
  proof (induction a bs rule: used_at.induct)
    case (2 a k f bs)
    then consider "\<not> f" "x = a + 16" "n = k" | "(x, n) \<in> set (used_at (a + 16 + k) bs)"
      by (auto split: if_splits)
    then show ?case
    proof cases
      case 1
      then show ?thesis by (intro exI [of _ "[]"] exI [of _ bs]) auto
    next
      case 2
      then obtain xs ys where "bs = xs @ (n, False) # ys" "x = a + 16 + k + blen xs + 16"
        using "2.IH" by blast
      then show ?thesis by (intro exI [of _ "(k, f) # xs"] exI [of _ ys]) auto
    qed
  qed simp
qed (auto simp: used_at_append)

lemma used_at_live: "(x, n) \<in> set (used_at a bs) \<Longrightarrow> {x..<x + n} \<subseteq> live a bs"
  by (auto simp: used_at_split live_append)

lemma used_at_release:
  "used_at st (release xs n ys) = used_at st xs @ used_at (st + blen xs + 16 + n) ys"
proof -
  obtain k zs where z: "absorb_next n ys = (k, True) # zs" using absorb_next_shape by blast
  have "used_at a ((k, True) # zs) = used_at (a + 16 + n) ys" for a
    using z by (cases "(n, ys)" rule: absorb_next.cases) (auto simp: add.assoc)
  then have u: "used_at (a + 16 + k) zs = used_at (a + 16 + n) ys" for a by simp
  show ?thesis
  proof (cases "xs \<noteq> [] \<and> snd (last xs)")
    case True
    then obtain us l where "xs = us @ [(l, True)]" by (metis append_butlast_last_id prod.collapse)
    then show ?thesis using u [of "st + blen us + 16 + l"]
      by (simp add: release_def Let_def z used_at_append add.assoc)
  next
    case False
    then show ?thesis using u [of "st + blen xs"]
      by (auto simp: release_def Let_def z used_at_append add.assoc)
  qed
qed

text \<open>Two allocated blocks do not share a byte.\<close>

lemma used_at_disjoint:
  assumes "(x, m) \<in> set (used_at a bs)" "(y, n) \<in> set (used_at a bs)" "x \<noteq> y"
  shows "{x..<x + m} \<inter> {y..<y + n} = {}"
  using assms
proof (induction a bs rule: used_at.induct)
  case (2 a k f bs)
  then show ?case
    using used_at_bounds [of x m "a + 16 + k" bs] used_at_bounds [of y n "a + 16 + k" bs]
    by (auto split: if_splits)
qed simp

lemma used_at_size_unique:
  assumes "(x, m) \<in> set (used_at a bs)" "(x, n) \<in> set (used_at a bs)"
  shows "m = n"
  using assms
proof (induction a bs rule: used_at.induct)
  case (2 a k f bs)
  then show ?case
    using used_at_bounds [of x m "a + 16 + k" bs] used_at_bounds [of x n "a + 16 + k" bs]
    by (auto split: if_splits)
qed simp

text \<open>Headers lie outside the live bytes, so a store to a live byte keeps the representation.\<close>

lemma rd_cong:
  assumes "\<And>x. a \<le> x \<Longrightarrow> x < a + 4 \<Longrightarrow> m' (of_nat x) = m (of_nat x)"
  shows "rd m' a = rd m a"
  unfolding rd_def
proof (rule arg_cong [where f = unat], rule read32_cong)
  fix j :: nat assume "j < 4"
  then show "m' (of_nat a + of_nat j) = m (of_nat a + of_nat j)" using assms [of "a + j"] by simp
qed

lemma hseg_live_cong:
  assumes "\<And>x. a \<le> x \<Longrightarrow> x < a + blen bs \<Longrightarrow> x \<notin> live a bs \<Longrightarrow> m' (of_nat x) = m (of_nat x)"
  shows "hseg m' p a bs e = hseg m p a bs e"
  using assms
proof (induction m p a bs e rule: hseg.induct)
  case (2 m p a n f bs e)
  have "x \<notin> live a ((n, f) # bs)" if "x < a + 16" for x
    using that live_bounds by fastforce
  then have "rd m' (a + d) = rd m (a + d)" if "d \<in> {0, 4, 8, 12}" for d
    using that by (intro rd_cong "2.prems") auto
  then have "hdr m' a n f t p = hdr m a n f t p" for t
    by (simp add: hdr_def) (metis add_0_right)
  moreover have "hseg m' a (a + 16 + n) bs e = hseg m a (a + 16 + n) bs e"
    by (rule "2.IH", rule "2.prems") (auto split: if_splits)
  ultimately show ?case by simp
qed simp

lemma heap_rep_store:
  assumes "heap_rep s bs" "unat x \<in> live (unat (heap_start s)) bs"
  shows "heap_rep (s\<lparr>mem := (mem s)(x := v)\<rparr>) bs"
proof -
  have "hseg ((mem s)(x := v)) 0 (unat (heap_start s)) bs True"
  proof (subst hseg_live_cong)
    fix y assume "y < unat (heap_start s) + blen bs" "y \<notin> live (unat (heap_start s)) bs"
    then have "of_nat y \<noteq> x" using assms heap_rep_bound [OF assms(1)] by auto
    then show "((mem s)(x := v)) (of_nat y) = mem s (of_nat y)" by simp
  qed (use assms in \<open>simp add: heap_rep_def\<close>)
  then show ?thesis using assms(1) by (simp add: heap_rep_def)
qed

section \<open>The heaps the kernel can reach\<close>

text \<open>
  After \<open>memory_init\<close>, the clients allocate, free what they were given, and store into
  what they hold. \<open>P\<close> maps the pointers they hold to the sizes they asked for.
\<close>

inductive heap_reach :: "'a memory_st_scheme \<Rightarrow> (u32 \<rightharpoonup> u32) \<Rightarrow> bool" where
  reach_init: "heap_reach (memory_init s) Map.empty"
| reach_alloc: "heap_reach s P \<Longrightarrow> unat sz + 3 < 2 ^ 32 \<Longrightarrow> kmalloc sz s = Some (p, s') \<Longrightarrow> p \<noteq> 0 \<Longrightarrow>
    heap_reach s' (P(p \<mapsto> sz))"
| reach_free: "heap_reach s P \<Longrightarrow> P p \<noteq> None \<Longrightarrow> heap_reach (kfree p s) (P(p := None))"
| reach_store: "heap_reach s P \<Longrightarrow> P p = Some sz \<Longrightarrow> i < unat sz \<Longrightarrow>
    heap_reach (s\<lparr>mem := (mem s)(p + of_nat i := v)\<rparr>) P"

definition holds :: "(u32 \<rightharpoonup> u32) \<Rightarrow> nat \<Rightarrow> blocks \<Rightarrow> bool" where
  "holds P st bs \<longleftrightarrow>
     (\<forall>p sz. P p = Some sz \<longrightarrow> (\<exists>n. (unat p, n) \<in> set (used_at st bs) \<and> unat sz \<le> n)) \<and>
     (\<forall>x n. (x, n) \<in> set (used_at st bs) \<longrightarrow> P (of_nat x) \<noteq> None)"

definition heap_inv :: "'a memory_st_scheme \<Rightarrow> (u32 \<rightharpoonup> u32) \<Rightarrow> blocks \<Rightarrow> bool" where
  "heap_inv s P bs \<longleftrightarrow> heap_wf s bs \<and> heap_start s = 0x200000 \<and> blen bs = 0x400000 \<and> holds P 0x200000 bs"

text \<open>The used blocks after an allocation: the old ones and the new one.\<close>

lemma used_carve:
  assumes sz: "unat sz + 3 < 2 ^ 32" and n: "round4 sz \<le> n" and x: "x = st + blen xs + 16"
  obtains l where "set (used_at st (xs @ carve (round4 sz) n @ ys)) = insert (x, l) (set (used_at st (xs @ (n, True) # ys)))"
    "unat sz \<le> l"
proof (cases "round4 sz + 16 < n")
  case True
  show ?thesis
    by (rule that [of "round4 sz"])
      (use True round4_ge [OF sz] in \<open>auto simp: carve_def used_at_append x add.assoc\<close>)
next
  case False
  show ?thesis
    by (rule that [of n]) (use False round4_ge [OF sz] n in \<open>auto simp: carve_def used_at_append x add.assoc\<close>)
qed

lemma holds_new:
  assumes h: "holds P st bs" and new: "set (used_at st bs') = insert (unat p, l) (set (used_at st bs))" "unat sz \<le> l"
  shows "holds (P(p \<mapsto> sz)) st bs'"
  unfolding holds_def
proof (intro conjI allI impI)
  fix q m assume q: "(P(p \<mapsto> sz)) q = Some m"
  show "\<exists>n. (unat q, n) \<in> set (used_at st bs') \<and> unat m \<le> n"
  proof (cases "q = p")
    case True
    then show ?thesis using q new by auto
  next
    case False
    then show ?thesis using q h new(1) by (fastforce simp: holds_def)
  qed
next
  fix y m assume "(y, m) \<in> set (used_at st bs')"
  then show "(P(p \<mapsto> sz)) (of_nat y) \<noteq> None" using new(1) h by (auto simp: holds_def)
qed

lemma heap_inv_alloc_grows:
  assumes inv: "heap_inv s P bs" and sz: "unat sz + 3 < 2 ^ 32"
    and k: "kmalloc sz s = Some (p, s')" "p \<noteq> 0"
  shows "\<exists>bs'. heap_inv s' (P(p \<mapsto> sz)) bs' \<and>
    set (used_at 0x200000 bs) \<subseteq> set (used_at 0x200000 bs')"
proof -
  have wf: "heap_rep s bs" "coalesced bs" "aligned_blocks bs" "heap_start s = 0x200000"
    "blen bs = 0x400000" "holds P 0x200000 bs"
    using inv by (simp_all add: heap_inv_def heap_wf_def)
  from wf(1) k(1) show ?thesis
  proof (cases rule: kmalloc_cases)
    case fails
    then show ?thesis using k(2) by simp
  next
    case (fits xs n ys)
    define x where "x = 0x200000 + blen xs + 16"
    have x: "x < 2 ^ 32" using wf(5) fits(2) by (simp add: x_def)
    have "p = of_nat x" using fits(4) wf(4) by (simp add: x_def)
    then have p: "unat p = x" using x by (simp only: unat_of_nat32)
    let ?bs = "xs @ carve (round4 sz) n @ ys"
    obtain l where l: "set (used_at 0x200000 ?bs) = insert (unat p, l) (set (used_at 0x200000 bs))" "unat sz \<le> l"
      using used_carve [OF sz fits(3) x_def] unfolding fits(2) p by metis
    have "blen ?bs = 0x400000" using wf(5) fits(2) blen_carve [OF fits(3)] by simp
    moreover have "coalesced ?bs" using wf(2) fits(2) by (simp add: coalesced_carve)
    moreover have "aligned_blocks ?bs" using wf(3) fits(2,3) round4_dvd by (simp add: aligned_carve)
    ultimately have "heap_inv s' (P(p \<mapsto> sz)) ?bs"
      using fits(5) heap_step_fields(1) [OF fits(6)] wf(4) holds_new [OF wf(6) l] by (simp add: heap_inv_def heap_wf_def)
    then show ?thesis using l(1) by blast
  qed
qed

lemma heap_inv_alloc:
  "heap_inv s P bs \<Longrightarrow> unat sz + 3 < 2 ^ 32 \<Longrightarrow> kmalloc sz s = Some (p, s') \<Longrightarrow> p \<noteq> 0 \<Longrightarrow>
    \<exists>bs'. heap_inv s' (P(p \<mapsto> sz)) bs'"
  using heap_inv_alloc_grows by blast

lemma heap_inv_free:
  assumes inv: "heap_inv s P bs" and p: "P p \<noteq> None"
  shows "\<exists>bs'. heap_inv (kfree p s) (P(p := None)) bs'"
proof -
  have wf: "heap_rep s bs" "coalesced bs" "aligned_blocks bs" "heap_start s = 0x200000"
    "blen bs = 0x400000" "holds P 0x200000 bs"
    using inv by (simp_all add: heap_inv_def heap_wf_def)
  obtain n where "(unat p, n) \<in> set (used_at 0x200000 bs)"
    using wf(6) p unfolding holds_def by blast
  then obtain xs ys where d: "bs = xs @ (n, False) # ys" "unat p = 0x200000 + blen xs + 16"
    by (auto simp: used_at_split)
  have pp: "p = of_nat (unat (heap_start s) + blen xs + 16)"
    using d(2) wf(4) by (simp add: word_unat_eq_iff flip: d(2))
  note k = kfree_refines_abs [OF wf(1) [unfolded d(1)], folded pp]
  let ?bs = "release xs n ys"
  have used: "set (used_at 0x200000 bs) = insert (unat p, n) (set (used_at 0x200000 ?bs))"
    by (auto simp: d used_at_release used_at_append add.assoc)
  have len: "blen ?bs = 0x400000" using wf(5) unfolding d(1) blen_release [where f = False] .
  have no_p: "\<not> (unat p, m) \<in> set (used_at 0x200000 ?bs)" for m
    using used_at_bounds [of "unat p" m "0x200000" xs]
      used_at_bounds [of "unat p" m "0x200000 + blen xs + 16 + n" ys] d(2)
    by (auto simp: used_at_release)
  have "(P(p := None)) (of_nat x) \<noteq> None" if x: "(x, m) \<in> set (used_at 0x200000 ?bs)" for x m
  proof -
    have "x < 2 ^ 32" using used_at_bounds [OF x] len by simp
    then have "of_nat x \<noteq> p" using no_p [of m] x by (metis unat_of_nat32)
    then show ?thesis using wf(6) used x unfolding holds_def by simp
  qed
  moreover have "\<exists>l. (unat q, l) \<in> set (used_at 0x200000 ?bs) \<and> unat m \<le> l"
    if q: "(P(p := None)) q = Some m" for q m
  proof -
    have "q \<noteq> p" "P q = Some m" using q by (auto split: if_splits)
    then show ?thesis using wf(6) used unfolding holds_def by (metis Pair_inject insertE word_unat_eq_iff)
  qed
  ultimately have "holds (P(p := None)) 0x200000 ?bs" unfolding holds_def by blast
  moreover have "coalesced ?bs" "aligned_blocks ?bs"
    using wf(2,3) unfolding d(1) by (simp_all add: coalesced_release aligned_release)
  moreover note len
  ultimately show ?thesis
    using k(1) heap_step_fields(1) [OF k(2)] wf(4) by (auto simp: heap_inv_def heap_wf_def)
qed

lemma unat_add_offset:
  assumes "unat (p :: u32) + i < 2 ^ 32"
  shows "p + of_nat i = of_nat (unat p + i)" "unat (p + of_nat i) = unat p + i"
  using assms by (simp_all add: unat_offset)

lemma holds_live:
  assumes "holds P st bs" "P p = Some sz" "i < unat sz" "st + blen bs < 2 ^ 32"
  shows "unat p + i \<in> live st bs" "unat (p + of_nat i) = unat p + i" "p + of_nat i = of_nat (unat p + i)"
proof -
  obtain n where n: "(unat p, n) \<in> set (used_at st bs)" "unat sz \<le> n"
    using assms(1,2) unfolding holds_def by blast
  show "unat p + i \<in> live st bs" using used_at_live [OF n(1)] n(2) assms(3) by auto
  have "unat p + i < 2 ^ 32" using used_at_bounds [OF n(1)] n(2) assms(3,4) by simp
  then show "unat (p + of_nat i) = unat p + i" "p + of_nat i = of_nat (unat p + i)"
    by (rule unat_add_offset(2), rule unat_add_offset(1))
qed

lemma heap_inv_store:
  assumes inv: "heap_inv s P bs" and p: "P p = Some sz" "i < unat sz"
  shows "heap_inv (s\<lparr>mem := (mem s)(p + of_nat i := v)\<rparr>) P bs"
proof -
  have wf: "heap_rep s bs" "heap_start s = 0x200000" "blen bs = 0x400000" "holds P 0x200000 bs"
    using inv by (simp_all add: heap_inv_def heap_wf_def)
  have "unat (p + of_nat i) \<in> live (unat (heap_start s)) bs"
    using holds_live(1,2) [OF wf(4) p] wf(2,3) by simp
  from heap_rep_store [OF wf(1) this] show ?thesis using inv by (simp add: heap_inv_def heap_wf_def)
qed

lemma heap_inv_init: "heap_inv (memory_init s) Map.empty [(0x3FFFF0, True)]"
  using memory_init_rep [of s] by (simp add: heap_inv_def heap_wf_def aligned_blocks_def holds_def)

lemma heap_reach_inv: "heap_reach s P \<Longrightarrow> \<exists>bs. heap_inv s P bs"
proof (induction rule: heap_reach.induct)
  case (reach_init s)
  then show ?case using heap_inv_init by blast
next
  case (reach_alloc s P sz p s')
  then show ?case using heap_inv_alloc by blast
next
  case (reach_free s P p)
  then show ?case using heap_inv_free by blast
next
  case (reach_store s P p sz i v)
  then show ?case using heap_inv_store by blast
qed

end
