(* ===== verification/Allocator.thy ===== *)
theory Allocator
  imports Heap_Invariant
begin

text \<open>
  The contract of the allocator as its clients see it, a locale: what they hold does not
  overlap, an allocation returns something new, and nobody else's bytes change. It is
  interpreted on \<open>kmalloc\<close> and \<open>kfree\<close> over the reachable heaps; statistics and the memory
  utilities of \<^verbatim>\<open>src/kernel/memory.c\<close> follow.
\<close>

section \<open>The allocator contract\<close>

fun alloc_all :: "(u32 \<Rightarrow> 's \<Rightarrow> (u32 \<times> 's) option) \<Rightarrow> u32 list \<Rightarrow> 's \<Rightarrow> (u32 list \<times> 's) option" where
  "alloc_all alloc [] s = Some ([], s)"
| "alloc_all alloc (n # ns) s = do {
     (p, s) \<leftarrow> alloc n s;
     (ps, s) \<leftarrow> alloc_all alloc ns s;
     Some (p # ps, s) }"

locale allocator =
  fixes inv :: "'s \<Rightarrow> (u32 \<rightharpoonup> u32) \<Rightarrow> bool"
    and bytes :: "'s \<Rightarrow> u32 \<Rightarrow> u8"
    and alloc :: "u32 \<Rightarrow> 's \<Rightarrow> (u32 \<times> 's) option"
    and free :: "u32 \<Rightarrow> 's \<Rightarrow> 's"
    and sane :: "u32 \<Rightarrow> bool"
  assumes alloc_returns: "inv s P \<Longrightarrow> sane n \<Longrightarrow> \<exists>p s'. alloc n s = Some (p, s')"
    and alloc_null: "inv s P \<Longrightarrow> alloc n s = Some (0, s') \<Longrightarrow> s' = s"
    and alloc_inv: "inv s P \<Longrightarrow> sane n \<Longrightarrow> alloc n s = Some (p, s') \<Longrightarrow> p \<noteq> 0 \<Longrightarrow> inv s' (P(p \<mapsto> n))"
    and alloc_fresh: "inv s P \<Longrightarrow> sane n \<Longrightarrow> alloc n s = Some (p, s') \<Longrightarrow> p \<noteq> 0 \<Longrightarrow> P p = None"
    and alloc_frame: "inv s P \<Longrightarrow> alloc n s = Some (p, s') \<Longrightarrow> P q = Some m \<Longrightarrow> i < unat m \<Longrightarrow>
      bytes s' (q + of_nat i) = bytes s (q + of_nat i)"
    and free_inv: "inv s P \<Longrightarrow> P p \<noteq> None \<Longrightarrow> inv (free p s) (P(p := None))"
    and free_frame: "inv s P \<Longrightarrow> P p \<noteq> None \<Longrightarrow> P q = Some m \<Longrightarrow> q \<noteq> p \<Longrightarrow> i < unat m \<Longrightarrow>
      bytes (free p s) (q + of_nat i) = bytes s (q + of_nat i)"
    and disjoint: "inv s P \<Longrightarrow> P p = Some m \<Longrightarrow> P q = Some n \<Longrightarrow> p \<noteq> q \<Longrightarrow>
      {unat p..<unat p + unat m} \<inter> {unat q..<unat q + unat n} = {}"
begin

lemma alloc_all_returns:
  assumes "inv s P" "\<forall>n\<in>set ns. sane n"
  shows "\<exists>ps s'. alloc_all alloc ns s = Some (ps, s')"
  using assms
proof (induction ns arbitrary: s P)
  case (Cons n ns)
  obtain p s1 where a: "alloc n s = Some (p, s1)" using alloc_returns Cons.prems by fastforce
  obtain Q where "inv s1 Q"
    using alloc_null [OF Cons.prems(1)] alloc_inv [OF Cons.prems(1) _ a] a Cons.prems
    by (cases "p = 0") auto
  then obtain ps s2 where "alloc_all alloc ns s1 = Some (ps, s2)" using Cons by fastforce
  then show ?case using a by simp
qed simp

lemma alloc_all_held:
  assumes "inv s P" "\<forall>n\<in>set ns. sane n" "alloc_all alloc ns s = Some (ps, s')" "0 \<notin> set ps"
  shows "distinct ps \<and> set ps \<inter> dom P = {} \<and> (\<exists>Q. inv s' Q \<and> P \<subseteq>\<^sub>m Q \<and> map Q ps = map Some ns) \<and>
    (\<forall>q m i. P q = Some m \<longrightarrow> i < unat m \<longrightarrow> bytes s' (q + of_nat i) = bytes s (q + of_nat i))"
  using assms
proof (induction ns arbitrary: s P ps)
  case Nil
  then show ?case by auto
next
  case (Cons n ns)
  obtain p s1 ps1 where a: "alloc n s = Some (p, s1)" and r: "alloc_all alloc ns s1 = Some (ps1, s')"
    and ps: "ps = p # ps1" using Cons.prems(3) by (auto split: Option.bind_splits)
  have sane: "sane n" and p0: "p \<noteq> 0" using Cons.prems ps by auto
  note fresh = alloc_fresh [OF Cons.prems(1) sane a p0]
  have i1: "inv s1 (P(p \<mapsto> n))" by (rule alloc_inv [OF Cons.prems(1) sane a p0])
  have ih: "distinct ps1 \<and> set ps1 \<inter> dom (P(p \<mapsto> n)) = {} \<and>
    (\<exists>Q. inv s' Q \<and> P(p \<mapsto> n) \<subseteq>\<^sub>m Q \<and> map Q ps1 = map Some ns) \<and>
    (\<forall>q m i. (P(p \<mapsto> n)) q = Some m \<longrightarrow> i < unat m \<longrightarrow> bytes s' (q + of_nat i) = bytes s1 (q + of_nat i))"
    by (rule Cons.IH [OF i1 _ r]) (use Cons.prems ps in auto)
  then obtain Q where Q: "inv s' Q" "P(p \<mapsto> n) \<subseteq>\<^sub>m Q" "map Q ps1 = map Some ns" by blast
  have "P \<subseteq>\<^sub>m Q" "Q p = Some n"
    using Q(2) fresh by (auto simp: map_le_def dom_def split: if_splits)
  moreover have "bytes s' (q + of_nat i) = bytes s (q + of_nat i)" if "P q = Some m" "i < unat m" for q m i
  proof -
    have "q \<noteq> p" using that fresh by auto
    then have "bytes s' (q + of_nat i) = bytes s1 (q + of_nat i)" using ih that by auto
    also have "\<dots> = bytes s (q + of_nat i)" by (rule alloc_frame [OF Cons.prems(1) a that])
    finally show ?thesis .
  qed
  ultimately show ?case using ih Q ps fresh by auto
qed

end

definition held :: "'a memory_st_scheme \<Rightarrow> (u32 \<rightharpoonup> u32) \<Rightarrow> bool" where
  "held s P \<longleftrightarrow> (\<exists>bs. heap_inv s P bs)"

definition sane_size :: "u32 \<Rightarrow> bool" where
  "sane_size sz \<longleftrightarrow> unat sz + 3 < 2 ^ 32"

lemma kmalloc_total:
  assumes "heap_rep s bs"
  shows "\<exists>p s'. kmalloc sz s = Some (p, s')"
proof (cases "sz = 0")
  case True
  then show ?thesis by (simp add: kmalloc_zero)
next
  case False
  show ?thesis
  proof (cases "first_fit (round4 sz) bs")
    case None
    then show ?thesis using kmalloc_none [OF assms False] by simp
  next
    case (Some r)
    then show ?thesis using kmalloc_refines_some [OF assms False, of "fst r" "snd r"] by auto
  qed
qed

lemma kmalloc_frame:
  assumes "heap_inv s P bs" "kmalloc n s = Some (p, s')" "P q = Some m" "i < unat m"
  shows "mem s' (q + of_nat i) = mem s (q + of_nat i)"
proof -
  have wf: "heap_rep s bs" "heap_start s = 0x200000" "blen bs = 0x400000" "holds P 0x200000 bs"
    using assms(1) by (simp_all add: heap_inv_def heap_wf_def)
  note l = holds_live [OF wf(4) assms(3,4)]
  have live: "unat q + i \<in> live (unat (heap_start s)) bs" using l(1) wf(2,3) by simp
  have "same_bytes (live (unat (heap_start s)) bs) (mem s) (mem s')"
    using wf(1) assms(2) by (cases rule: kmalloc_cases) simp_all
  then have "mem s' (of_nat (unat q + i)) = mem s (of_nat (unat q + i))"
    using live unfolding same_bytes_def by blast
  then show ?thesis by (subst (1 2) l(3)) (use wf(3) in simp_all)
qed

lemma kfree_frame:
  assumes inv: "heap_inv s P bs" and p: "P p \<noteq> None" and q: "P q = Some m" "q \<noteq> p" "i < unat m"
  shows "mem (kfree p s) (q + of_nat i) = mem s (q + of_nat i)"
proof -
  have wf: "heap_rep s bs" "heap_start s = 0x200000" "blen bs = 0x400000" "holds P 0x200000 bs"
    using inv by (simp_all add: heap_inv_def heap_wf_def)
  obtain n where "(unat p, n) \<in> set (used_at 0x200000 bs)"
    using wf(4) p unfolding holds_def by blast
  then obtain xs ys where d: "bs = xs @ (n, False) # ys" "unat p = 0x200000 + blen xs + 16"
    by (auto simp: used_at_split)
  have pp: "p = of_nat (unat (heap_start s) + blen xs + 16)"
    using d(2) wf(2) by (simp add: word_unat_eq_iff flip: d(2))
  note k = kfree_refines_abs [OF wf(1) [unfolded d(1)], folded pp]
  obtain l where l: "(unat q, l) \<in> set (used_at 0x200000 bs)" "unat m \<le> l"
    using wf(4) q(1) unfolding holds_def by blast
  have "unat q \<noteq> unat p" using q(2) by (simp add: word_unat_eq_iff)
  then have "(unat q, l) \<in> set (used_at 0x200000 (release xs n ys))"
    using l(1) d by (auto simp: used_at_release used_at_append add.assoc)
  then have "unat q + i \<in> live (unat (heap_start s)) (release xs n ys)"
    using used_at_live l(2) q(3) wf(2) by fastforce
  then have "mem (kfree p s) (of_nat (unat q + i)) = mem s (of_nat (unat q + i))"
    using k(3) unfolding same_bytes_def by blast
  then show ?thesis
    by (subst (1 2) holds_live(3) [OF wf(4) q(1,3)]) (use wf(3) in simp_all)
qed

lemma heap_inv_disjoint:
  assumes "heap_inv s P bs" "P p = Some m" "P q = Some n" "p \<noteq> q"
  shows "{unat p..<unat p + unat m} \<inter> {unat q..<unat q + unat n} = {}"
proof -
  have h: "holds P 0x200000 bs" using assms(1) by (simp add: heap_inv_def)
  obtain k l where kl: "(unat p, k) \<in> set (used_at 0x200000 bs)" "unat m \<le> k"
    "(unat q, l) \<in> set (used_at 0x200000 bs)" "unat n \<le> l"
    using h assms(2,3) unfolding holds_def by blast
  have "unat p \<noteq> unat q" using assms(4) by (simp add: word_unat_eq_iff)
  from used_at_disjoint [OF kl(1,3) this] show ?thesis using kl(2,4) by fastforce
qed

lemma heap_inv_range:
  assumes "heap_inv s P bs" "P p = Some m"
  shows "0x200010 \<le> unat p" "unat p + unat m \<le> 0x600000"
proof -
  have h: "holds P 0x200000 bs" "blen bs = 0x400000" using assms(1) by (simp_all add: heap_inv_def)
  obtain k where k: "(unat p, k) \<in> set (used_at 0x200000 bs)" "unat m \<le> k"
    using h assms(2) unfolding holds_def by blast
  show "0x200010 \<le> unat p" "unat p + unat m \<le> 0x600000"
    using used_at_bounds [OF k(1)] k(2) h(2) by simp_all
qed

lemma kmalloc_fresh_pointer:
  assumes inv: "heap_inv s P bs" and k: "kmalloc n s = Some (p, s')" "p \<noteq> 0"
  shows "P p = None"
proof (rule ccontr)
  assume "P p \<noteq> None"
  have wf: "heap_rep s bs" "heap_start s = 0x200000" "blen bs = 0x400000" "holds P 0x200000 bs"
    using inv by (simp_all add: heap_inv_def heap_wf_def)
  obtain m where m: "(unat p, m) \<in> set (used_at 0x200000 bs)"
    using wf(4) \<open>P p \<noteq> None\<close> unfolding holds_def by blast
  from wf(1) k(1) show False
  proof (cases rule: kmalloc_cases)
    case fails
    then show ?thesis using k(2) by simp
  next
    case (fits xs l ys)
    define x where "x = 0x200000 + blen xs + 16"
    have "x < 2 ^ 32" using wf(3) fits(2) by (simp add: x_def)
    moreover have "p = of_nat x" using fits(4) wf(2) by (simp add: x_def)
    ultimately have "unat p = x" by (simp only: unat_of_nat32)
    then have "(x, m) \<in> set (used_at 0x200000 xs) \<or> (x, m) \<in> set (used_at (x + l) ys)"
      using m fits(2) by (auto simp: used_at_append x_def add.assoc)
    then show False
      using used_at_bounds [of x m "0x200000" xs] used_at_bounds [of x m "x + l" ys]
      by (auto simp: x_def)
  qed
qed

lemma kmalloc_null_unchanged:
  assumes "heap_rep s bs" "kmalloc n s = Some (0, s')"
  shows "s' = s"
  using assms
proof (cases rule: kmalloc_cases)
  case fails
  then show ?thesis by simp
next
  case (fits xs k ys)
  have "unat (heap_start s) + blen xs + 16 < 2 ^ 32"
    using heap_rep_bound [OF assms(1)] fits(2) by simp
  then have "unat (heap_start s) + blen xs + 16 = 0"
    using fits(4) of_nat32_eq_0_iff by metis
  then show ?thesis by simp
qed

interpretation kheap: allocator held mem kmalloc kfree sane_size
proof
  fix s :: "'a memory_st_scheme" and P n p s' q m i
  show "held s P \<Longrightarrow> sane_size n \<Longrightarrow> \<exists>p s'. kmalloc n s = Some (p, s')"
    by (auto simp: held_def heap_inv_def heap_wf_def intro: kmalloc_total)
  show "held s P \<Longrightarrow> kmalloc n s = Some (0, s') \<Longrightarrow> s' = s"
    by (auto simp: held_def heap_inv_def heap_wf_def dest: kmalloc_null_unchanged)
  show "held s P \<Longrightarrow> sane_size n \<Longrightarrow> kmalloc n s = Some (p, s') \<Longrightarrow> p \<noteq> 0 \<Longrightarrow> held s' (P(p \<mapsto> n))"
    by (auto simp: held_def sane_size_def intro: heap_inv_alloc)
  show "held s P \<Longrightarrow> sane_size n \<Longrightarrow> kmalloc n s = Some (p, s') \<Longrightarrow> p \<noteq> 0 \<Longrightarrow> P p = None"
    by (auto simp: held_def dest: kmalloc_fresh_pointer)
  show "held s P \<Longrightarrow> kmalloc n s = Some (p, s') \<Longrightarrow> P q = Some m \<Longrightarrow> i < unat m \<Longrightarrow>
    mem s' (q + of_nat i) = mem s (q + of_nat i)"
    by (auto simp: held_def dest: kmalloc_frame)
  show "held s P \<Longrightarrow> P p \<noteq> None \<Longrightarrow> held (kfree p s) (P(p := None))"
    unfolding held_def by (blast intro: heap_inv_free)
  show "held s P \<Longrightarrow> P p \<noteq> None \<Longrightarrow> P q = Some m \<Longrightarrow> q \<noteq> p \<Longrightarrow> i < unat m \<Longrightarrow>
    mem (kfree p s) (q + of_nat i) = mem s (q + of_nat i)"
    unfolding held_def by (blast intro: kfree_frame)
  show "held s P \<Longrightarrow> P p = Some m \<Longrightarrow> P q = Some n \<Longrightarrow> p \<noteq> q \<Longrightarrow>
      {unat p..<unat p + unat m} \<inter> {unat q..<unat q + unat n} = {}" for n
    unfolding held_def by (blast intro: heap_inv_disjoint [THEN equalityD1, THEN subsetD])
qed

section \<open>Statistics\<close>

lemma stats_loop_counts:
  assumes "hseg (mem s) p a bs True" "bs \<noteq> []" "0 < a" "a + blen bs < 2 ^ 32"
  shows "stats_loop (of_nat a) st s = Some (st\<lparr>
    used_memory := used_memory st + of_nat (used_bytes bs),
    free_memory := free_memory st + of_nat (free_bytes bs),
    allocated_blocks := allocated_blocks st + of_nat (length (filter (\<lambda>b. \<not> snd b) bs)),
    free_blocks := free_blocks st + of_nat (length (filter snd bs))\<rparr>)"
  using assms
proof (induction bs arbitrary: p a st)
  case Nil
  then show ?case by simp
next
  case (Cons x bs)
  obtain n f where x: "x = (n, f)" by (cases x)
  have a0: "(of_nat a :: u32) \<noteq> 0" using Cons.prems x by (simp add: of_nat32_eq_0_iff)
  define st1 where "st1 = (if f then st\<lparr>free_memory := free_memory st + of_nat n,
      free_blocks := free_blocks st + 1\<rparr>
    else st\<lparr>used_memory := used_memory st + of_nat n, allocated_blocks := allocated_blocks st + 1\<rparr>)"
  have step: "stats_loop (of_nat a) st s =
    stats_loop (if bs = [] then 0 else of_nat (a + 16 + n)) st1 s"
    using Cons.prems(1) a0 by (subst stats_loop.simps) (auto simp: x hdr_def st1_def simp del: of_nat_add)
  have "stats_loop 0 st1 s = Some st1" by (subst stats_loop.simps) simp
  moreover have "bs \<noteq> [] \<Longrightarrow> stats_loop (of_nat (a + 16 + n)) st1 s = Some (st1\<lparr>
    used_memory := used_memory st1 + of_nat (used_bytes bs),
    free_memory := free_memory st1 + of_nat (free_bytes bs),
    allocated_blocks := allocated_blocks st1 + of_nat (length (filter (\<lambda>b. \<not> snd b) bs)),
    free_blocks := free_blocks st1 + of_nat (length (filter snd bs))\<rparr>)"
    by (rule Cons.IH [of a]) (use Cons.prems x in auto)
  ultimately show ?case
    unfolding step
    by (cases "bs = []") (simp_all add: x st1_def used_bytes_def free_bytes_def add.assoc)
qed

section \<open>The memory utilities\<close>

lemma unat_diff_step:
  assumes "unat (x - p :: u32) \<noteq> 0"
  shows "unat (x - (p + 1)) = unat (x - p) - 1"
proof -
  have "x - (p + 1) = (x - p) - 1" by simp
  then show ?thesis using assms by (metis unat_gt_0 unat_minus_one unat_eq_0 neq0_conv)
qed

lemma unat_pred_wrap: "unat (p - (p + 1) :: u32) = 2 ^ 32 - 1"
proof -
  have "p - (p + 1) = (0xFFFFFFFF :: u32)" by simp
  then show ?thesis by (simp only:) simp
qed

lemma memset_loop_bytes:
  "n < 2 ^ 32 \<Longrightarrow> memset_loop p v n m x = (if unat (x - p) < n then v else m x)"
proof (induction n arbitrary: p m)
  case (Suc n)
  have x: "x = p \<longleftrightarrow> unat (x - p) = 0" by (simp add: unat_eq_0)
  have wrap: "unat (p - (p + 1)) = 2 ^ 32 - 1" by (rule unat_pred_wrap)
  show ?case
  proof (cases "x = p")
    case True
    have "\<not> unat (p - (p + 1)) < n" using Suc.prems unfolding wrap by simp
    then show ?thesis using Suc True by simp
  next
    case False
    then have "unat (x - (p + 1)) = unat (x - p) - 1" "unat (x - p) \<noteq> 0"
      using x unat_diff_step by blast+
    then show ?thesis using Suc False by auto
  qed
qed simp

lemma memcpy_loop_bytes:
  assumes "n < 2 ^ 32" "d = src \<or> n \<le> unat (d - src)"
  shows "memcpy_loop d src n m x = (if unat (x - d) < n then m (src + (x - d)) else m x)"
  using assms
proof (induction n arbitrary: d src m)
  case (Suc n)
  have x: "x = d \<longleftrightarrow> unat (x - d) = 0" by (simp add: unat_eq_0)
  have wrap: "unat (d - (d + 1)) = 2 ^ 32 - 1" by (rule unat_pred_wrap)
  have ih: "memcpy_loop (d + 1) (src + 1) n (m(d := m src)) x =
    (if unat (x - (d + 1)) < n then (m(d := m src)) (src + 1 + (x - (d + 1))) else (m(d := m src)) x)"
    by (rule Suc.IH) (use Suc.prems in auto)
  show ?case
  proof (cases "x = d")
    case True
    have "\<not> unat (d - (d + 1)) < n" using Suc.prems(1) unfolding wrap by simp
    then show ?thesis using ih True by simp
  next
    case False
    then have s: "unat (x - (d + 1)) = unat (x - d) - 1" "unat (x - d) \<noteq> 0"
      using x unat_diff_step by blast+
    have "m (src + (x - d)) = (m(d := m src)) (src + (x - d))" if "unat (x - d) < Suc n"
    proof (cases "d = src")
      case False
      have "src + (x - d) \<noteq> d"
      proof
        assume "src + (x - d) = d"
        then have "x - d = d - src" by (simp add: algebra_simps)
        then show False using that Suc.prems(2) False by simp
      qed
      then show ?thesis by simp
    qed simp
    moreover have "src + 1 + (x - (d + 1)) = src + (x - d)" by simp
    ultimately show ?thesis using ih s False by auto
  qed
qed simp

lemma memset_bytes:
  "memset p v n m x = (if unat (x - p) < unat n then ucast v else m x)"
  unfolding memset_def by (rule memset_loop_bytes) (rule unat_lt32)

lemma memcpy_bytes:
  assumes "d = src \<or> n \<le> d - src"
  shows "memcpy d src n m x = (if unat (x - d) < unat n then m (src + (x - d)) else m x)"
  unfolding memcpy_def
  by (rule memcpy_loop_bytes) (use assms unat_lt32 in \<open>auto simp: word_le_nat_alt\<close>)

lemma memcmp_loop_spec:
  "memcmp_loop p q n m = 0 \<longleftrightarrow> (\<forall>i<n. m (p + of_nat i) = m (q + of_nat i))"
  "i < n \<Longrightarrow> m (p + of_nat i) \<noteq> m (q + of_nat i) \<Longrightarrow>
     \<forall>j<i. m (p + of_nat j) = m (q + of_nat j) \<Longrightarrow>
     memcmp_loop p q n m = (if m (p + of_nat i) < m (q + of_nat i) then -1 else 1)"
proof (induction n arbitrary: p q i)
  case (Suc n)
  {
    case 1
    show ?case
      by (simp add: Suc.IH(1) All_less_Suc2 add.assoc)
  next
    case 2
    then show ?case
    proof (cases i)
      case (Suc j)
      then have "m p = m q" using 2 by fastforce
      moreover have "memcmp_loop (p + 1) (q + 1) n m =
        (if m (p + 1 + of_nat j) < m (q + 1 + of_nat j) then -1 else 1)"
        by (rule Suc.IH(2)) (use 2 Suc in \<open>auto simp: add.assoc dest: spec [where x = "Suc _"]\<close>)
      ultimately show ?thesis using Suc by (simp add: add.assoc)
    qed simp
  }
qed simp_all

end
