(* ===== verification/Heap_Theorems.thy ===== *)
theory Heap_Theorems
  imports Allocator
begin

text \<open>
  What the heap of \<^verbatim>\<open>src/kernel/memory.c\<close> promises its callers, stated on the code's model,
  with the sizes the arithmetic gets wrong stated as they behave.
\<close>

section \<open>Properties\<close>

text \<open>A concrete heap for the witnesses: the one \<open>memory_init\<close> sets up.\<close>

definition boot_memory :: memory_st where
  "boot_memory = memory_init (timer_st.extend idle_timer
     \<lparr>mem = (\<lambda>_. 0), heap_start = 0, heap_end = 0, total_heap_size = 0, heap_initialized = False\<rparr>)"

lemma boot_memory_rep:
  "heap_rep boot_memory [(0x3FFFF0, True)]" "heap_start boot_memory = 0x200000"
  "heap_reach boot_memory Map.empty" "heap_wf boot_memory [(0x3FFFF0, True)]"
  by (simp_all add: boot_memory_def memory_init_rep reach_init heap_wf_def aligned_blocks_def)

lemma round4_numeral [simp]:
  "round4 (numeral k) = unat (numeral k + 3 :: u32) div 4 * 4" "round4 1 = 4"
  by (simp_all add: round4_def)

text \<open>C5 (refinement): on every represented heap \<open>kmalloc\<close> returns; it answers the null
  pointer and changes nothing when no free block is large enough for the size rounded
  up to a multiple of four, and otherwise it takes the first such block, splits off the
  rest, and no byte of an allocated payload changes.\<close>

theorem kmalloc_first_fit:
  assumes "heap_rep s bs" "sz \<noteq> 0"
  shows "case first_fit (round4 sz) bs of
      None \<Rightarrow> kmalloc sz s = Some (0, s)
    | Some (off, bs') \<Rightarrow> \<exists>s'. kmalloc sz s = Some (of_nat (unat (heap_start s) + off + 16), s') \<and>
        heap_rep s' bs' \<and> heap_step s s' \<and>
        same_bytes (live (unat (heap_start s)) bs) (mem s) (mem s')"
  using kmalloc_none [OF assms] kmalloc_refines_some [OF assms]
  by (auto split: option.split)

theorem kmalloc_first_fit_witness:
  "\<exists>s'. kmalloc 10 boot_memory = Some (0x200010, s') \<and> heap_rep s' [(12, False), (0x3FFFD4, True)]"
  using kmalloc_first_fit [OF boot_memory_rep(1), of 10] boot_memory_rep(2)
  by (auto simp: carve_def)

text \<open>C24 (refinement): releasing the payload of a block marks it free and joins it with its
  free neighbours on both sides; no byte of a payload still allocated changes.\<close>

theorem kfree_releases:
  assumes "heap_rep s (xs @ (n, f) # ys)"
  defines "s' \<equiv> kfree (of_nat (unat (heap_start s) + blen xs + 16)) s"
  shows "heap_rep s' (release xs n ys) \<and> heap_step s s' \<and>
    same_bytes (live (unat (heap_start s)) (release xs n ys)) (mem s) (mem s')"
  using kfree_refines_abs [OF assms(1)] unfolding s'_def by simp

theorem kfree_releases_witness:
  "\<exists>s'. kmalloc 10 boot_memory = Some (0x200010, s') \<and> heap_rep (kfree 0x200010 s') [(0x3FFFF0, True)]"
proof -
  obtain s' where s': "kmalloc 10 boot_memory = Some (0x200010, s')"
    "heap_rep s' [(12, False), (0x3FFFD4, True)]" "heap_step boot_memory s'"
    using kmalloc_refines_some [OF boot_memory_rep(1), of 10] boot_memory_rep(2)
    by (auto simp: carve_def)
  have "heap_start s' = 0x200000"
    using heap_step_fields(1) [OF s'(3)] boot_memory_rep(2) by simp
  then show ?thesis
    using kfree_releases [of s' "[]" 12 False "[(0x3FFFD4, True)]"] s' by (simp add: release_def)
qed





text \<open>C39 (roundtrip): freeing what \<open>kmalloc\<close> has just returned gives back the same heap, block
  for block.\<close>

theorem kmalloc_kfree_roundtrip:
  assumes "heap_wf s bs" "kmalloc sz s = Some (p, s')"
  shows "heap_wf (kfree p s') bs"
proof -
  have rep: "heap_rep s bs" and co: "coalesced bs" and al: "aligned_blocks bs"
    using assms(1) by (simp_all add: heap_wf_def)
  from rep assms(2) show ?thesis
  proof (cases rule: kmalloc_cases)
    case fails
    then show ?thesis using assms(1) by (simp add: kfree_def)
  next
    case (fits xs k ys)
    have p: "p = of_nat (unat (heap_start s') + blen xs + 16)"
      using fits(4) heap_step_fields(1) [OF fits(6)] by simp
    have c: "(if round4 sz + 16 < k then release xs (round4 sz) ((k - round4 sz - 16, True) # ys)
        else release xs k ys) = bs"
      using release_carve [of xs k ys "round4 sz"] co fits(2) by simp
    show ?thesis
    proof (cases "round4 sz + 16 < k")
      case True
      have "heap_rep s' (xs @ (round4 sz, False) # (k - round4 sz - 16, True) # ys)"
        using fits(5) True by (simp add: carve_def)
      from kfree_refines_abs(1) [OF this] show ?thesis
        using c True co al by (simp add: heap_wf_def p)
    next
      case False
      have "heap_rep s' (xs @ (k, False) # ys)" using fits(5) False by (simp add: carve_def)
      from kfree_refines_abs(1) [OF this] show ?thesis
        using c False co al by (simp add: heap_wf_def p)
    qed
  qed
qed

theorem kmalloc_kfree_roundtrip_witness:
  "\<exists>p s'. kmalloc 100 boot_memory = Some (p, s') \<and> heap_wf (kfree p s') [(0x3FFFF0, True)]"
  using kmalloc_kfree_roundtrip [OF boot_memory_rep(4), of 100] kmalloc_total [OF boot_memory_rep(1), of 100]
  by blast

text \<open>Fact (functional): the statistics are those of the block list, each sum and count reduced
  to 32 bits.\<close>

theorem memory_get_stats_counts:
  assumes "heap_rep s bs"
  shows "memory_get_stats (Some junk) s = Some (Some
    \<lparr>total_memory = of_nat (16 * length bs + free_bytes bs + used_bytes bs),
     used_memory = of_nat (used_bytes bs), free_memory = of_nat (free_bytes bs),
     allocated_blocks = of_nat (length (filter (\<lambda>b. \<not> snd b) bs)),
     free_blocks = of_nat (length (filter snd bs))\<rparr>)"
proof -
  have "stats_loop (of_nat (unat (heap_start s))) st s = Some (st\<lparr>
      used_memory := used_memory st + of_nat (used_bytes bs),
      free_memory := free_memory st + of_nat (free_bytes bs),
      allocated_blocks := allocated_blocks st + of_nat (length (filter (\<lambda>b. \<not> snd b) bs)),
      free_blocks := free_blocks st + of_nat (length (filter snd bs))\<rparr>)" for st
    by (rule stats_loop_counts [of s 0]) (use assms in \<open>auto simp: heap_rep_def\<close>)
  moreover have "total_heap_size s = of_nat (16 * length bs + free_bytes bs + used_bytes bs)"
    using assms by (simp add: heap_rep_def word_unat_eq_iff flip: blen_account)
  moreover have "heap_initialized s" using assms by (simp add: heap_rep_def)
  ultimately show ?thesis by (simp add: memory_get_stats_def)
qed

theorem memory_get_stats_counts_witness:
  "memory_get_stats (Some \<lparr>total_memory = 1, used_memory = 2, free_memory = 3, allocated_blocks = 4,
     free_blocks = 5\<rparr>) boot_memory =
   Some (Some \<lparr>total_memory = 0x400000, used_memory = 0, free_memory = 0x3FFFF0,
     allocated_blocks = 0, free_blocks = 1\<rparr>)"
  using memory_get_stats_counts [OF boot_memory_rep(1)] by (simp add: free_bytes_def used_bytes_def)

lemma heap_rep_stores:
  assumes "heap_rep s bs"
    "\<And>y. y < 2 ^ 32 \<Longrightarrow> y \<notin> live (unat (heap_start s)) bs \<Longrightarrow> m' (of_nat y) = mem s (of_nat y)"
  shows "heap_rep (s\<lparr>mem := m'\<rparr>) bs"
proof -
  have "hseg m' 0 (unat (heap_start s)) bs True = hseg (mem s) 0 (unat (heap_start s)) bs True"
    by (rule hseg_live_cong) (use assms(2) heap_rep_bound [OF assms(1)] in simp)
  then show ?thesis using assms(1) by (simp add: heap_rep_def)
qed

lemma header_size:
  assumes "heap_rep s bs" "(x, k) \<in> set (used_at (unat (heap_start s)) bs)"
  shows "blk_size (block_at s (of_nat x - 16)) = of_nat k"
proof -
  obtain xs ys where d: "bs = xs @ (k, False) # ys" "x = unat (heap_start s) + blen xs + 16"
    using assms(2) by (auto simp: used_at_split)
  have x: "of_nat x - 16 = (of_nat (unat (heap_start s) + blen xs) :: u32)" by (simp add: d(2))
  show ?thesis
    unfolding x block_at_nat(1) heap_rep_ranges(3) [OF assms(1) [unfolded d(1)] refl refl] ..
qed

text \<open>Moving the contents of a held block into another held block.\<close>

lemma heap_inv_copy:
  assumes inv: "heap_inv s P bs" and p: "P p = Some n" "unat k \<le> unat n"
    and apart: "p = q \<or> k \<le> p - q"
  shows "heap_inv (s\<lparr>mem := memcpy p q k (mem s)\<rparr>) P bs"
proof -
  have wf: "heap_rep s bs" "heap_start s = 0x200000" "blen bs = 0x400000" "holds P 0x200000 bs"
    using inv by (simp_all add: heap_inv_def heap_wf_def)
  have "heap_rep (s\<lparr>mem := memcpy p q k (mem s)\<rparr>) bs"
  proof (rule heap_rep_stores [OF wf(1)])
    fix y assume y: "y < 2 ^ 32" "y \<notin> live (unat (heap_start s)) bs"
    have "\<not> unat (of_nat y - p) < unat k"
    proof
      assume lt: "unat (of_nat y - p) < unat k"
      have i: "unat (of_nat y - p) < unat n" using lt p(2) by simp
      have "p + of_nat (unat (of_nat y - p)) = of_nat y" by simp
      then have "unat p + unat (of_nat y - p) = y"
        using holds_live(2) [OF wf(4) p(1) i] wf(3) y(1) by simp
      then show False using holds_live(1) [OF wf(4) p(1) i] wf(2,3) y(2) by simp
    qed
    then show "memcpy p q k (mem s) (of_nat y) = mem s (of_nat y)"
      by (subst memcpy_bytes [OF apart]) simp
  qed
  then show ?thesis using inv by (simp add: heap_inv_def heap_wf_def)
qed

lemma disjoint_intervals:
  assumes "{a..<a + k} \<inter> {b..<b + l} = {}" "k \<noteq> 0" "l \<noteq> (0 :: nat)"
  shows "b + l \<le> a \<or> a + k \<le> b"
proof (rule ccontr)
  assume "\<not> ?thesis"
  then have "max a b \<in> {a..<a + k} \<inter> {b..<b + l}" using assms(2,3) by auto
  then show False using assms(1) by simp
qed

lemma apart_diff:
  assumes "unat (p :: u32) + n \<le> unat (q :: u32) \<or> unat q + m \<le> unat p" "unat q + m \<le> 2 ^ 32"
    "n \<noteq> 0"
  shows "m \<le> unat (p - q)"
proof (cases "unat q \<le> unat p")
  case True
  then have "unat (p - q) = unat p - unat q" by (simp add: unat_sub word_le_nat_alt)
  then show ?thesis using assms True by linarith
next
  case False
  have "unat (p - q) = 2 ^ 32 - (unat q - unat p)"
    using False by (simp add: unat_sub_if_size word_le_nat_alt word_size)
  then show ?thesis using assms False by linarith
qed

text \<open>Two held blocks: no byte of the one is within the other.\<close>

lemma held_apart:
  assumes inv: "heap_inv s P bs" "P p = Some n" and q: "P q = Some l" "q \<noteq> p" "i < unat l"
  shows "unat n \<le> unat (q + of_nat i - p)"
proof (rule ccontr)
  assume "\<not> unat n \<le> unat (q + of_nat i - p)"
  then have d: "unat (q + of_nat i - p) < unat n" by simp
  have h: "holds P 0x200000 bs" "blen bs = 0x400000" using inv(1) by (simp_all add: heap_inv_def)
  have "p + of_nat (unat (q + of_nat i - p)) = q + of_nat i" by simp
  then have "unat q + i = unat p + unat (q + of_nat i - p)"
    using holds_live(2) [OF h(1) inv(2) d] holds_live(2) [OF h(1) q(1,3)] h(2) by simp
  moreover have "unat q + i \<in> {unat q..<unat q + unat l}" using q(3) by simp
  moreover have "unat p + unat (q + of_nat i - p) \<in> {unat p..<unat p + unat n}" using d by simp
  ultimately show False using heap_inv_disjoint [OF inv(1) q(1) inv(2) q(2)] by (metis IntI empty_iff)
qed

text \<open>The block behind a held pointer.\<close>

lemma held_block:
  assumes "heap_inv s P bs" "P p = Some m"
  obtains k where "(unat p, k) \<in> set (used_at 0x200000 bs)" "unat m \<le> k" "p \<noteq> 0" "unat p + k \<le> 0x600000"
    "blk_size (block_at s (p - 16)) = of_nat k" "unat (of_nat k :: u32) = k"
proof -
  have wf: "heap_rep s bs" "heap_start s = 0x200000" "blen bs = 0x400000" "holds P 0x200000 bs"
    using assms(1) by (simp_all add: heap_inv_def heap_wf_def)
  obtain k where k: "(unat p, k) \<in> set (used_at 0x200000 bs)" "unat m \<le> k"
    using wf(4) assms(2) unfolding holds_def by blast
  have kb: "0x200010 \<le> unat p" "unat p + k \<le> 0x600000" using used_at_bounds [OF k(1)] wf(3) by simp_all
  moreover have "blk_size (block_at s (p - 16)) = of_nat k"
    using header_size [OF wf(1), of "unat p" k] k(1) wf(2) by simp
  moreover have "p \<noteq> 0" "unat (of_nat k :: u32) = k" using kb by auto
  ultimately show ?thesis using that k by blast
qed

text \<open>A copy from one held block to another: the ranges do not meet, and no other held byte changes.\<close>

lemma move_apart:
  assumes inv: "heap_inv s P bs" "P p' = Some n" and k: "(unat p, k) \<in> set (used_at 0x200000 bs)" "k < unat n" "p' \<noteq> p"
  shows "of_nat k \<le> p' - p"
proof -
  obtain l where l: "(unat p', l) \<in> set (used_at 0x200000 bs)" "unat n \<le> l" "unat p' + l \<le> 0x600000"
    using held_block [OF inv] by metis
  have kb: "unat p + k \<le> 0x600000" "unat (of_nat k :: u32) = k"
    using used_at_bounds [OF k(1)] inv(1) by (simp_all add: heap_inv_def)
  have "{unat p..<unat p + k} \<inter> {unat p'..<unat p' + l} = {}"
    by (rule used_at_disjoint [OF k(1) l(1)]) (use k(3) in \<open>simp add: word_unat_eq_iff\<close>)
  then have "k = 0 \<or> unat p' + l \<le> unat p \<or> unat p + k \<le> unat p'"
    using disjoint_intervals [of "unat p" k "unat p'" l] k(2) l(2) by linarith
  then show ?thesis
    using apart_diff [of p' l p k] kb k(2) l(2) by (cases "k = 0") (auto simp: word_le_nat_alt)
qed

lemma move_bytes:
  assumes inv: "heap_inv s P bs" "P p' = Some n" and k: "k < unat n" "of_nat k \<le> p' - p" "unat (of_nat k :: u32) = k"
  shows "i < k \<Longrightarrow> memcpy p' p (of_nat k) (mem s) (p' + of_nat i) = mem s (p + of_nat i)"
    "P q = Some j \<Longrightarrow> q \<noteq> p' \<Longrightarrow> i < unat j \<Longrightarrow> memcpy p' p (of_nat k) (mem s) (q + of_nat i) = mem s (q + of_nat i)"
proof -
  show "memcpy p' p (of_nat k) (mem s) (p' + of_nat i) = mem s (p + of_nat i)" if "i < k"
  proof -
    have "unat (of_nat i :: u32) = i" using that k(3) by (simp add: unat_of_nat take_bit_nat_eq_self_iff)
    then show ?thesis using memcpy_bytes [of p' p "of_nat k" "mem s" "p' + of_nat i"] k that by simp
  qed
  show "memcpy p' p (of_nat k) (mem s) (q + of_nat i) = mem s (q + of_nat i)" if q: "P q = Some j" "q \<noteq> p'" "i < unat j"
  proof -
    have "\<not> unat (q + of_nat i - p') < k" using held_apart [OF inv q] k(1) by simp
    then show ?thesis using memcpy_bytes [of p' p "of_nat k" "mem s" "q + of_nat i"] k by simp
  qed
qed

text \<open>The case that moves the block.\<close>

lemma krealloc_moves:
  assumes inv: "heap_inv s P bs" "P p = Some m" and n: "unat n + 3 < 2 ^ 32" "n \<noteq> 0" "blk_size (block_at s (p - 16)) < n"
    and km: "kmalloc n s = Some (p', s1)" "p' \<noteq> 0"
  shows "\<exists>s'. krealloc p n s = Some (p', s') \<and> held s' (P(p := None, p' \<mapsto> n)) \<and>
    (\<forall>i < unat m. mem s' (p' + of_nat i) = mem s (p + of_nat i)) \<and>
    (\<forall>q l i. P q = Some l \<longrightarrow> q \<noteq> p \<longrightarrow> i < unat l \<longrightarrow> mem s' (q + of_nat i) = mem s (q + of_nat i))"
proof -
  obtain k where k: "(unat p, k) \<in> set (used_at 0x200000 bs)" "unat m \<le> k" "p \<noteq> 0" "blk_size (block_at s (p - 16)) = of_nat k"
    "unat (of_nat k :: u32) = k" by (rule held_block [OF inv]) blast
  have lt: "k < unat n" using n(3) k(4,5) by (simp add: word_less_nat_alt)
  note fresh = kmalloc_fresh_pointer [OF inv(1) km]
  have pp: "p' \<noteq> p" using fresh inv(2) by auto
  obtain bs1 where inv1: "heap_inv s1 (P(p' \<mapsto> n)) bs1" and grows: "set (used_at 0x200000 bs) \<subseteq> set (used_at 0x200000 bs1)"
    using heap_inv_alloc_grows [OF inv(1) n(1) km] by blast
  have k1: "(unat p, k) \<in> set (used_at 0x200000 bs1)" using grows k(1) by blast
  have size1: "blk_size (block_at s1 (p - 16)) = of_nat k"
    using header_size [of s1 bs1 "unat p" k] k1 inv1 by (simp add: heap_inv_def heap_wf_def)
  have Q: "(P(p' \<mapsto> n)) p' = Some n" by simp
  have ap: "of_nat k \<le> p' - p" by (rule move_apart [OF inv1 Q k1 lt pp])
  define s2 where "s2 = s1\<lparr>mem := memcpy p' p (of_nat k) (mem s1)\<rparr>"
  note move = move_bytes [OF inv1 Q lt ap k(5)]
  have inv2: "heap_inv s2 (P(p' \<mapsto> n)) bs1"
    unfolding s2_def using heap_inv_copy [OF inv1, of p' n "of_nat k" p] ap lt k(5) by simp
  have run: "krealloc p n s = Some (p', kfree p s2)"
    using n(2) k(3-5) km lt by (simp add: krealloc_def size1 SIZEOF_BLOCK_def s2_def word_less_nat_alt word_le_nat_alt)
  have p: "(P(p' \<mapsto> n)) p \<noteq> None" using inv(2) by simp
  have "held (kfree p s2) (P(p := None, p' \<mapsto> n))"
    using heap_inv_free [OF inv2 p] unfolding fun_upd_twist [OF pp] held_def .
  moreover have "mem (kfree p s2) (p' + of_nat i) = mem s (p + of_nat i)" if "i < unat m" for i
    using kfree_frame [OF inv2 p Q pp, of i] move(1) [of i] kmalloc_frame [OF inv(1) km(1) inv(2) that] that k(2) lt
    by (simp add: s2_def)
  moreover have "mem (kfree p s2) (q + of_nat i) = mem s (q + of_nat i)" if q: "P q = Some j" "q \<noteq> p" "i < unat j" for q j i
  proof -
    have qp: "q \<noteq> p'" "(P(p' \<mapsto> n)) q = Some j" using q(1) fresh by auto
    show ?thesis
      using kfree_frame [OF inv2 p qp(2) q(2,3)] move(2) [OF qp(2,1) q(3)] kmalloc_frame [OF inv(1) km(1) q(1,3)] by (simp add: s2_def)
  qed
  ultimately show ?thesis using run by blast
qed



lemma heap_inv_memset:
  assumes inv: "heap_inv s P bs" and p: "P p = Some n"
  shows "heap_inv (s\<lparr>mem := memset p v n (mem s)\<rparr>) P bs"
proof -
  have wf: "heap_rep s bs" "heap_start s = 0x200000" "blen bs = 0x400000" "holds P 0x200000 bs"
    using inv by (simp_all add: heap_inv_def heap_wf_def)
  have "heap_rep (s\<lparr>mem := memset p v n (mem s)\<rparr>) bs"
  proof (rule heap_rep_stores [OF wf(1)])
    fix y assume y: "y < 2 ^ 32" "y \<notin> live (unat (heap_start s)) bs"
    have "\<not> unat (of_nat y - p) < unat n"
    proof
      assume i: "unat (of_nat y - p) < unat n"
      have "p + of_nat (unat (of_nat y - p)) = of_nat y" by simp
      then have "unat p + unat (of_nat y - p) = y"
        using holds_live(2) [OF wf(4) p i] wf(3) y(1) by simp
      then show False using holds_live(1) [OF wf(4) p i] wf(2,3) y(2) by simp
    qed
    then show "memset p v n (mem s) (of_nat y) = mem s (of_nat y)" by (simp add: memset_bytes)
  qed
  then show ?thesis using inv by (simp add: heap_inv_def heap_wf_def)
qed

text \<open>Fact (functional): \<open>kcalloc\<close> returns; unless it answers the null pointer the caller holds
  a zeroed block of \<open>num * size\<close> bytes, the product taken modulo \<open>2 ^ 32\<close> (so that an array
  too large for the address space is granted with fewer bytes), and the other blocks keep
  their bytes.\<close>

theorem kcalloc_zeroes:
  assumes "held s P" "unat (num * sz) + 3 < 2 ^ 32"
  shows "\<exists>p s'. kcalloc num sz s = Some (p, s') \<and>
    (if p = 0 then s' = s
     else held s' (P(p \<mapsto> num * sz)) \<and> P p = None \<and>
       (\<forall>i. i < unat (num * sz) \<longrightarrow> mem s' (p + of_nat i) = 0) \<and>
       (\<forall>q l i. P q = Some l \<longrightarrow> i < unat l \<longrightarrow> mem s' (q + of_nat i) = mem s (q + of_nat i)))"
proof -
  define n where "n = num * sz"
  obtain bs where inv: "heap_inv s P bs" using assms(1) by (auto simp: held_def)
  obtain p s1 where km: "kmalloc n s = Some (p, s1)"
    using kheap.alloc_returns [OF assms(1), of n] assms(2) by (auto simp: sane_size_def n_def)
  show ?thesis
  proof (cases "p = 0")
    case True
    then have "s1 = s" using kheap.alloc_null [OF assms(1)] km by simp
    then show ?thesis using True km by (simp add: kcalloc_def n_def)
  next
    case False
    note fresh = kmalloc_fresh_pointer [OF inv km False]
    have sane: "unat n + 3 < 2 ^ 32" using assms(2) by (simp add: n_def)
    obtain bs1 where inv1: "heap_inv s1 (P(p \<mapsto> n)) bs1"
      using heap_inv_alloc [OF inv sane km False] by blast
    define s2 where "s2 = s1\<lparr>mem := memset p 0 n (mem s1)\<rparr>"
    have run: "kcalloc num sz s = Some (p, s2)"
      using km False by (simp add: kcalloc_def s2_def flip: n_def)
    have "held s2 (P(p \<mapsto> n))"
      using heap_inv_memset [OF inv1, of p n] by (auto simp: held_def s2_def)
    moreover have "mem s2 (p + of_nat i) = 0" if "i < unat n" for i
    proof -
      have "unat (of_nat i :: u32) = i"
        using that sane by (intro unat_of_nat32) linarith
      then show ?thesis using that by (simp add: s2_def memset_bytes)
    qed
    moreover have "mem s2 (q + of_nat i) = mem s (q + of_nat i)" if q: "P q = Some l" "i < unat l" for q l i
    proof -
      have Q: "(P(p \<mapsto> n)) q = Some l" "(P(p \<mapsto> n)) p = Some n" "q \<noteq> p" using q fresh by auto
      have "\<not> unat (q + of_nat i - p) < unat n" using held_apart [OF inv1 Q(2,1,3) q(2)] by simp
      then have "mem s2 (q + of_nat i) = mem s1 (q + of_nat i)" by (simp add: s2_def memset_bytes)
      also have "\<dots> = mem s (q + of_nat i)" by (rule kmalloc_frame [OF inv km q])
      finally show ?thesis .
    qed
    ultimately show ?thesis using run False fresh unfolding n_def by auto
  qed
qed

theorem kcalloc_zeroes_witness:
  "\<exists>p s'. kcalloc 0x10000 0x10001 boot_memory = Some (p, s') \<and> (p \<noteq> 0 \<longrightarrow> held s' [p \<mapsto> 0x10000])"
proof -
  have "held boot_memory Map.empty" using heap_reach_inv [OF boot_memory_rep(3)] by (simp add: held_def)
  moreover have e: "0x10000 * 0x10001 = (0x10000 :: u32)" by code_simp
  ultimately show ?thesis
    using kcalloc_zeroes [of boot_memory Map.empty "0x10000" "0x10001"] unfolding e
    by (auto split: if_splits)
qed

text \<open>Fact (error): within three bytes of the largest size the rounding wraps to 0, and the request
  is served like one for no bytes at all: the first free block is taken.\<close>

theorem kmalloc_size_wraps:
  assumes "heap_rep s bs" "2 ^ 32 \<le> unat sz + 3" "first_fit 0 bs = Some (off, bs')"
  shows "\<exists>s'. kmalloc sz s = Some (of_nat (unat (heap_start s) + off + 16), s') \<and> heap_rep s' bs'"
proof -
  have "sz \<noteq> 0" using assms(2) by auto
  then show ?thesis
    using kmalloc_refines_some [OF assms(1), of sz off bs'] assms(3) round4_wraps [OF assms(2)] by auto
qed

theorem kmalloc_size_wraps_witness:
  "\<exists>s'. kmalloc 0xFFFFFFFF boot_memory = Some (0x200010, s') \<and> heap_rep s' [(0, False), (0x3FFFE0, True)]"
  using kmalloc_size_wraps [OF boot_memory_rep(1), of "0xFFFFFFFF" 0 "[(0, False), (0x3FFFE0, True)]"]
    boot_memory_rep(2) by (simp add: carve_def)

text \<open>Fact (functional): a copy moves the source bytes to the destination whenever the destination
  does not start inside the source (a copy to lower addresses may overlap), and touches
  nothing else.\<close>

theorem memcpy_copies:
  assumes "dest = src \<or> n \<le> dest - src"
  shows "memcpy dest src n m x = (if x - dest < n then m (src + (x - dest)) else m x)"
  using memcpy_bytes [OF assms] by (simp add: word_less_nat_alt)

theorem memcpy_copies_witness:
  "memcpy 100 102 8 (\<lambda>a. ucast a) 105 = 107"
  using memcpy_copies [of 100 102 8 "\<lambda>a. ucast a" 105] by simp

end
