(* ===== verification/Paging.thy ===== *)
theory Paging
  imports Heap_Theorems
begin

text \<open>
  Virtual memory of \<^verbatim>\<open>src/kernel/paging.c\<close> and \<^verbatim>\<open>include/paging.h\<close>: the two-level tables in the
  bytes of memory, the control registers, the mapping operations, and what the
  processor's own table walk makes of them.
\<close>

section \<open>State\<close>

record paging_st = memory_st +
  kernel_directory :: u32
  current_directory :: u32
  cr0 :: u32
  cr3 :: u32
  invalidated :: "u32 list"
  interrupt_flag :: bool
  halted :: bool

definition PAGE_ENTRIES :: nat where "PAGE_ENTRIES = 1024"
definition PAGE_PRESENT :: u32 where "PAGE_PRESENT = 0x001"
definition PAGE_WRITE :: u32 where "PAGE_WRITE = 0x002"
definition PAGE_USER :: u32 where "PAGE_USER = 0x004"

definition PAGE_ALIGN :: "u32 \<Rightarrow> u32" where
  "PAGE_ALIGN addr = (addr + PAGE_SIZE - 1) AND NOT (PAGE_SIZE - 1)"

section \<open>Entries and addresses\<close>

definition paging_directory_index :: "u32 \<Rightarrow> u32" where
  "paging_directory_index virtual_addr = drop_bit 22 virtual_addr AND 0x3FF"

definition paging_table_index :: "u32 \<Rightarrow> u32" where
  "paging_table_index virtual_addr = drop_bit 12 virtual_addr AND 0x3FF"

definition paging_page_offset :: "u32 \<Rightarrow> u32" where
  "paging_page_offset virtual_addr = virtual_addr AND 0xFFF"

definition paging_frame_number :: "u32 \<Rightarrow> u32" where
  "paging_frame_number physical_addr = drop_bit 12 physical_addr"

definition paging_create_pte :: "u32 \<Rightarrow> u32 \<Rightarrow> u32" where
  "paging_create_pte physical_addr flags = (physical_addr AND 0xFFFFF000) OR (flags AND 0xFFF)"

definition paging_create_pde :: "u32 \<Rightarrow> u32 \<Rightarrow> u32" where
  "paging_create_pde page_table_addr flags = (page_table_addr AND 0xFFFFF000) OR (flags AND 0xFFF)"

definition paging_get_address :: "u32 \<Rightarrow> u32" where
  "paging_get_address entry = entry AND 0xFFFFF000"

definition paging_get_flags :: "u32 \<Rightarrow> u32" where
  "paging_get_flags entry = entry AND 0xFFF"

definition paging_is_present :: "u32 \<Rightarrow> bool" where
  "paging_is_present entry \<longleftrightarrow> entry AND PAGE_PRESENT \<noteq> 0"

section \<open>Operations\<close>

text \<open>The address of an entry of a directory or a table, and the loop that clears one.\<close>

definition entry_addr :: "u32 \<Rightarrow> u32 \<Rightarrow> u32" where
  "entry_addr table i = table + 4 * i"

fun clear_loop :: "nat \<Rightarrow> u32 \<Rightarrow> bytemem \<Rightarrow> bytemem" where
  "clear_loop 0 table m = m"
| "clear_loop (Suc n) table m =
     clear_loop n table (write32 m (entry_addr table (of_nat (PAGE_ENTRIES - Suc n))) 0)"

definition paging_map_page ::
    "u32 \<Rightarrow> u32 \<Rightarrow> u32 \<Rightarrow> u32 \<Rightarrow> 'a paging_st_scheme \<Rightarrow> 'a paging_st_scheme option" where
  "paging_map_page dir virtual_addr physical_addr flags s =
     (let dir_index = paging_directory_index virtual_addr;
          table_index = paging_table_index virtual_addr;
          pde = entry_addr dir dir_index
      in if \<not> paging_is_present (read32 (mem s) pde) then do {
           (page_table, s) \<leftarrow> kmalloc 4096 s;
           if page_table = 0 then Some (kerror ''Failed to allocate page table!'' [] s)
           else
             (let s = s\<lparr>mem := clear_loop PAGE_ENTRIES page_table (mem s)\<rparr>;
                  s = s\<lparr>mem := write32 (mem s) pde
                         (paging_create_pde page_table (PAGE_PRESENT OR PAGE_WRITE OR flags))\<rparr>
              in Some (s\<lparr>mem := write32 (mem s) (entry_addr page_table table_index)
                         (paging_create_pte physical_addr (PAGE_PRESENT OR flags))\<rparr>)) }
         else
           (let page_table = paging_get_address (read32 (mem s) pde)
            in Some (s\<lparr>mem := write32 (mem s) (entry_addr page_table table_index)
                       (paging_create_pte physical_addr (PAGE_PRESENT OR flags))\<rparr>)))"

partial_function (option) identity_loop ::
    "u32 \<Rightarrow> u32 \<Rightarrow> u32 \<Rightarrow> u32 \<Rightarrow> 'a paging_st_scheme \<Rightarrow> 'a paging_st_scheme option" where
  "identity_loop dir addr end_addr flags s =
     (if addr < end_addr
      then Option.bind (paging_map_page dir addr addr flags s)
             (identity_loop dir (addr + PAGE_SIZE) end_addr flags)
      else Some s)"

declare identity_loop.simps [code]

definition paging_identity_map ::
    "u32 \<Rightarrow> u32 \<Rightarrow> u32 \<Rightarrow> u32 \<Rightarrow> 'a paging_st_scheme \<Rightarrow> 'a paging_st_scheme option" where
  "paging_identity_map dir start end_addr flags s =
     (let start = start AND 0xFFFFF000;
          end_addr = PAGE_ALIGN end_addr;
          s = kprintk (''    Mapping 0x%08X -> 0x%08X (identity)'' @ [CHR 0x0A])
                [VInt start, VInt end_addr] s
      in identity_loop dir start end_addr flags s)"

definition paging_unmap_page :: "u32 \<Rightarrow> u32 \<Rightarrow> 'a paging_st_scheme \<Rightarrow> 'a paging_st_scheme" where
  "paging_unmap_page dir virtual_addr s =
     (let dir_index = paging_directory_index virtual_addr;
          table_index = paging_table_index virtual_addr;
          pde = read32 (mem s) (entry_addr dir dir_index)
      in if \<not> paging_is_present pde then s
         else
           (let page_table = paging_get_address pde;
                s = s\<lparr>mem := write32 (mem s) (entry_addr page_table table_index) 0\<rparr>
            in s\<lparr>invalidated := virtual_addr # invalidated s\<rparr>))"

definition paging_get_physical_address :: "u32 \<Rightarrow> u32 \<Rightarrow> 'a paging_st_scheme \<Rightarrow> u32" where
  "paging_get_physical_address dir virtual_addr s =
     (let dir_index = paging_directory_index virtual_addr;
          table_index = paging_table_index virtual_addr;
          offset = paging_page_offset virtual_addr;
          pde = read32 (mem s) (entry_addr dir dir_index)
      in if \<not> paging_is_present pde then 0
         else
           (let page_table = paging_get_address pde;
                pte = read32 (mem s) (entry_addr page_table table_index)
            in if \<not> paging_is_present pte then 0
               else paging_get_address pte + offset))"

definition paging_load_directory :: "u32 \<Rightarrow> 'a paging_st_scheme \<Rightarrow> 'a paging_st_scheme" where
  "paging_load_directory page_directory_physical s = s\<lparr>cr3 := page_directory_physical\<rparr>"

definition paging_enable_hw :: "'a paging_st_scheme \<Rightarrow> 'a paging_st_scheme" where
  "paging_enable_hw s = s\<lparr>cr0 := cr0 s OR 0x80000000\<rparr>"

definition paging_init :: "'a paging_st_scheme \<Rightarrow> 'a paging_st_scheme option" where
  "paging_init s = do {
     let s = kinfo ''Initializing Virtual Memory (Paging)'' [] s;
     (dir, s) \<leftarrow> kmalloc 4096 s;
     let s = s\<lparr>kernel_directory := dir\<rparr>;
     if kernel_directory s = 0
     then Some (kerror ''Failed to allocate kernel page directory!'' [] s)
     else do {
       let s = s\<lparr>mem := clear_loop PAGE_ENTRIES (kernel_directory s) (mem s)\<rparr>;
       let s = kprintk (''  Kernel page directory allocated at: %p'' @ [CHR 0x0A])
                 [VInt (kernel_directory s)] s;
       let s = kprintk (''  Identity mapping first 16MB (kernel + user space)...'' @ [CHR 0x0A]) [] s;
       s \<leftarrow> paging_identity_map (kernel_directory s) 0 0x01000000 (PAGE_PRESENT OR PAGE_WRITE OR PAGE_USER) s;
       let s = kprintk (''  Mapping VGA text buffer (0xB8000)...'' @ [CHR 0x0A]) [] s;
       s \<leftarrow> paging_map_page (kernel_directory s) 0xB8000 0xB8000 (PAGE_PRESENT OR PAGE_WRITE) s;
       let s = s\<lparr>current_directory := kernel_directory s\<rparr>;
       let s = kprintk (''  [OK] Page tables configured'' @ [CHR 0x0A]) [] s;
       Some (kprintk (''  [OK] Identity mapping complete'' @ [CHR 0x0A]) [] s) } }"

definition paging_enable :: "'a paging_st_scheme \<Rightarrow> 'a paging_st_scheme" where
  "paging_enable s =
     (if kernel_directory s = 0
      then kerror ''Cannot enable paging: kernel directory not initialized!'' [] s
      else
        (let s = kinfo ''Enabling hardware paging...'' [] s;
             pd_physical = kernel_directory s;
             s = kprintk (''  Loading page directory (CR3 = 0x%08X)'' @ [CHR 0x0A]) [VInt pd_physical] s;
             s = paging_load_directory pd_physical s;
             s = paging_enable_hw s
         in kprintk (''  [OK] Paging enabled! Virtual memory active.'' @ [CHR 0x0A]) [] s))"

definition paging_get_current_directory :: "'a paging_st_scheme \<Rightarrow> u32" where
  "paging_get_current_directory s = current_directory s"

definition paging_switch_directory :: "u32 \<Rightarrow> 'a paging_st_scheme \<Rightarrow> 'a paging_st_scheme" where
  "paging_switch_directory dir s = paging_load_directory dir (s\<lparr>current_directory := dir\<rparr>)"

text \<open>The handler of a page fault prints and stops the processor for good: interrupts off,
  halted. \<open>cr2\<close> is the faulting address the processor reports.\<close>

definition page_fault_handler :: "u32 \<Rightarrow> 'a paging_st_scheme \<Rightarrow> 'a paging_st_scheme" where
  "page_fault_handler cr2 s =
     (let s = kerror ''Page Fault!'' [] s;
          s = kprintk (''  Faulting address: 0x%08X'' @ [CHR 0x0A]) [VInt cr2] s;
          s = kprintk (''  This means the address is not mapped or access was denied.'' @ [CHR 0x0A]) [] s
      in s\<lparr>interrupt_flag := False, halted := True\<rparr>)"

end
