(* ===== verification/Paging_Theorems.thy ===== *)
theory Paging_Theorems
  imports Paging
begin

text \<open>
  What mapping, unmapping and identity-mapping do to the translation of every virtual
  address, the agreement of the code's lookup with the processor's table walk, and what
  goes wrong when the allocator places a table off a page boundary.
\<close>

section \<open>Entries\<close>

lemma high_mask: "(0xFFFFF000 :: u32) = NOT (mask 12)" "(0xFFF :: u32) = mask 12" "(0x3FF :: u32) = mask 10"
  by (simp_all add: mask_eq_exp_minus_1)

lemma get_address_create:
  "paging_get_address (paging_create_pte pa fl) = pa AND 0xFFFFF000"
  "paging_get_address (paging_create_pde pa fl) = pa AND 0xFFFFF000"
  "paging_get_flags (paging_create_pte pa fl) = fl AND 0xFFF"
  unfolding paging_get_address_def paging_create_pte_def paging_create_pde_def paging_get_flags_def high_mask
  by (rule bit_word_eqI; auto simp: bit_simps)+

lemma present_bit: "paging_is_present e \<longleftrightarrow> bit e 0"
proof -
  have "e AND 1 \<noteq> 0 \<longleftrightarrow> odd e" by (simp add: and_one_eq odd_iff_mod_2_eq_one)
  then show ?thesis by (simp add: paging_is_present_def PAGE_PRESENT_def bit_0)
qed

lemma present_create [simp]: "paging_is_present (paging_create_pte pa (PAGE_PRESENT OR fl))"
  by (simp add: present_bit paging_create_pte_def PAGE_PRESENT_def bit_simps)

lemma present_create_pde [simp]: "paging_is_present (paging_create_pde pa (PAGE_PRESENT OR PAGE_WRITE OR fl))"
  by (simp add: present_bit paging_create_pde_def PAGE_PRESENT_def bit_simps)

lemma not_present_0 [simp]: "\<not> paging_is_present 0"
  by (simp add: paging_is_present_def)

lemma index_bounds: "unat (paging_directory_index va) < 1024" "unat (paging_table_index va) < 1024"
  "unat (paging_page_offset va) < 4096"
proof -
  have "unat (x AND mask n :: u32) < 2 ^ n" if "n \<le> 12" for x n
    using that by (simp add: take_bit_eq_mask [symmetric] unsigned_take_bit_eq)
  from this [of 10] this [of 12]
  show "unat (paging_directory_index va) < 1024" "unat (paging_table_index va) < 1024"
    "unat (paging_page_offset va) < 4096"
    unfolding paging_directory_index_def paging_table_index_def paging_page_offset_def high_mask by simp_all
qed

lemma unat_get_address: "unat (paging_get_address e) = unat e div 4096 * 4096"
  unfolding paging_get_address_def high_mask unat_and_not_mask by simp

lemma get_address_fits: "unat (paging_get_address e) + 4096 \<le> 2 ^ 32" "4096 dvd unat (paging_get_address e)"
proof -
  have "unat e div 4096 < 2 ^ 20" using unat_lt32 [of e] by (simp add: less_mult_imp_div_less)
  then show "unat (paging_get_address e) + 4096 \<le> 2 ^ 32" unfolding unat_get_address by simp
qed (simp add: unat_get_address)

lemma unat_entry_addr:
  assumes "unat table + 4096 \<le> 2 ^ 32" "unat i < 1024"
  shows "unat (entry_addr table i) = unat table + 4 * unat i"
proof -
  have "unat (4 * i) = 4 * unat i" using assms(2) by (subst unat_mult_lem [THEN iffD1]) simp_all
  then show ?thesis unfolding entry_addr_def
    using assms by (subst unat_plus_no_wrap) simp_all
qed

text \<open>Two virtual addresses lie in the same page when their two indices agree.\<close>

lemma same_page_iff:
  "va AND 0xFFFFF000 = va' AND 0xFFFFF000 \<longleftrightarrow>
     paging_directory_index va = paging_directory_index va' \<and> paging_table_index va = paging_table_index va'"
  (is "?l = ?r")
proof
  assume l: ?l
  have b: "bit va n = bit va' n" if "12 \<le> n" "n < 32" for n
  proof -
    have "bit (va AND NOT (mask 12)) n = bit (va' AND NOT (mask 12)) n"
      using l unfolding high_mask by simp
    then show ?thesis using that by (simp add: bit_simps)
  qed
  show ?r
    unfolding paging_directory_index_def paging_table_index_def high_mask
    by (auto intro!: bit_word_eqI simp: bit_simps b)
next
  assume r: ?r
  have "bit va n = bit va' n" if n: "12 \<le> n" "n < 32" for n
  proof (cases "n < 22")
    case True
    have "bit (paging_table_index va) (n - 12) = bit (paging_table_index va') (n - 12)" using r by simp
    moreover have "n - 12 < 10" "n - 12 < 32" using n True by arith+
    ultimately show ?thesis using n by (simp add: paging_table_index_def high_mask bit_simps)
  next
    case False
    have "bit (paging_directory_index va) (n - 22) = bit (paging_directory_index va') (n - 22)" using r by simp
    moreover have "n - 22 < 10" "n - 22 < 32" using n False by arith+
    ultimately show ?thesis using n False by (simp add: paging_directory_index_def high_mask bit_simps)
  qed
  then show ?l unfolding high_mask by (auto intro!: bit_word_eqI simp: bit_simps)
qed

lemma page_split: "(va AND 0xFFFFF000) + paging_page_offset va = va"
proof -
  have "(va AND NOT (mask 12)) AND (va AND mask 12) = 0"
    by (rule bit_word_eqI) (auto simp: bit_simps)
  moreover have "(va AND NOT (mask 12)) OR (va AND mask 12) = va"
    by (rule bit_word_eqI) (auto simp: bit_simps)
  ultimately show ?thesis
    unfolding paging_page_offset_def high_mask using word_plus_and_or [of "va AND NOT (mask 12)" "va AND mask 12"]
    by simp
qed

section \<open>The processor's table walk\<close>

text \<open>The walk of the i386 for 4 KB pages: it ignores the low twelve bits of CR3.\<close>

definition mmu_walk :: "bytemem \<Rightarrow> u32 \<Rightarrow> u32 \<Rightarrow> u32 option" where
  "mmu_walk m base va =
     (let pde = read32 m ((base AND NOT 0xFFF) + 4 * drop_bit 22 va)
      in if \<not> bit pde 0 then None
         else
           (let pte = read32 m ((pde AND NOT 0xFFF) + 4 * (drop_bit 12 va AND 0x3FF))
            in if \<not> bit pte 0 then None else Some ((pte AND NOT 0xFFF) OR (va AND 0xFFF))))"

lemma get_physical_is_walk:
  assumes "dir AND 0xFFF = 0"
  shows "paging_get_physical_address dir va s = (case mmu_walk (mem s) dir va of None \<Rightarrow> 0 | Some pa \<Rightarrow> pa)"
proof -
  have di: "paging_directory_index va = drop_bit 22 va"
    unfolding paging_directory_index_def high_mask by (rule bit_word_eqI) (auto simp: bit_simps dest: bit_imp_le_length)
  have dir: "dir AND NOT 0xFFF = dir"
  proof (rule bit_word_eqI)
    fix n assume "n < LENGTH(32)"
    have "\<not> bit (dir AND 0xFFF) n" using assms by simp
    then show "bit (dir AND NOT 0xFFF) n = bit dir n"
      unfolding high_mask using \<open>n < LENGTH(32)\<close> by (auto simp: bit_simps)
  qed
  have add: "(e AND NOT 0xFFF) + (va AND 0xFFF) = (e AND NOT 0xFFF) OR (va AND 0xFFF)" for e :: u32
  proof -
    have "(e AND NOT (mask 12)) AND (va AND mask 12) = 0" by (rule bit_word_eqI) (auto simp: bit_simps)
    then show ?thesis
      unfolding high_mask using word_plus_and_or [of "e AND NOT (mask 12)" "va AND mask 12"] by simp
  qed
  have hi: "paging_get_address e = e AND NOT 0xFFF" for e
    unfolding paging_get_address_def high_mask ..
  show ?thesis
    unfolding paging_get_physical_address_def mmu_walk_def Let_def entry_addr_def di dir hi present_bit
      paging_page_offset_def paging_table_index_def add
    by simp
qed

section \<open>Mapping\<close>

text \<open>
  Where the tables are usable: the directory lies below the top of memory, no present
  entry's table overlaps it, and no two entries share a table.
\<close>

definition pde_of :: "bytemem \<Rightarrow> u32 \<Rightarrow> u32 \<Rightarrow> u32" where
  "pde_of m dir va = read32 m (entry_addr dir (paging_directory_index va))"

definition tables_ok :: "bytemem \<Rightarrow> u32 \<Rightarrow> bool" where
  "tables_ok m dir \<longleftrightarrow> unat dir + 4096 \<le> 2 ^ 32 \<and>
     (\<forall>va. paging_is_present (pde_of m dir va) \<longrightarrow>
        unat (paging_get_address (pde_of m dir va)) + 4096 \<le> unat dir \<or>
        unat dir + 4096 \<le> unat (paging_get_address (pde_of m dir va))) \<and>
     (\<forall>va va'. paging_is_present (pde_of m dir va) \<longrightarrow> paging_is_present (pde_of m dir va') \<longrightarrow>
        paging_get_address (pde_of m dir va) = paging_get_address (pde_of m dir va') \<longrightarrow>
        paging_directory_index va = paging_directory_index va')"

definition pte_addr :: "bytemem \<Rightarrow> u32 \<Rightarrow> u32 \<Rightarrow> u32" where
  "pte_addr m dir va = entry_addr (paging_get_address (pde_of m dir va)) (paging_table_index va)"

lemma get_physical_eq:
  "paging_get_physical_address dir va s =
     (if paging_is_present (pde_of (mem s) dir va) \<and> paging_is_present (read32 (mem s) (pte_addr (mem s) dir va))
      then paging_get_address (read32 (mem s) (pte_addr (mem s) dir va)) + paging_page_offset va else 0)"
  by (simp add: paging_get_physical_address_def Let_def pde_of_def pte_addr_def)

lemma apart_entries:
  assumes "unat t + 4096 \<le> 2 ^ 32" "unat t' + 4096 \<le> 2 ^ 32" "unat i < 1024" "unat j < 1024"
    "unat t + 4096 \<le> unat t' \<or> unat t' + 4096 \<le> unat t \<or> t = t' \<and> i \<noteq> j"
  shows "apart 4 (entry_addr t i) 4 (entry_addr t' j)"
proof -
  have "i = j \<longleftrightarrow> unat i = unat j" by (simp add: word_unat_eq_iff)
  then show ?thesis
    using assms by (auto simp: apart_def unat_entry_addr)
qed

lemma pages_apart:
  assumes "4096 dvd a" "4096 dvd b" "a \<noteq> (b :: nat)"
  shows "a + 4096 \<le> b \<or> b + 4096 \<le> a"
  using assms by (auto elim!: dvdE)

text \<open>A store to a table entry leaves the directory, and every entry of another page, alone.\<close>

lemma table_store:
  fixes v :: u32
  assumes ok: "tables_ok m dir" and pr: "paging_is_present (pde_of m dir va)"
  defines "m' \<equiv> write32 m (pte_addr m dir va) v"
  shows "pde_of m' dir va' = pde_of m dir va'" "pte_addr m' dir va' = pte_addr m dir va'"
    "read32 m' (pte_addr m dir va) = v"
    "paging_is_present (pde_of m dir va') \<Longrightarrow> va AND 0xFFFFF000 \<noteq> va' AND 0xFFFFF000 \<Longrightarrow>
       read32 m' (pte_addr m dir va') = read32 m (pte_addr m dir va')"
proof -
  let ?t = "\<lambda>va. paging_get_address (pde_of m dir va)"
  have "apart 4 (pte_addr m dir va) 4 (entry_addr dir (paging_directory_index va'))"
    unfolding pte_addr_def
    by (rule apart_entries) (use ok pr get_address_fits index_bounds in \<open>auto simp: tables_ok_def\<close>)
  then show pde: "pde_of m' dir va' = pde_of m dir va'" by (simp add: pde_of_def m'_def)
  then show "pte_addr m' dir va' = pte_addr m dir va'" by (simp add: pte_addr_def)
  show "read32 m' (pte_addr m dir va) = v" by (simp add: m'_def)
  assume pr': "paging_is_present (pde_of m dir va')" and ne: "va AND 0xFFFFF000 \<noteq> va' AND 0xFFFFF000"
  have "unat (?t va) + 4096 \<le> unat (?t va') \<or> unat (?t va') + 4096 \<le> unat (?t va) \<or>
      ?t va = ?t va' \<and> paging_table_index va \<noteq> paging_table_index va'"
  proof (cases "?t va = ?t va'")
    case True
    then have "paging_directory_index va = paging_directory_index va'"
      using ok pr pr' unfolding tables_ok_def by blast
    then show ?thesis using ne True same_page_iff [of va va'] by blast
  next
    case False
    then have "unat (?t va) \<noteq> unat (?t va')" by (simp add: word_unat_eq_iff)
    then show ?thesis using pages_apart get_address_fits(2) by blast
  qed
  then have "apart 4 (pte_addr m dir va) 4 (pte_addr m dir va')"
    unfolding pte_addr_def by (intro apart_entries get_address_fits index_bounds)
  then show "read32 m' (pte_addr m dir va') = read32 m (pte_addr m dir va')" by (simp add: m'_def)
qed

lemma tables_ok_store:
  assumes "tables_ok m dir" "paging_is_present (pde_of m dir va)"
  shows "tables_ok (write32 m (pte_addr m dir va) v) dir"
proof -
  have "pde_of (write32 m (pte_addr m dir va) v) dir = pde_of m dir"
    by (rule ext) (rule table_store(1) [OF assms])
  from assms(1) show ?thesis unfolding tables_ok_def \<open>pde_of (write32 m (pte_addr m dir va) v) dir = pde_of m dir\<close> .
qed

lemma map_page_present:
  assumes "paging_is_present (pde_of (mem s) dir va)"
  shows "paging_map_page dir va pa flags s = Some (s\<lparr>mem := write32 (mem s) (pte_addr (mem s) dir va)
     (paging_create_pte pa (PAGE_PRESENT OR flags))\<rparr>)"
  using assms by (simp add: paging_map_page_def Let_def pte_addr_def pde_of_def)

lemma get_physical_store:
  assumes ok: "tables_ok (mem s) dir" and pr: "paging_is_present (pde_of (mem s) dir va)"
  shows "paging_get_physical_address dir va' (s\<lparr>mem := write32 (mem s) (pte_addr (mem s) dir va) v\<rparr>) =
    (if va' AND 0xFFFFF000 = va AND 0xFFFFF000
     then (if paging_is_present v then paging_get_address v + paging_page_offset va' else 0)
     else paging_get_physical_address dir va' s)"
proof (cases "va' AND 0xFFFFF000 = va AND 0xFFFFF000")
  case True
  then have "pde_of (mem s) dir va' = pde_of (mem s) dir va" "pte_addr (mem s) dir va' = pte_addr (mem s) dir va"
    using same_page_iff [of va' va] by (simp_all add: pde_of_def pte_addr_def)
  then show ?thesis
    using True pr table_store(1,2) [OF ok pr, where va' = va' and v = v] table_store(3) [OF ok pr, where v = v] by (simp add: get_physical_eq)
next
  case False
  then show ?thesis
    using table_store(1,2,4) [OF ok pr, where va' = va' and v = v] by (auto simp: get_physical_eq)
qed

section \<open>Clearing a table\<close>

lemma write32_zero_byte:
  assumes "unat a + 4 \<le> 2 ^ 32"
  shows "write32 m a 0 x = (if unat a \<le> unat x \<and> unat x < unat a + 4 then 0 else m x)"
proof (cases "unat a \<le> unat x \<and> unat x < unat a + 4")
  case True
  then obtain j where j: "unat x = unat a + j" "j < 4" by (metis add_less_cancel_left le_iff_add)
  then have "x = a + of_nat j"
    using assms by (simp add: word_unat_eq_iff unat_offset)
  then have "write32 m a 0 x = 0"
    using j(2) by (auto simp: write32_def less_Suc_eq numeral_eq_Suc)
  then show ?thesis using True by simp
next
  case False
  have "x \<noteq> a + of_nat j" if "j < 4" for j :: nat
    using False assms that unat_offset [of a j] by auto
  then have "write32 m a 0 x = m x" by (rule write32_outside)
  then show ?thesis unfolding if_not_P [OF False] .
qed

lemma clear_loop_bytes:
  assumes "unat p + 4096 \<le> 2 ^ 32" "n \<le> 1024"
  shows "clear_loop n p m x =
    (if unat p + 4 * (1024 - n) \<le> unat x \<and> unat x < unat p + 4096 then 0 else m x)"
  using assms
proof (induction n arbitrary: m)
  case (Suc n)
  define i where "i = 1024 - Suc n"
  have i: "i < 1024" "1024 - n = Suc i" using Suc.prems by (simp_all add: i_def)
  have ui: "unat (of_nat i :: u32) = i" using i by simp
  have a: "unat (entry_addr p (of_nat i)) = unat p + 4 * i"
    using unat_entry_addr [OF Suc.prems(1), of "of_nat i"] i ui by simp
  have step: "clear_loop (Suc n) p m = clear_loop n p (write32 m (entry_addr p (of_nat i)) 0)"
    unfolding clear_loop.simps PAGE_ENTRIES_def i_def ..
  have b: "unat (entry_addr p (of_nat i)) + 4 \<le> 2 ^ 32" using a i Suc.prems(1) by simp
  show ?case
    using Suc.IH [of "write32 m (entry_addr p (of_nat i)) 0"] Suc.prems i
      write32_zero_byte [OF b, of m x]
    unfolding step i_def [symmetric] a by (auto simp del: of_nat_diff)
qed auto

lemma clear_loop_word:
  assumes "unat p + 4096 \<le> 2 ^ 32" "unat p \<le> unat a" "unat a + 4 \<le> unat p + 4096"
  shows "read32 (clear_loop PAGE_ENTRIES p m) a = 0"
proof -
  have "clear_loop PAGE_ENTRIES p m (a + of_nat j) = 0" if "j < 4" for j :: nat
  proof -
    have "unat (a + of_nat j) = unat a + j" using assms that by (intro unat_offset) linarith
    then show ?thesis using assms that by (simp add: PAGE_ENTRIES_def clear_loop_bytes)
  qed
  from this [of 0] this [of 1] this [of 2] this [of 3] show ?thesis by (simp add: read32_def)
qed

section \<open>Properties\<close>

lemma paging_frame [simp]:
  "mem (kprintk fmt args s) = mem s" "mem (kinfo fmt args s) = mem s" "mem (kerror fmt args s) = mem s"
  by (simp_all add: kout_defs)

text \<open>A directory with one table, for the witnesses.\<close>

definition boot_paging :: paging_st where
  "boot_paging = memory_init (memory_st.extend boot_memory (paging_st.fields 0 0 0 0 [] False False))"

definition one_table :: bytemem where
  "one_table = write32 (\<lambda>_. 0) 0x10000 0x20003"

lemma one_table_pde:
  "pde_of one_table 0x10000 va = (if paging_directory_index va = 0 then 0x20003 else 0)"
proof (cases "paging_directory_index va = 0")
  case True
  then show ?thesis by (simp add: pde_of_def one_table_def entry_addr_def)
next
  case False
  then have "apart 4 (entry_addr 0x10000 0) 4 (entry_addr 0x10000 (paging_directory_index va))"
    by (intro apart_entries) (use index_bounds(1) [of va] in auto)
  then have "apart 4 0x10000 4 (entry_addr 0x10000 (paging_directory_index va))"
    by (simp add: entry_addr_def)
  then show ?thesis using False by (simp add: pde_of_def one_table_def) (simp add: read32_def)
qed

lemma one_table_ok: "tables_ok one_table 0x10000"
proof -
  have "unat (paging_get_address 0x20003) = 0x20000" by (simp add: unat_get_address)
  then show ?thesis by (auto simp: tables_ok_def one_table_pde)
qed

lemma one_table_present: "paging_directory_index va = 0 \<Longrightarrow> paging_is_present (pde_of one_table 0x10000 va)"
  by (simp add: one_table_pde paging_is_present_def PAGE_PRESENT_def)



text \<open>Fact (functional): an unmapped page translates to 0 (not mapped), the rest as before.\<close>

theorem unmap_page_translates:
  assumes "tables_ok (mem s) dir"
  shows "paging_get_physical_address dir va' (paging_unmap_page dir va s) =
    (if va' AND 0xFFFFF000 = va AND 0xFFFFF000 then 0 else paging_get_physical_address dir va' s)"
proof (cases "paging_is_present (pde_of (mem s) dir va)")
  case True
  have "paging_get_physical_address dir va' (s\<lparr>mem := m, invalidated := l\<rparr>) =
    paging_get_physical_address dir va' (s\<lparr>mem := m\<rparr>)" for m l
    by (simp add: get_physical_eq)
  then show ?thesis
    using True get_physical_store [OF assms True, of va' 0]
    by (simp add: paging_unmap_page_def Let_def pde_of_def pte_addr_def)
next
  case False
  then have "paging_unmap_page dir va s = s" by (simp add: paging_unmap_page_def Let_def pde_of_def)
  moreover have "paging_get_physical_address dir va' s = 0" if "va' AND 0xFFFFF000 = va AND 0xFFFFF000"
    using False that same_page_iff [of va' va] by (simp add: get_physical_eq pde_of_def)
  ultimately show ?thesis by simp
qed

theorem unmap_page_translates_witness:
  "paging_get_physical_address 0x10000 0x3ABC
     (paging_unmap_page 0x10000 0x3000 (boot_paging\<lparr>mem := one_table\<rparr>)) = 0"
  using unmap_page_translates [of "boot_paging\<lparr>mem := one_table\<rparr>" "0x10000" "0x3ABC" "0x3000"]
    one_table_ok by simp

text \<open>One page mapped to itself.\<close>

lemma identity_page:
  assumes t: "tables_ok (mem s) dir" and pr: "paging_is_present (pde_of (mem s) dir addr)"
    and a: "4096 dvd unat addr" "unat addr + 4096 < 2 ^ 32"
  shows "\<exists>s'. paging_map_page dir addr addr flags s = Some s' \<and> tables_ok (mem s') dir \<and>
    (\<forall>va. pde_of (mem s') dir va = pde_of (mem s) dir va) \<and>
    (\<forall>va. paging_get_physical_address dir va s' =
      (if addr \<le> va \<and> va < addr + PAGE_SIZE then va else paging_get_physical_address dir va s))"
proof -
  have page: "unat (addr + PAGE_SIZE) = unat addr + 4096"
    using a(2) by (subst unat_plus_no_wrap) (simp_all add: PAGE_SIZE_def)
  obtain s' where s': "paging_map_page dir addr addr flags s = Some s'" "tables_ok (mem s') dir"
    "\<And>va. paging_get_physical_address dir va s' =
      (if va AND 0xFFFFF000 = addr AND 0xFFFFF000 then (addr AND 0xFFFFF000) + paging_page_offset va
       else paging_get_physical_address dir va s)"
    using map_page_present [OF pr] get_physical_store [OF t pr] tables_ok_store [OF t pr] by (simp add: get_address_create)
  have pde: "pde_of (mem s') dir va = pde_of (mem s) dir va" for va
    using s'(1) map_page_present [OF pr, of addr flags] table_store(1) [OF t pr] by auto
  have base: "addr AND 0xFFFFF000 = addr"
    using a(1) unat_and_not_mask [of addr 12] by (simp add: high_mask word_unat_eq_iff)
  have inside: "va AND 0xFFFFF000 = addr \<longleftrightarrow> addr \<le> va \<and> va < addr + PAGE_SIZE" for va
  proof -
    have "va AND 0xFFFFF000 = addr \<longleftrightarrow> unat va div 4096 * 4096 = unat addr"
      using unat_and_not_mask [of va 12] by (simp add: high_mask word_unat_eq_iff)
    also have "\<dots> \<longleftrightarrow> unat addr \<le> unat va \<and> unat va < unat addr + 4096"
      using a(1) by (auto elim!: dvdE)
    finally show ?thesis by (simp add: word_le_nat_alt word_less_nat_alt page)
  qed
  have "paging_get_physical_address dir va s' =
      (if addr \<le> va \<and> va < addr + PAGE_SIZE then va else paging_get_physical_address dir va s)" for va
  proof (cases "va AND 0xFFFFF000 = addr")
    case True
    then have "addr + paging_page_offset va = va" using page_split [of va] by simp
    moreover have "addr \<le> va \<and> va < addr + PAGE_SIZE" using True inside by blast
    ultimately show ?thesis using True by (simp only: s'(3) base if_True simp_thms)
  next
    case False
    then have "\<not> (addr \<le> va \<and> va < addr + PAGE_SIZE)" using inside by blast
    then show ?thesis using False by (simp only: s'(3) base if_False)
  qed
  then show ?thesis using s'(1,2) pde by blast
qed

lemma identity_loop_maps:
  assumes "tables_ok (mem s) dir" "unat addr + 4096 * n = unat e" "4096 dvd unat addr" "unat e + 4096 \<le> 2 ^ 32"
    "\<And>va. addr \<le> va \<Longrightarrow> va < e \<Longrightarrow> paging_is_present (pde_of (mem s) dir va)"
  shows "\<exists>s'. identity_loop dir addr e flags s = Some s' \<and> tables_ok (mem s') dir \<and>
    (\<forall>va. paging_get_physical_address dir va s' =
      (if addr \<le> va \<and> va < e then va else paging_get_physical_address dir va s))"
  using assms
proof (induction n arbitrary: addr s)
  case 0
  then have "e = addr" by (simp add: word_unat_eq_iff)
  then show ?case using 0 by (subst identity_loop.simps) auto
next
  case (Suc n)
  have lt: "addr < e" "unat addr + 4096 < 2 ^ 32" using Suc.prems(2,4) by (simp_all add: word_less_nat_alt)
  have page: "unat (addr + PAGE_SIZE) = unat addr + 4096"
    using lt(2) by (subst unat_plus_no_wrap) (simp_all add: PAGE_SIZE_def)
  have "paging_is_present (pde_of (mem s) dir addr)" using Suc.prems(5) lt by simp
  from identity_page [OF Suc.prems(1) this Suc.prems(3) lt(2)] obtain s1 where s1: "paging_map_page dir addr addr flags s = Some s1"
    "tables_ok (mem s1) dir" "\<And>va. pde_of (mem s1) dir va = pde_of (mem s) dir va"
    "\<And>va. paging_get_physical_address dir va s1 =
      (if addr \<le> va \<and> va < addr + PAGE_SIZE then va else paging_get_physical_address dir va s)" by blast
  have pr: "paging_is_present (pde_of (mem s1) dir va)" if "addr + PAGE_SIZE \<le> va" "va < e" for va
    using that Suc.prems(5) [of va] page by (simp add: s1(3) word_le_nat_alt)
  have "unat (addr + PAGE_SIZE) + 4096 * n = unat e" "4096 dvd unat (addr + PAGE_SIZE)"
    using Suc.prems(2,3) page by simp_all
  from Suc.IH [OF s1(2) this Suc.prems(4) pr] obtain s' where s': "identity_loop dir (addr + PAGE_SIZE) e flags s1 = Some s'"
    "tables_ok (mem s') dir" "\<And>va. paging_get_physical_address dir va s' =
      (if addr + PAGE_SIZE \<le> va \<and> va < e then va else paging_get_physical_address dir va s1)" by blast
  have le: "addr + PAGE_SIZE \<le> e" using Suc.prems(2) by (simp add: word_le_nat_alt page)
  have "paging_get_physical_address dir va s' =
      (if addr \<le> va \<and> va < e then va else paging_get_physical_address dir va s)" for va
  proof (cases "addr + PAGE_SIZE \<le> va")
    case True
    then have "addr \<le> va" "\<not> va < addr + PAGE_SIZE" using page by (simp_all add: word_le_nat_alt word_less_nat_alt)
    then show ?thesis using True by (simp add: s'(3) s1(4))
  next
    case False
    then have "va < e" "va < addr + PAGE_SIZE" using le by simp_all
    then show ?thesis using False by (simp add: s'(3) s1(4))
  qed
  then show ?case using s1(1) s'(1,2) lt by (subst identity_loop.simps) auto
qed



text \<open>Fact (equivalence): for a page-aligned directory, \<open>paging_get_physical_address\<close> is the processor's
  own table walk, 0 standing for a page fault.\<close>

theorem get_physical_matches_walk:
  assumes "dir AND 0xFFF = 0"
  shows "paging_get_physical_address dir va s =
    (case mmu_walk (mem s) dir va of None \<Rightarrow> 0 | Some pa \<Rightarrow> pa)"
  by (rule get_physical_is_walk [OF assms])

theorem get_physical_matches_walk_witness:
  "mmu_walk one_table 0x10000 0x3ABC = None \<and>
    paging_get_physical_address 0x10000 0x3ABC (boot_paging\<lparr>mem := one_table\<rparr>) = 0"
proof -
  have "mmu_walk one_table 0x10000 0x3ABC = None" by code_simp
  then show ?thesis
    using get_physical_matches_walk [of "0x10000" "0x3ABC" "boot_paging\<lparr>mem := one_table\<rparr>"] by simp
qed

text \<open>Fact (error): a page table that \<open>kmalloc\<close> places off a page boundary is entered in the
  directory at the boundary below, and the entry written through the pointer is not the one
  the translation reads: the page just mapped is not mapped.\<close>

theorem map_page_misaligned_table:
  assumes held: "held s P" "P dir = Some 4096" and absent: "\<not> paging_is_present (pde_of (mem s) dir va)"
    and km: "kmalloc 4096 s = Some (p, s1)" "p \<noteq> 0"
    and off: "4 \<le> unat p mod 4096" "unat p mod 4096 \<le> 4 * unat (paging_table_index va)"
  shows "\<exists>s'. paging_map_page dir va pa flags s = Some s' \<and> paging_get_physical_address dir va s' = 0"
proof -
  have sane: "sane_size 4096" by (simp add: sane_size_def)
  have h1: "held s1 (P(p \<mapsto> 4096))" by (rule kheap.alloc_inv [OF held(1) sane km])
  have pd: "P p = None" by (rule kheap.alloc_fresh [OF held(1) sane km])
  then have ne: "dir \<noteq> p" using held(2) by auto
  have Q: "(P(p \<mapsto> 4096)) dir = Some 4096" "(P(p \<mapsto> 4096)) p = Some 4096" using held(2) ne by simp_all
  have disj: "unat dir + 4096 \<le> unat p \<or> unat p + 4096 \<le> unat dir"
    using disjoint_intervals [of "unat dir" 4096 "unat p" 4096] kheap.disjoint [OF h1 Q ne] by auto
  obtain bs where inv: "heap_inv s1 (P(p \<mapsto> 4096)) bs" using h1 by (auto simp: held_def)
  have top: "unat dir + 4096 \<le> 2 ^ 32" "unat p + 4096 \<le> 2 ^ 32"
    using heap_inv_range [OF inv Q(1)] heap_inv_range [OF inv Q(2)] by simp_all
  define r where "r = unat p mod 4096"
  define ti where "ti = paging_table_index va"
  define pde where "pde = entry_addr dir (paging_directory_index va)"
  define e where "e = paging_create_pde p (PAGE_PRESENT OR PAGE_WRITE OR flags)"
  define t where "t = paging_get_address e"
  define m2 where "m2 = clear_loop PAGE_ENTRIES p (mem s1)"
  define m4 where "m4 = write32 (write32 m2 pde e) (entry_addr p ti) (paging_create_pte pa (PAGE_PRESENT OR flags))"
  have ut: "unat t + r = unat p"
    unfolding t_def e_def get_address_create high_mask unat_and_not_mask r_def by (simp add: div_mult_mod_eq)
  have slot: "unat (entry_addr t ti) = unat p - r + 4 * unat ti" "unat (entry_addr p ti) = unat p + 4 * unat ti"
    using unat_entry_addr [of t ti] unat_entry_addr [of p ti] index_bounds(2) [of va] top ut
    by (simp_all add: ti_def)
  have upde: "unat dir \<le> unat pde" "unat pde + 4 \<le> unat dir + 4096"
    using unat_entry_addr [OF top(1) index_bounds(1) [of va]] index_bounds(1) [of va] by (simp_all add: pde_def)
  have ti: "4 * unat ti + 4 \<le> 4096" "r \<le> 4 * unat ti" "4 \<le> r" "r \<le> unat p"
    using index_bounds(2) [of va] off ut by (simp_all add: ti_def r_def)
  have "apart 4 (entry_addr p ti) 4 pde" "apart 4 (entry_addr p ti) 4 (entry_addr t ti)"
    "apart 4 pde 4 (entry_addr t ti)"
    using slot upde ti top disj by (auto simp: apart_def)
  then have "read32 m4 pde = e" "read32 m4 (entry_addr t ti) = read32 m2 (entry_addr t ti)"
    by (simp_all add: m4_def)
  moreover have "read32 m2 (entry_addr t ti) = 0"
    unfolding m2_def by (rule clear_loop_word [OF top(2)]) (use slot ti in linarith)+
  moreover have "paging_map_page dir va pa flags s = Some (s1\<lparr>mem := m4\<rparr>)"
    using absent km by (simp add: paging_map_page_def Let_def pde_of_def m4_def m2_def e_def pde_def ti_def)
  ultimately show ?thesis
    by (simp add: paging_get_physical_address_def Let_def t_def flip: pde_def ti_def)
qed

lemma boot_paging_rep:
  "heap_rep boot_paging [(0x3FFFF0, True)]" "heap_start boot_paging = 0x200000"
  "heap_inv boot_paging Map.empty [(0x3FFFF0, True)]"
  by (simp_all add: boot_paging_def memory_init_rep heap_inv_init)

text \<open>On the heap as it is at boot the directory and the first table are both misaligned, and
  mapping the VGA page is lost.\<close>

theorem map_page_misaligned_table_witness:
  "\<exists>s0 s'. kmalloc 4096 boot_paging = Some (0x200010, s0) \<and>
    paging_map_page 0x200010 0xB8000 0xB8000 3 (s0\<lparr>mem := memset 0x200010 0 4096 (mem s0)\<rparr>) = Some s' \<and>
    paging_get_physical_address 0x200010 0xB8000 s' = 0"
proof -
  obtain s0 where s0: "kmalloc 4096 boot_paging = Some (0x200010, s0)"
    "heap_rep s0 [(4096, False), (0x3FEFE0, True)]" "heap_step boot_paging s0"
    using kmalloc_refines_some [OF boot_paging_rep(1), of 4096] boot_paging_rep(2)
    by (auto simp: carve_def)
  define s where "s = s0\<lparr>mem := memset 0x200010 0 4096 (mem s0)\<rparr>"
  have st: "heap_start s0 = 0x200000" using heap_step_fields(1) [OF s0(3)] boot_paging_rep(2) by simp
  have rep: "heap_rep s [(4096, False), (0x3FEFE0, True)]"
    unfolding s_def
  proof (rule heap_rep_stores [OF s0(2)])
    fix y assume "y < 2 ^ 32" "y \<notin> live (unat (heap_start s0)) [(4096, False), (0x3FEFE0, True)]"
    then show "memset 0x200010 0 4096 (mem s0) (of_nat y) = mem s0 (of_nat y)"
      by (auto simp: memset_bytes st unat_sub_if_size word_size split: if_splits)
  qed
  obtain s1 where s1: "kmalloc 4096 s = Some (0x201020, s1)"
    using kmalloc_refines_some [OF rep, of 4096] st by (auto simp: carve_def s_def)
  obtain bs where "heap_inv s0 [0x200010 \<mapsto> 4096] bs"
    using heap_inv_alloc [OF boot_paging_rep(3) _ s0(1)] by auto
  then have "held s [0x200010 \<mapsto> 4096]"
    using heap_inv_memset [of s0 "[0x200010 \<mapsto> 4096]" bs "0x200010" 4096 0] by (auto simp: held_def s_def)
  moreover have "pde_of (mem s) 0x200010 0xB8000 = 0"
    by (simp add: pde_of_def entry_addr_def paging_directory_index_def read32_def s_def memset_bytes)
  moreover have "unat (paging_table_index 0xB8000) = 0xB8" by (simp add: paging_table_index_def)
  ultimately show ?thesis
    using map_page_misaligned_table [of s "[0x200010 \<mapsto> 4096]" "0x200010" "0xB8000" "0x201020" s1 "0xB8000" 3]
      s0(1) s1 by (auto simp: s_def)
qed

end
