(* ===== verification/Process.thy ===== *)
theory Process
  imports Paging_Theorems
begin

text \<open>
  Process management of \<^verbatim>\<open>src/kernel/process.c\<close>. The process table is a static array: a
  pointer to a process is the index of its slot, \<open>None\<close> the null pointer. Following a null
  pointer is undefined, the result \<open>None\<close>.
\<close>

section \<open>Data\<close>

datatype process_state_t =
    PROCESS_STATE_NEW | PROCESS_STATE_READY | PROCESS_STATE_RUNNING
  | PROCESS_STATE_BLOCKED | PROCESS_STATE_TERMINATED

datatype process_priority_t =
    PROCESS_PRIORITY_IDLE | PROCESS_PRIORITY_LOW | PROCESS_PRIORITY_NORMAL
  | PROCESS_PRIORITY_HIGH | PROCESS_PRIORITY_REALTIME

fun priority_num :: "process_priority_t \<Rightarrow> u32" where
  "priority_num PROCESS_PRIORITY_IDLE = 0"
| "priority_num PROCESS_PRIORITY_LOW = 1"
| "priority_num PROCESS_PRIORITY_NORMAL = 2"
| "priority_num PROCESS_PRIORITY_HIGH = 3"
| "priority_num PROCESS_PRIORITY_REALTIME = 4"

lemma priority_num_inject: "priority_num p = priority_num q \<Longrightarrow> p = q"
  by (cases p; cases q) simp_all

instantiation process_priority_t :: linorder
begin

definition less_eq_process_priority_t :: "process_priority_t \<Rightarrow> process_priority_t \<Rightarrow> bool" where
  "p \<le> q \<longleftrightarrow> priority_num p \<le> priority_num q"

definition less_process_priority_t :: "process_priority_t \<Rightarrow> process_priority_t \<Rightarrow> bool" where
  "p < q \<longleftrightarrow> priority_num p < priority_num q"

instance
  by standard (auto simp: less_eq_process_priority_t_def less_process_priority_t_def dest: priority_num_inject)

end

record registers_t =
  r_eax :: u32
  r_ebx :: u32
  r_ecx :: u32
  r_edx :: u32
  r_esi :: u32
  r_edi :: u32
  r_ebp :: u32
  r_esp :: u32
  r_ds :: u32
  r_es :: u32
  r_fs :: u32
  r_gs :: u32
  r_ss :: u32
  r_eip :: u32
  r_eflags :: u32
  r_cr3 :: u32

record process_t =
  p_pid :: u32
  p_name :: string
  p_state :: process_state_t
  p_priority :: process_priority_t
  p_quantum :: u32
  p_registers :: registers_t
  p_page_directory :: u32
  p_kernel_stack :: u32
  p_user_stack :: u32
  p_is_kernel :: u8
  p_parent :: "nat option"
  p_children :: "nat option list"
  p_num_children :: u32
  p_next :: "nat option"
  p_prev :: "nat option"
  p_time_created :: u32
  p_time_running :: u32
  p_context_switches :: u32
  p_exit_code :: u32

definition MAX_PROCESSES :: nat where "MAX_PROCESSES = 256"
definition KERNEL_STACK_SIZE :: u32 where "KERNEL_STACK_SIZE = 4096"

text \<open>\<open>process_stacks_at\<close> is the address the linker gives the array of stacks.\<close>

record process_st = paging_st +
  process_table :: "nat \<Rightarrow> process_t"
  current_process :: "nat option"
  next_pid :: u32
  stack_allocated :: "nat \<Rightarrow> bool"
  process_stacks_at :: u32

text \<open>A structure with all bytes zero.\<close>

definition zero_registers :: registers_t where
  "zero_registers = \<lparr>r_eax = 0, r_ebx = 0, r_ecx = 0, r_edx = 0, r_esi = 0, r_edi = 0, r_ebp = 0,
     r_esp = 0, r_ds = 0, r_es = 0, r_fs = 0, r_gs = 0, r_ss = 0, r_eip = 0, r_eflags = 0, r_cr3 = 0\<rparr>"

definition zero_process :: process_t where
  "zero_process = \<lparr>p_pid = 0, p_name = replicate 32 (CHR 0x00), p_state = PROCESS_STATE_NEW,
     p_priority = PROCESS_PRIORITY_IDLE, p_quantum = 0, p_registers = zero_registers,
     p_page_directory = 0, p_kernel_stack = 0, p_user_stack = 0, p_is_kernel = 0, p_parent = None,
     p_children = replicate 16 None, p_num_children = 0, p_next = None, p_prev = None,
     p_time_created = 0, p_time_running = 0, p_context_switches = 0, p_exit_code = 0\<rparr>"

definition upd_process :: "nat \<Rightarrow> (process_t \<Rightarrow> process_t) \<Rightarrow> 'a process_st_scheme \<Rightarrow> 'a process_st_scheme" where
  "upd_process i f s = s\<lparr>process_table := (process_table s)(i := f (process_table s i))\<rparr>"

section \<open>Strings\<close>

text \<open>A string argument is the list of its bytes before the terminating zero; a \<^verbatim>\<open>char\<close> array
  is the list of all its bytes, and \<open>cstr\<close> is the string it holds.\<close>

definition cstr :: "string \<Rightarrow> string" where
  "cstr = takeWhile (\<lambda>c. c \<noteq> CHR 0x00)"

function strncpy_copy :: "string \<Rightarrow> string \<Rightarrow> nat \<Rightarrow> nat \<Rightarrow> nat \<times> string" where
  "strncpy_copy dest src n i =
     (if i < n \<and> i < length src then strncpy_copy (dest[i := src ! i]) src n (i + 1) else (i, dest))"
  by pat_completeness auto
termination by (relation "measure (\<lambda>(dest, src, n, i). n - i)") auto

declare strncpy_copy.simps [simp del]

function strncpy_pad :: "string \<Rightarrow> nat \<Rightarrow> nat \<Rightarrow> string" where
  "strncpy_pad dest n i = (if i < n then strncpy_pad (dest[i := CHR 0x00]) n (i + 1) else dest)"
  by pat_completeness auto
termination by (relation "measure (\<lambda>(dest, n, i). n - i)") auto

declare strncpy_pad.simps [simp del]

definition strncpy_local :: "string \<Rightarrow> string \<Rightarrow> nat \<Rightarrow> string" where
  "strncpy_local dest src n = (let (i, dest) = strncpy_copy dest src n 0 in strncpy_pad dest n i)"

section \<open>Initialisation and process ids\<close>

fun table_loop :: "nat list \<Rightarrow> (nat \<Rightarrow> process_t) \<Rightarrow> nat \<Rightarrow> process_t" where
  "table_loop [] t = t"
| "table_loop (i # is) t =
     table_loop is (t(i := (t i)\<lparr>p_state := PROCESS_STATE_TERMINATED, p_pid := of_nat i\<rparr>))"

definition process_init :: "'a process_st_scheme \<Rightarrow> 'a process_st_scheme" where
  "process_init s =
     (let s = kinfo ''Initializing process management subsystem'' [] s;
          s = s\<lparr>process_table := (\<lambda>_. zero_process)\<rparr>;
          s = s\<lparr>process_table := table_loop [0..<MAX_PROCESSES] (process_table s)\<rparr>;
          s = upd_process 0 (\<lambda>p. p\<lparr>p_pid := 0,
                p_name := (strncpy_local (p_name p) ''kernel_idle'' 31)[31 := CHR 0x00],
                p_state := PROCESS_STATE_RUNNING, p_priority := PROCESS_PRIORITY_IDLE,
                p_quantum := 1, p_page_directory := paging_get_current_directory s,
                p_kernel_stack := 0, p_user_stack := 0, p_parent := None, p_num_children := 0,
                p_next := None, p_prev := None, p_time_created := timer_get_ticks s,
                p_time_running := 0, p_context_switches := 0, p_exit_code := 0\<rparr>) s;
          s = s\<lparr>current_process := Some 0, next_pid := 1\<rparr>;
          s = kprintk (''  [OK] Process subsystem initialized'' @ [CHR 0x0A]) [] s
      in kprintk (''       Idle process (PID 0) created'' @ [CHR 0x0A]) [] s)"

definition process_allocate_pid :: "'a process_st_scheme \<Rightarrow> u32 \<times> 'a process_st_scheme" where
  "process_allocate_pid s =
     (let free = (\<lambda>i. p_state (process_table s i) = PROCESS_STATE_TERMINATED)
      in case find free [unat (next_pid s)..<MAX_PROCESSES] of
           Some i \<Rightarrow> (of_nat i, s\<lparr>next_pid := of_nat i + 1\<rparr>)
         | None \<Rightarrow>
             (case find free [1..<unat (next_pid s)] of
                Some i \<Rightarrow> (of_nat i, s\<lparr>next_pid := of_nat i + 1\<rparr>)
              | None \<Rightarrow> (0xFFFFFFFF, s)))"

definition process_free_pid :: "u32 \<Rightarrow> 'a process_st_scheme \<Rightarrow> 'a process_st_scheme" where
  "process_free_pid pid s =
     (if unat pid < MAX_PROCESSES
      then upd_process (unat pid) (\<lambda>p. p\<lparr>p_state := PROCESS_STATE_TERMINATED\<rparr>) s else s)"

section \<open>Creation\<close>

text \<open>\<open>current_process->children[current_process->num_children++] = process\<close>, where there is room.\<close>

definition add_child :: "nat \<Rightarrow> nat option \<Rightarrow> 'a process_st_scheme \<Rightarrow> 'a process_st_scheme" where
  "add_child i child s =
     (if p_num_children (process_table s i) < 16
      then upd_process i (\<lambda>p. p\<lparr>p_children := (p_children p)[unat (p_num_children p) := child],
             p_num_children := p_num_children p + 1\<rparr>) s
      else s)"

text \<open>The first part fills in the slot, the second gives it a stack and an initial context.\<close>

definition create_pcb ::
    "string option \<Rightarrow> process_priority_t \<Rightarrow> u32 \<Rightarrow> 'a process_st_scheme \<Rightarrow> 'a process_st_scheme" where
  "create_pcb name priority pid s =
     (let i = unat pid;
          s = upd_process i (\<lambda>_. zero_process) s;
          s = upd_process i (\<lambda>p. p\<lparr>p_pid := pid\<rparr>) s;
          s = (case name of
                 Some n \<Rightarrow> upd_process i (\<lambda>p. p\<lparr>p_name :=
                            (strncpy_local (p_name p) n 31)[31 := CHR 0x00]\<rparr>) s
               | None \<Rightarrow> upd_process i (\<lambda>p. p\<lparr>p_name := strncpy_local (p_name p) ''unnamed'' 31\<rparr>) s)
      in upd_process i (\<lambda>p. p\<lparr>p_state := PROCESS_STATE_NEW, p_priority := priority,
           p_quantum := 10\<rparr>) s)"

definition create_context :: "u32 \<Rightarrow> u32 \<Rightarrow> 'a process_st_scheme \<Rightarrow> 'a process_st_scheme" where
  "create_context entry_point pid s =
     (let i = unat pid;
          s = upd_process i (\<lambda>p. p\<lparr>p_kernel_stack := process_stacks_at s + pid * KERNEL_STACK_SIZE\<rparr>) s;
          s = s\<lparr>stack_allocated := (stack_allocated s)(i := True)\<rparr>;
          s = kprintk (''  Using static stack at 0x%08X'' @ [CHR 0x0A])
                [VInt (p_kernel_stack (process_table s i))] s;
          s = upd_process i (\<lambda>p. p\<lparr>p_user_stack := p_kernel_stack p\<rparr>) s;
          s = upd_process i (\<lambda>p. p\<lparr>p_registers := (p_registers p)
                \<lparr>r_esp := p_kernel_stack p + KERNEL_STACK_SIZE - 16\<rparr>\<rparr>) s;
          s = upd_process i (\<lambda>p. p\<lparr>p_registers := (p_registers p)
                \<lparr>r_ebp := r_esp (p_registers p), r_eip := entry_point, r_eflags := 0x202\<rparr>\<rparr>) s
      in upd_process i (\<lambda>p. p\<lparr>p_page_directory := paging_get_current_directory s,
           p_parent := current_process s\<rparr>) s)"

definition process_create ::
    "string option \<Rightarrow> u32 \<Rightarrow> process_priority_t \<Rightarrow> 'a process_st_scheme \<Rightarrow>
     nat option \<times> 'a process_st_scheme" where
  "process_create name entry_point priority s =
     (let (pid, s) = process_allocate_pid s
      in if pid = 0xFFFFFFFF
         then (None, kerror ''Failed to create process: no free PIDs'' [] s)
         else
           (let i = unat pid;
                s = create_pcb name priority pid s
            in if i < MAX_PROCESSES \<and> \<not> stack_allocated s i
               then
                 (let s = create_context entry_point pid s;
                      s = (case current_process s of None \<Rightarrow> s | Some c \<Rightarrow> add_child c (Some i) s);
                      s = upd_process i (\<lambda>p. p\<lparr>p_num_children := 0, p_next := None, p_prev := None,
                            p_time_created := timer_get_ticks s, p_time_running := 0,
                            p_context_switches := 0, p_exit_code := 0,
                            p_state := PROCESS_STATE_READY\<rparr>) s;
                      s = kprintk (''  Created process '' @ [CHR 0x27] @ ''%s'' @ [CHR 0x27] @
                            '' (PID %d, priority %d)'' @ [CHR 0x0A])
                            [VStr (Some (cstr (p_name (process_table s i)))),
                             VInt (p_pid (process_table s i)),
                             VInt (priority_num (p_priority (process_table s i)))] s
                  in (Some i, s))
               else (None, process_free_pid pid
                             (kerror ''Failed to allocate stack for process %d'' [VInt pid] s))))"

section \<open>Destruction\<close>

function shift_children :: "nat \<Rightarrow> nat \<Rightarrow> 'c list \<Rightarrow> 'c list" where
  "shift_children j n xs = (if j < n then shift_children (j + 1) n (xs[j := xs ! (j + 1)]) else xs)"
  by pat_completeness auto
termination by (relation "measure (\<lambda>(j, n, xs). n - j)") auto

declare shift_children.simps [simp del]

definition remove_child :: "nat \<Rightarrow> nat \<Rightarrow> 'a process_st_scheme \<Rightarrow> 'a process_st_scheme" where
  "remove_child par i s =
     (case find (\<lambda>k. p_children (process_table s par) ! k = Some i)
             [0..<unat (p_num_children (process_table s par))] of
        None \<Rightarrow> s
      | Some k \<Rightarrow>
          upd_process par (\<lambda>p. p\<lparr>p_children :=
              shift_children k (unat (p_num_children p - 1)) (p_children p),
            p_num_children := p_num_children p - 1\<rparr>) s)"

text \<open>The loop that gives away the children reads the count and the array anew each time:
  the process may be its own new parent.\<close>

partial_function (option) reparent_loop ::
    "nat \<Rightarrow> nat \<Rightarrow> u32 \<Rightarrow> 'a process_st_scheme \<Rightarrow> 'a process_st_scheme option" where
  "reparent_loop i new_parent k s =
     (if k < p_num_children (process_table s i) then
        (case p_children (process_table s i) ! unat k of
           None \<Rightarrow> None
         | Some c \<Rightarrow>
             reparent_loop i new_parent (k + 1)
               (add_child new_parent (p_children (process_table
                   (upd_process c (\<lambda>p. p\<lparr>p_parent := Some new_parent\<rparr>) s) i) ! unat k)
                 (upd_process c (\<lambda>p. p\<lparr>p_parent := Some new_parent\<rparr>) s)))
      else Some s)"

declare reparent_loop.simps [code]

definition process_destroy :: "nat option \<Rightarrow> 'a process_st_scheme \<Rightarrow> 'a process_st_scheme option" where
  "process_destroy process s =
     (case process of
        None \<Rightarrow> Some (kerror ''Cannot destroy null or idle process'' [] s)
      | Some i \<Rightarrow>
          if p_pid (process_table s i) = 0
          then Some (kerror ''Cannot destroy null or idle process'' [] s)
          else do {
            let s = (case p_parent (process_table s i) of None \<Rightarrow> s | Some par \<Rightarrow> remove_child par i s);
            s \<leftarrow> reparent_loop i (if next_pid s > 1 then 1 else 0) 0 s;
            let s = (if unat (p_pid (process_table s i)) < MAX_PROCESSES
                     then s\<lparr>stack_allocated := (stack_allocated s)
                             (unat (p_pid (process_table s i)) := False)\<rparr>
                     else s);
            let s = upd_process i (\<lambda>p. p\<lparr>p_state := PROCESS_STATE_TERMINATED\<rparr>) s;
            Some (kprintk (''  Destroyed process '' @ [CHR 0x27] @ ''%s'' @ [CHR 0x27] @ '' (PID %d)'' @ [CHR 0x0A])
              [VStr (Some (cstr (p_name (process_table s i)))), VInt (p_pid (process_table s i))] s) })"

definition process_exit :: "u32 \<Rightarrow> 'a process_st_scheme \<Rightarrow> 'a process_st_scheme" where
  "process_exit exit_code s =
     (case current_process s of
        None \<Rightarrow> s
      | Some c \<Rightarrow>
          (let s = upd_process c (\<lambda>p. p\<lparr>p_exit_code := exit_code, p_state := PROCESS_STATE_TERMINATED\<rparr>) s
           in kprintk (''  Process '' @ [CHR 0x27] @ ''%s'' @ [CHR 0x27] @ '' (PID %d) exited with code %d'' @ [CHR 0x0A])
                [VStr (Some (cstr (p_name (process_table s c)))), VInt (p_pid (process_table s c)),
                 VInt exit_code] s))"

section \<open>Access and printing\<close>

definition process_set_state :: "nat option \<Rightarrow> process_state_t \<Rightarrow> 'a process_st_scheme \<Rightarrow> 'a process_st_scheme" where
  "process_set_state process st s =
     (case process of None \<Rightarrow> s | Some i \<Rightarrow> upd_process i (\<lambda>p. p\<lparr>p_state := st\<rparr>) s)"

fun process_get_state_name :: "process_state_t \<Rightarrow> string" where
  "process_get_state_name PROCESS_STATE_NEW = ''NEW''"
| "process_get_state_name PROCESS_STATE_READY = ''READY''"
| "process_get_state_name PROCESS_STATE_RUNNING = ''RUNNING''"
| "process_get_state_name PROCESS_STATE_BLOCKED = ''BLOCKED''"
| "process_get_state_name PROCESS_STATE_TERMINATED = ''TERMINATED''"

definition process_get_current :: "'a process_st_scheme \<Rightarrow> nat option" where
  "process_get_current s = current_process s"

definition process_set_current :: "nat option \<Rightarrow> 'a process_st_scheme \<Rightarrow> 'a process_st_scheme" where
  "process_set_current process s = s\<lparr>current_process := process\<rparr>"

definition process_get_by_pid :: "u32 \<Rightarrow> 'a process_st_scheme \<Rightarrow> nat option" where
  "process_get_by_pid pid s =
     (if unat pid \<ge> MAX_PROCESSES then None
      else if p_state (process_table s (unat pid)) = PROCESS_STATE_TERMINATED then None
      else Some (unat pid))"

definition process_print_info :: "nat option \<Rightarrow> 'a process_st_scheme \<Rightarrow> 'a process_st_scheme" where
  "process_print_info process s =
     (case process of
        None \<Rightarrow> kprintk (''  Process: NULL'' @ [CHR 0x0A]) [] s
      | Some i \<Rightarrow>
          (let p = process_table s i;
               s = kprintk (''  Process Information:'' @ [CHR 0x0A]) [] s;
               s = kprintk (''    PID:      %d'' @ [CHR 0x0A]) [VInt (p_pid p)] s;
               s = kprintk (''    Name:     %s'' @ [CHR 0x0A]) [VStr (Some (cstr (p_name p)))] s;
               s = kprintk (''    State:    %s'' @ [CHR 0x0A]) [VStr (Some (process_get_state_name (p_state p)))] s;
               s = kprintk (''    Priority: %d'' @ [CHR 0x0A]) [VInt (priority_num (p_priority p))] s;
               s = kprintk (''    Parent:   %d'' @ [CHR 0x0A])
                     [VInt (case p_parent p of None \<Rightarrow> -1 | Some par \<Rightarrow> p_pid (process_table s par))] s;
               s = kprintk (''    Children: %d'' @ [CHR 0x0A]) [VInt (p_num_children p)] s;
               s = kprintk (''    Runtime:  %d ticks'' @ [CHR 0x0A]) [VInt (p_time_running p)] s
           in kprintk (''    Switches: %d'' @ [CHR 0x0A]) [VInt (p_context_switches p)] s))"

fun list_loop :: "nat list \<Rightarrow> u32 \<Rightarrow> 'a process_st_scheme \<Rightarrow> u32 \<times> 'a process_st_scheme" where
  "list_loop [] count s = (count, s)"
| "list_loop (i # is) count s =
     (let p = process_table s i
      in if p_state p \<noteq> PROCESS_STATE_TERMINATED
         then list_loop is (count + 1)
           (kprintk (''%-4d %-18s  %-10s  %-8d  %d'' @ [CHR 0x0A])
              [VInt (p_pid p), VStr (Some (cstr (p_name p))),
               VStr (Some (process_get_state_name (p_state p))),
               VInt (priority_num (p_priority p)), VInt (p_time_running p)] s)
         else list_loop is count s)"

definition process_list_all :: "'a process_st_scheme \<Rightarrow> 'a process_st_scheme" where
  "process_list_all s =
     (let s = kprintk ([CHR 0x0A] @ ''=== Process List ==='' @ [CHR 0x0A]) [] s;
          s = kprintk (''PID  Name                State       Priority  Runtime'' @ [CHR 0x0A]) [] s;
          s = kprintk (''---  ------------------  ----------  --------  -------'' @ [CHR 0x0A]) [] s;
          (count, s) = list_loop [0..<MAX_PROCESSES] 0 s
      in kprintk ([CHR 0x0A] @ ''Total processes: %d'' @ [CHR 0x0A]) [VInt count] s)"

end
