(* ===== verification/Process_Theorems.thy ===== *)
theory Process_Theorems
  imports Process
begin

text \<open>
  The invariant of the process table and that creating, destroying and exiting keep it;
  which slot a new process gets and what it holds; that the stacks of live processes do
  not overlap; and the slots an exit leaves unusable.
\<close>

section \<open>Names\<close>

lemma strncpy_copy_spec:
  "i \<le> n \<Longrightarrow> i \<le> length src \<Longrightarrow> n \<le> length dest \<Longrightarrow>
   strncpy_copy dest src n i =
     (min n (length src), take i dest @ take (min n (length src) - i) (drop i src) @ drop (min n (length src)) dest)"
proof (induction dest src n i rule: strncpy_copy.induct)
  case (1 dest src n i)
  show ?case
  proof (cases "i < n \<and> i < length src")
    case True
    define k where "k = min n (length src)"
    have k: "i < k" "k \<le> length dest" "k \<le> length src" using True "1.prems" by (auto simp: k_def)
    have "take (k - i) (drop i src) = src ! i # take (k - Suc i) (drop (Suc i) src)"
      using k by (simp add: Cons_nth_drop_Suc [symmetric] take_Cons')
    then have "take (i + 1) (dest[i := src ! i]) @ take (k - (i + 1)) (drop (i + 1) src) @ drop k (dest[i := src ! i])
        = take i dest @ take (k - i) (drop i src) @ drop k dest"
      using k by (simp add: take_Suc_conv_app_nth)
    then show ?thesis
      using True "1.IH" "1.prems" by (subst strncpy_copy.simps) (simp add: k_def)
  next
    case False
    then have "min n (length src) = i" using "1.prems" by auto
    then show ?thesis unfolding strncpy_copy.simps [of dest src n i] if_not_P [OF False] by simp
  qed
qed

lemma strncpy_pad_spec:
  "i \<le> n \<Longrightarrow> n \<le> length dest \<Longrightarrow>
   strncpy_pad dest n i = take i dest @ replicate (n - i) (CHR 0x00) @ drop n dest"
proof (induction dest n i rule: strncpy_pad.induct)
  case (1 dest n i)
  show ?case
  proof (cases "i < n")
    case True
    then have "n - i = Suc (n - Suc i)" by simp
    then show ?thesis
      using True "1.IH" "1.prems" by (subst strncpy_pad.simps) (simp add: take_Suc_conv_app_nth)
  next
    case False
    then show ?thesis using "1.prems" by (subst strncpy_pad.simps) simp
  qed
qed

lemma strncpy_local_spec:
  assumes "n \<le> length dest"
  shows "strncpy_local dest src n = take n src @ replicate (n - length src) (CHR 0x00) @ drop n dest"
proof -
  have "min n (length src) - 0 = min n (length src)" by simp
  then show ?thesis
    using strncpy_copy_spec [of 0 n src dest] assms
      strncpy_pad_spec [of "min n (length src)" n "take (min n (length src)) src @ drop (min n (length src)) dest"]
    by (simp add: strncpy_local_def min_def drop_drop)
qed

lemma cstr_padded:
  assumes "CHR 0x00 \<notin> set xs"
  shows "cstr (xs @ replicate k (CHR 0x00) @ [CHR 0x00]) = xs"
  using assms by (induction xs) (cases k; auto simp: cstr_def)+

lemma cstr_name:
  assumes "length dest = 32" "CHR 0x00 \<notin> set src"
  shows "cstr ((strncpy_local dest src 31)[31 := CHR 0x00]) = take 31 src"
    "length ((strncpy_local dest src 31)[31 := CHR 0x00]) = 32"
proof -
  have len: "length (take 31 src @ replicate (31 - length src) (CHR 0x00)) = 31" by simp
  have d: "drop 31 dest = [dest ! 31]" using assms(1) by (simp add: Cons_nth_drop_Suc [symmetric])
  have r: "(strncpy_local dest src 31)[31 := CHR 0x00] =
      take 31 src @ replicate (31 - length src) (CHR 0x00) @ [CHR 0x00]"
  proof -
    have "strncpy_local dest src 31 = (take 31 src @ replicate (31 - length src) (CHR 0x00)) @ [dest ! 31]"
      using assms(1) by (simp add: strncpy_local_spec d)
    then show ?thesis
      using list_update_length [of "take 31 src @ replicate (31 - length src) (CHR 0x00)" "dest ! 31" "[]" "CHR 0x00"]
      unfolding len by simp
  qed
  have "CHR 0x00 \<notin> set (take 31 src)" using assms(2) by (metis in_set_takeD)
  then show "cstr ((strncpy_local dest src 31)[31 := CHR 0x00]) = take 31 src"
    unfolding r by (rule cstr_padded)
  show "length ((strncpy_local dest src 31)[31 := CHR 0x00]) = 32"
    unfolding r append_assoc [symmetric] length_append [of _ "[CHR 0x00]"] len by simp
qed

section \<open>Process ids\<close>

lemma find_upt_Some:
  "find P [a..<b] = Some i \<longleftrightarrow> a \<le> i \<and> i < b \<and> P i \<and> (\<forall>j. a \<le> j \<and> j < i \<longrightarrow> \<not> P j)"
proof -
  have "find P [a..<b] = Some i \<longleftrightarrow> (\<exists>k < b - a. P (a + k) \<and> i = a + k \<and> (\<forall>j<k. \<not> P (a + j)))"
    unfolding find_Some_iff by (auto intro!: exI cong: conj_cong)
  also have "\<dots> \<longleftrightarrow> a \<le> i \<and> i < b \<and> P i \<and> (\<forall>j. a \<le> j \<and> j < i \<longrightarrow> \<not> P j)"
  proof
    assume "\<exists>k < b - a. P (a + k) \<and> i = a + k \<and> (\<forall>j<k. \<not> P (a + j))"
    then obtain k where k: "k < b - a" "P (a + k)" "i = a + k" "\<forall>j<k. \<not> P (a + j)" by blast
    have "\<not> P j" if "a \<le> j" "j < i" for j
      using k(3,4) that by (metis add_less_cancel_left le_add_diff_inverse)
    then show "a \<le> i \<and> i < b \<and> P i \<and> (\<forall>j. a \<le> j \<and> j < i \<longrightarrow> \<not> P j)" using k by auto
  next
    assume "a \<le> i \<and> i < b \<and> P i \<and> (\<forall>j. a \<le> j \<and> j < i \<longrightarrow> \<not> P j)"
    then show "\<exists>k < b - a. P (a + k) \<and> i = a + k \<and> (\<forall>j<k. \<not> P (a + j))"
      by (intro exI [of _ "i - a"]) auto
  qed
  finally show ?thesis .
qed

lemma find_upt_None: "find P [a..<b] = None \<longleftrightarrow> (\<forall>i. a \<le> i \<and> i < b \<longrightarrow> \<not> P i)"
  by (auto simp: find_None_iff)

definition slot_free :: "'a process_st_scheme \<Rightarrow> nat \<Rightarrow> bool" where
  "slot_free s i \<longleftrightarrow> p_state (process_table s i) = PROCESS_STATE_TERMINATED"

text \<open>The order in which the slots are tried: from \<open>next_pid\<close> up, then from 1.\<close>

definition tried_before :: "nat \<Rightarrow> nat \<Rightarrow> nat \<Rightarrow> bool" where
  "tried_before start j i \<longleftrightarrow>
     (if start \<le> i then start \<le> j \<and> j < i else start \<le> j \<and> j < 256 \<or> 1 \<le> j \<and> j < i)"

lemma allocate_pid_cases:
  assumes "1 \<le> unat (next_pid s)" "unat (next_pid s) \<le> 256"
  obtains (full) "process_allocate_pid s = (0xFFFFFFFF, s)" "\<forall>i. 1 \<le> i \<and> i < 256 \<longrightarrow> \<not> slot_free s i"
  | (slot) i where "process_allocate_pid s = (of_nat i, s\<lparr>next_pid := of_nat i + 1\<rparr>)"
      "1 \<le> i" "i < 256" "slot_free s i" "\<forall>j. tried_before (unat (next_pid s)) j i \<longrightarrow> \<not> slot_free s j"
proof -
  define n where "n = unat (next_pid s)"
  have n: "1 \<le> n" "n \<le> 256" using assms by (simp_all add: n_def)
  have def1: "process_allocate_pid s =
     (case find (slot_free s) [n..<256] of
        Some i \<Rightarrow> (of_nat i, s\<lparr>next_pid := of_nat i + 1\<rparr>)
      | None \<Rightarrow> (case find (slot_free s) [1..<n] of
          Some i \<Rightarrow> (of_nat i, s\<lparr>next_pid := of_nat i + 1\<rparr>) | None \<Rightarrow> (0xFFFFFFFF, s)))"
  proof -
    have sf: "slot_free s = (\<lambda>i. p_state (process_table s i) = PROCESS_STATE_TERMINATED)"
      by (rule ext) (rule slot_free_def)
    show ?thesis unfolding process_allocate_pid_def Let_def MAX_PROCESSES_def n_def sf ..
  qed
  show ?thesis
  proof (cases "find (slot_free s) [n..<256]")
    case (Some i)
    then have "n \<le> i" "i < 256" "slot_free s i" "\<forall>j. n \<le> j \<and> j < i \<longrightarrow> \<not> slot_free s j"
      by (simp_all add: find_upt_Some)
    then show ?thesis
      using n def1 Some by (intro slot [of i]) (auto simp: tried_before_def n_def)
  next
    case None
    show ?thesis
    proof (cases "find (slot_free s) [1..<n]")
      case (Some i)
      then have i: "1 \<le> i" "i < n" "slot_free s i" "\<forall>j. 1 \<le> j \<and> j < i \<longrightarrow> \<not> slot_free s j"
        by (simp_all add: find_upt_Some)
      have free: "\<forall>j. n \<le> j \<and> j < 256 \<longrightarrow> \<not> slot_free s j" using None by (simp add: find_upt_None)
      have "process_allocate_pid s = (of_nat i, s\<lparr>next_pid := of_nat i + 1\<rparr>)"
        unfolding def1 using None Some by simp
      then show ?thesis
        by (rule slot) (use i n free in \<open>auto simp: tried_before_def n_def\<close>)
    next
      case None': None
      have "process_allocate_pid s = (0xFFFFFFFF, s)" unfolding def1 using None None' by simp
      then show ?thesis
        by (rule full) (use None None' in \<open>metis find_upt_None not_le\<close>)
    qed
  qed
qed

section \<open>What the operations touch\<close>

lemma kout_process [simp]:
  "process_table (kprintk fmt args s) = process_table s" "process_table (kerror fmt args s) = process_table s"
  "process_table (kinfo fmt args s) = process_table s" "process_table (kwarn fmt args s) = process_table s"
  "current_process (kprintk fmt args s) = current_process s" "current_process (kerror fmt args s) = current_process s"
  "current_process (kinfo fmt args s) = current_process s" "current_process (kwarn fmt args s) = current_process s"
  "next_pid (kprintk fmt args s) = next_pid s" "next_pid (kerror fmt args s) = next_pid s"
  "next_pid (kinfo fmt args s) = next_pid s" "next_pid (kwarn fmt args s) = next_pid s"
  "stack_allocated (kprintk fmt args s) = stack_allocated s" "stack_allocated (kerror fmt args s) = stack_allocated s"
  "stack_allocated (kinfo fmt args s) = stack_allocated s" "stack_allocated (kwarn fmt args s) = stack_allocated s"
  "process_stacks_at (kprintk fmt args s) = process_stacks_at s" "process_stacks_at (kerror fmt args s) = process_stacks_at s"
  "process_stacks_at (kinfo fmt args s) = process_stacks_at s" "process_stacks_at (kwarn fmt args s) = process_stacks_at s"
  "current_directory (kprintk fmt args s) = current_directory s" "system_ticks (kprintk fmt args s) = system_ticks s"
  "current_directory (kinfo fmt args s) = current_directory s" "system_ticks (kinfo fmt args s) = system_ticks s"
  by (simp_all add: kout_defs)

lemma upd_process_fields [simp]:
  "process_table (upd_process i f s) = (process_table s)(i := f (process_table s i))"
  "current_process (upd_process i f s) = current_process s" "next_pid (upd_process i f s) = next_pid s"
  "stack_allocated (upd_process i f s) = stack_allocated s" "process_stacks_at (upd_process i f s) = process_stacks_at s"
  "current_directory (upd_process i f s) = current_directory s" "system_ticks (upd_process i f s) = system_ticks s"
  by (simp_all add: upd_process_def)

lemma add_child_fields [simp]:
  "current_process (add_child i c s) = current_process s" "next_pid (add_child i c s) = next_pid s"
  "stack_allocated (add_child i c s) = stack_allocated s" "process_stacks_at (add_child i c s) = process_stacks_at s"
  "system_ticks (add_child i c s) = system_ticks s"
  by (simp_all add: add_child_def)

definition with_child :: "nat option \<Rightarrow> process_t \<Rightarrow> process_t" where
  "with_child child p = (if p_num_children p < 16
     then p\<lparr>p_children := (p_children p)[unat (p_num_children p) := child], p_num_children := p_num_children p + 1\<rparr>
     else p)"

lemma add_child_table [simp]:
  "process_table (add_child i c s) = (process_table s)(i := with_child c (process_table s i))"
  by (simp add: add_child_def with_child_def)

section \<open>The invariant\<close>

definition pcb_ok :: "nat \<Rightarrow> process_t \<Rightarrow> bool" where
  "pcb_ok i p \<longleftrightarrow> p_pid p = of_nat i \<and> length (p_name p) = 32 \<and> length (p_children p) = 16 \<and>
     unat (p_num_children p) \<le> 16 \<and> (\<forall>c. p_parent p = Some c \<longrightarrow> c < 256) \<and>
     (\<forall>k < unat (p_num_children p). \<exists>c < 256. p_children p ! k = Some c)"

definition process_wf :: "'a process_st_scheme \<Rightarrow> bool" where
  "process_wf s \<longleftrightarrow> (\<forall>i < 256. pcb_ok i (process_table s i)) \<and>
     1 \<le> unat (next_pid s) \<and> unat (next_pid s) \<le> 256 \<and> (\<forall>c. current_process s = Some c \<longrightarrow> c < 256) \<and>
     (\<forall>i. 1 \<le> i \<and> i < 256 \<and> \<not> slot_free s i \<longrightarrow>
        stack_allocated s i \<and> p_kernel_stack (process_table s i) = process_stacks_at s + of_nat i * 4096)"

lemma with_child_ok: "pcb_ok i p \<Longrightarrow> c < 256 \<Longrightarrow> pcb_ok i (with_child (Some c) p)"
proof (cases "p_num_children p < 16")
  case True
  assume ok: "pcb_ok i p" and c: "c < 256"
  have u: "unat (p_num_children p + 1) = unat (p_num_children p) + 1" "unat (p_num_children p) < 16"
    using True by (simp_all add: word_less_nat_alt unat_plus_no_wrap)
  have "\<exists>d<256. (p_children p)[unat (p_num_children p) := Some c] ! k = Some d"
    if "k < unat (p_num_children p) + 1" for k
    using that ok c u(2) by (cases "k = unat (p_num_children p)") (auto simp: pcb_ok_def nth_list_update)
  then show ?thesis using True ok u by (simp add: with_child_def pcb_ok_def)
next
  case False
  assume "pcb_ok i p"
  then show ?thesis using False by (simp add: with_child_def)
qed

lemma with_child_fields [simp]:
  "p_state (with_child c p) = p_state p" "p_kernel_stack (with_child c p) = p_kernel_stack p"
  "p_pid (with_child c p) = p_pid p" "p_name (with_child c p) = p_name p" "p_parent (with_child c p) = p_parent p"
  "p_priority (with_child c p) = p_priority p" "p_quantum (with_child c p) = p_quantum p"
  "p_registers (with_child c p) = p_registers p" "p_user_stack (with_child c p) = p_user_stack p"
  "p_page_directory (with_child c p) = p_page_directory p" "p_is_kernel (with_child c p) = p_is_kernel p"
  by (simp_all add: with_child_def)

lemma kout_wf [simp]: "process_wf (kprintk fmt args s) = process_wf s" "process_wf (kerror fmt args s) = process_wf s"
  "process_wf (kinfo fmt args s) = process_wf s" "process_wf (kwarn fmt args s) = process_wf s"
  by (simp_all add: process_wf_def slot_free_def)

section \<open>Creation\<close>

definition new_name :: "string option \<Rightarrow> string" where
  "new_name name = (case name of
     Some n \<Rightarrow> (strncpy_local (replicate 32 (CHR 0x00)) n 31)[31 := CHR 0x00]
   | None \<Rightarrow> strncpy_local (replicate 32 (CHR 0x00)) ''unnamed'' 31)"

text \<open>The control block of a new process, and the one left behind when its slot's stack is taken.\<close>

definition fresh_pcb :: "string option \<Rightarrow> u32 \<Rightarrow> process_priority_t \<Rightarrow> nat \<Rightarrow> 'a process_st_scheme \<Rightarrow> process_t" where
  "fresh_pcb name entry_point priority i s =
     (let stack = process_stacks_at s + of_nat i * 4096 in zero_process
      \<lparr>p_pid := of_nat i, p_name := new_name name, p_state := PROCESS_STATE_READY, p_priority := priority,
       p_quantum := 10, p_registers := zero_registers\<lparr>r_esp := 4080 + stack, r_ebp := 4080 + stack,
         r_eip := entry_point, r_eflags := 0x202\<rparr>, p_page_directory := current_directory s,
       p_kernel_stack := stack, p_user_stack := stack, p_parent := current_process s,
       p_children := (if current_process s = Some i then (replicate 16 None)[0 := Some i] else replicate 16 None),
       p_time_created := system_ticks s\<rparr>)"

definition wiped_pcb :: "string option \<Rightarrow> process_priority_t \<Rightarrow> nat \<Rightarrow> process_t" where
  "wiped_pcb name priority i = zero_process\<lparr>p_pid := of_nat i, p_name := new_name name,
     p_state := PROCESS_STATE_TERMINATED, p_priority := priority, p_quantum := 10\<rparr>"

lemma process_create_full:
  assumes "process_allocate_pid s = (0xFFFFFFFF, s)"
  shows "process_create name entry_point priority s =
    (None, kerror ''Failed to create process: no free PIDs'' [] s)"
  using assms by (simp add: process_create_def)

lemma create_pcb_fields:
  assumes "i < 256"
  shows "process_table (create_pcb name priority (of_nat i) s) = (process_table s)
      (i := zero_process\<lparr>p_pid := of_nat i, p_name := new_name name, p_priority := priority, p_quantum := 10\<rparr>)"
    "current_process (create_pcb name priority (of_nat i) s) = current_process s"
    "next_pid (create_pcb name priority (of_nat i) s) = next_pid s"
    "process_stacks_at (create_pcb name priority (of_nat i) s) = process_stacks_at s"
    "stack_allocated (create_pcb name priority (of_nat i) s) = stack_allocated s"
    "current_directory (create_pcb name priority (of_nat i) s) = current_directory s"
    "system_ticks (create_pcb name priority (of_nat i) s) = system_ticks s"
  using assms by (cases name; simp add: create_pcb_def Let_def new_name_def zero_process_def)+

lemma create_context_fields:
  fixes s :: "'a process_st_scheme"
  assumes "i < 256"
  defines "stack \<equiv> process_stacks_at s + of_nat i * 4096"
  shows "process_table (create_context entry_point (of_nat i) s) = (process_table s)
      (i := (process_table s i)\<lparr>p_kernel_stack := stack, p_user_stack := stack,
         p_registers := (p_registers (process_table s i))\<lparr>r_esp := 4080 + stack, r_ebp := 4080 + stack,
           r_eip := entry_point, r_eflags := 0x202\<rparr>,
         p_page_directory := current_directory s, p_parent := current_process s\<rparr>)"
    "current_process (create_context entry_point (of_nat i) s) = current_process s"
    "next_pid (create_context entry_point (of_nat i) s) = next_pid s"
    "process_stacks_at (create_context entry_point (of_nat i) s) = process_stacks_at s"
    "stack_allocated (create_context entry_point (of_nat i) s) = (stack_allocated s)(i := True)"
    "system_ticks (create_context entry_point (of_nat i) s) = system_ticks s"
  using assms(1) unfolding stack_def
  by (simp_all add: create_context_def Let_def KERNEL_STACK_SIZE_def paging_get_current_directory_def)

lemma process_create_slot:
  fixes name :: "string option" and entry_point :: u32 and priority :: process_priority_t
  assumes al: "process_allocate_pid s = (of_nat i, s\<lparr>next_pid := n\<rparr>)" and i: "i < 256"
  defines "r \<equiv> process_create name entry_point priority s"
  shows "fst r = (if stack_allocated s i then None else Some i)"
    "current_process (snd r) = current_process s" "next_pid (snd r) = n"
    "process_stacks_at (snd r) = process_stacks_at s"
    "stack_allocated (snd r) = (stack_allocated s)(i := True)"
    "process_table (snd r) =
      (if stack_allocated s i then (process_table s)(i := wiped_pcb name priority i)
       else case current_process s of
         None \<Rightarrow> (process_table s)(i := fresh_pcb name entry_point priority i s)
       | Some c \<Rightarrow> (process_table s)(c := with_child (Some i) (process_table s c),
                      i := fresh_pcb name entry_point priority i s))"
proof -
  have u: "unat (of_nat i :: u32) = i" "(of_nat i :: u32) \<noteq> 0xFFFFFFFF"
    using i of_nat32_eq_iff [of i 4294967295] by simp_all
  note defs = process_create_def al u i MAX_PROCESSES_def process_free_pid_def Let_def
    create_pcb_fields [OF i] create_context_fields [OF i] timer_get_ticks_def
  show "fst r = (if stack_allocated s i then None else Some i)"
    "current_process (snd r) = current_process s" "next_pid (snd r) = n"
    "process_stacks_at (snd r) = process_stacks_at s"
    unfolding r_def by (simp_all add: defs split: option.split)
  show "stack_allocated (snd r) = (stack_allocated s)(i := True)"
    unfolding r_def by (cases "stack_allocated s i") (simp_all add: defs fun_upd_idem split: option.split)
  show "process_table (snd r) =
      (if stack_allocated s i then (process_table s)(i := wiped_pcb name priority i)
       else case current_process s of
         None \<Rightarrow> (process_table s)(i := fresh_pcb name entry_point priority i s)
       | Some c \<Rightarrow> (process_table s)(c := with_child (Some i) (process_table s c),
                      i := fresh_pcb name entry_point priority i s))"
  proof (cases "stack_allocated s i")
    case True
    then show ?thesis unfolding r_def by (simp add: defs wiped_pcb_def zero_process_def)
  next
    case False
    note d = defs fresh_pcb_def zero_process_def False
    show ?thesis
    proof (cases "current_process s")
      case None
      then show ?thesis unfolding r_def by (simp add: d)
    next
      case (Some c)
      show ?thesis
      proof (cases "c = i")
        case True
        then show ?thesis unfolding r_def using Some by (simp add: d with_child_def)
      next
        case ne: False
        then show ?thesis unfolding r_def using Some by (simp add: d fun_upd_twist [OF ne])
      qed
    qed
  qed
qed

lemma new_name_length: "length (new_name name) = 32"
  by (cases name) (simp_all add: new_name_def strncpy_local_spec)

lemma fresh_pcb_ok:
  assumes "i < 256" "\<And>c. current_process s = Some c \<Longrightarrow> c < 256"
  shows "pcb_ok i (fresh_pcb name entry_point priority i s)"
  using assms by (simp add: pcb_ok_def fresh_pcb_def zero_process_def new_name_length Let_def)

lemma wiped_pcb_ok: "pcb_ok i (wiped_pcb name priority i)"
  by (simp add: pcb_ok_def wiped_pcb_def zero_process_def new_name_length)

lemma process_create_wf:
  assumes wf: "process_wf s"
  shows "process_wf (snd (process_create name entry_point priority s))"
proof -
  have np: "1 \<le> unat (next_pid s)" "unat (next_pid s) \<le> 256" using wf by (simp_all add: process_wf_def)
  from np show ?thesis
  proof (cases rule: allocate_pid_cases)
    case full
    then show ?thesis using wf by (simp add: process_create_full)
  next
    case (slot i)
    note c = process_create_slot [OF slot(1,3), of name entry_point priority]
    have n: "unat (of_nat i + 1 :: u32) = i + 1" using slot(3) by (simp add: unat_plus_no_wrap)
    have fr: "pcb_ok i (fresh_pcb name entry_point priority i s)"
      by (rule fresh_pcb_ok) (use wf slot(3) in \<open>auto simp: process_wf_def\<close>)
    have ok: "pcb_ok j (process_table (snd (process_create name entry_point priority s)) j)" if "j < 256" for j
      using wf that slot(3) unfolding c(6)
      by (auto simp: process_wf_def wiped_pcb_ok fr with_child_ok split: option.split)
    have live: "stack_allocated (snd (process_create name entry_point priority s)) j \<and>
        p_kernel_stack (process_table (snd (process_create name entry_point priority s)) j) =
          process_stacks_at s + of_nat j * 4096"
      if "1 \<le> j" "j < 256" "p_state (process_table (snd (process_create name entry_point priority s)) j)
          \<noteq> PROCESS_STATE_TERMINATED" for j
      using that(3) wf that(1,2) unfolding c(5,6)
      by (auto simp: process_wf_def slot_free_def wiped_pcb_def fresh_pcb_def Let_def
          split: option.splits if_splits)
    show ?thesis
      unfolding process_wf_def slot_free_def c(2-4) n
      using ok live slot(3) wf by (simp add: process_wf_def)
  qed
qed

section \<open>Destruction\<close>

lemma shift_children_spec:
  "j \<le> n \<Longrightarrow> n < length xs \<Longrightarrow> shift_children j n xs = take j xs @ take (n - j) (drop (Suc j) xs) @ drop n xs"
proof (induction j n xs rule: shift_children.induct)
  case (1 j n xs)
  show ?case
  proof (cases "j < n")
    case True
    have "take (n - j) (drop (Suc j) xs) = xs ! Suc j # take (n - Suc j) (drop (Suc (Suc j)) xs)"
      using True "1.prems" by (simp add: Cons_nth_drop_Suc [symmetric] take_Cons' Suc_diff_Suc)
    then show ?thesis
      using True "1.IH" "1.prems"
      by (subst shift_children.simps) (simp add: take_Suc_conv_app_nth)
  next
    case False
    then show ?thesis using "1.prems"
      unfolding shift_children.simps [of j n xs] if_not_P [OF False] by simp
  qed
qed

text \<open>Every entry in use stays in use when one is taken out.\<close>

definition without_child :: "nat \<Rightarrow> process_t \<Rightarrow> process_t" where
  "without_child i p = (case find (\<lambda>k. p_children p ! k = Some i) [0..<unat (p_num_children p)] of
     None \<Rightarrow> p
   | Some k \<Rightarrow> p\<lparr>p_children := shift_children k (unat (p_num_children p - 1)) (p_children p),
                 p_num_children := p_num_children p - 1\<rparr>)"

lemma remove_child_eq: "remove_child par i s = s\<lparr>process_table := (process_table s)(par := without_child i (process_table s par))\<rparr>"
  by (auto simp: remove_child_def without_child_def upd_process_def split: option.split)

lemma without_child_fields [simp]:
  "p_state (without_child c p) = p_state p" "p_kernel_stack (without_child c p) = p_kernel_stack p"
  "p_pid (without_child c p) = p_pid p" "p_name (without_child c p) = p_name p"
  "p_parent (without_child c p) = p_parent p"
  by (simp_all add: without_child_def split: option.split)

lemma without_child_ok: "pcb_ok i p \<Longrightarrow> pcb_ok i (without_child c p)"
proof (cases "find (\<lambda>k. p_children p ! k = Some c) [0..<unat (p_num_children p)]")
  case None
  assume "pcb_ok i p"
  then show ?thesis using None by (simp add: without_child_def)
next
  case (Some k)
  assume ok: "pcb_ok i p"
  define n where "n = unat (p_num_children p)"
  have k: "k < n" using Some by (simp add: find_upt_Some n_def)
  have n: "n \<le> 16" "length (p_children p) = 16" using ok by (simp_all add: pcb_ok_def n_def)
  have "p_num_children p \<noteq> 0" using k by (auto simp: n_def)
  then have un: "unat (p_num_children p - 1) = n - 1" by (simp add: n_def unat_minus_one)
  have spec: "shift_children k (n - 1) (p_children p) =
      take k (p_children p) @ take (n - 1 - k) (drop (Suc k) (p_children p)) @ drop (n - 1) (p_children p)"
    by (rule shift_children_spec) (use k n in auto)
  have "\<exists>d<256. shift_children k (n - 1) (p_children p) ! j = Some d" if "j < n - 1" for j
  proof -
    have "shift_children k (n - 1) (p_children p) ! j = p_children p ! (if j < k then j else Suc j)"
      unfolding spec using that k n by (auto simp: nth_append min_def)
    then show ?thesis using ok that unfolding pcb_ok_def n_def [symmetric] by auto
  qed
  moreover have "length (shift_children k (n - 1) (p_children p)) = 16"
    unfolding spec using k n by simp
  ultimately show ?thesis
    using ok Some n un by (auto simp: without_child_def pcb_ok_def n_def)
qed

text \<open>Two control blocks that differ in their family links only.\<close>

definition family_only :: "process_t \<Rightarrow> process_t \<Rightarrow> bool" where
  "family_only p q \<longleftrightarrow> q = p\<lparr>p_parent := p_parent q, p_children := p_children q, p_num_children := p_num_children q\<rparr>"

lemma family_only_refl [simp]: "family_only p p"
  by (simp add: family_only_def)

lemma family_only_trans: "family_only p q \<Longrightarrow> family_only q r \<Longrightarrow> family_only p r"
  by (cases p; cases q; cases r) (simp add: family_only_def)

lemma family_only_upd [simp]:
  "family_only p (with_child c p)" "family_only p (without_child i p)" "family_only p (p\<lparr>p_parent := x\<rparr>)"
  by (cases p; simp add: family_only_def with_child_def without_child_def split: option.split)+

lemma family_only_fields:
  assumes "family_only p q"
  shows "p_state q = p_state p" "p_kernel_stack q = p_kernel_stack p" "p_pid q = p_pid p"
    "p_name q = p_name p" "p_registers q = p_registers p" "p_next q = p_next p" "p_prev q = p_prev p"
  using assms by (cases p; cases q; simp add: family_only_def)+

lemma pcb_ok_parent: "pcb_ok j p \<Longrightarrow> np < 256 \<Longrightarrow> pcb_ok j (p\<lparr>p_parent := Some np\<rparr>)"
  by (simp add: pcb_ok_def)

lemma reparent_loop_total:
  assumes "\<forall>j<256. pcb_ok j (process_table s j)" "i < 256" "np < 256" "unat k \<le> 16"
  shows "\<exists>t. reparent_loop i np k s = Some (s\<lparr>process_table := t\<rparr>) \<and> (\<forall>j<256. pcb_ok j (t j)) \<and>
    (\<forall>j. family_only (process_table s j) (t j))"
  using assms
proof (induction "16 - unat k" arbitrary: k s rule: less_induct)
  case less
  show ?case
  proof (cases "k < p_num_children (process_table s i)")
    case False
    then have "reparent_loop i np k s = Some (s\<lparr>process_table := process_table s\<rparr>)"
      by (subst reparent_loop.simps) simp
    then show ?thesis using less.prems(1) by (intro exI [of _ "process_table s"]) simp
  next
    case True
    have ok: "pcb_ok i (process_table s i)" using less.prems by simp
    then have n: "unat (p_num_children (process_table s i)) \<le> 16" by (simp add: pcb_ok_def)
    have k: "unat k < 16" "unat (k + 1) = unat k + 1"
      using True n by (simp_all add: word_less_nat_alt unat_plus_no_wrap)
    obtain c where c: "c < 256" "p_children (process_table s i) ! unat k = Some c"
      using ok True by (auto simp: pcb_ok_def word_less_nat_alt)
    define s1 where "s1 = upd_process c (\<lambda>p. p\<lparr>p_parent := Some np\<rparr>) s"
    define s2 where "s2 = add_child np (Some c) s1"
    have c1: "p_children (process_table s1 i) ! unat k = Some c" using c(2) by (auto simp: s1_def)
    have ok1: "\<forall>j<256. pcb_ok j (process_table s1 j)"
      using less.prems(1,3) by (simp add: s1_def pcb_ok_parent)
    then have ok2: "\<forall>j<256. pcb_ok j (process_table s2 j)"
      using c(1) by (simp add: s2_def with_child_ok)
    have fam1: "family_only (process_table s j) (process_table s1 j)" for j by (simp add: s1_def)
    have fam2: "family_only (process_table s1 j) (process_table s2 j)" for j by (simp add: s2_def)
    have s2: "s2 = s\<lparr>process_table := process_table s2\<rparr>"
      by (simp add: s2_def s1_def add_child_def upd_process_def)
    have step: "reparent_loop i np k s = reparent_loop i np (k + 1) s2"
      using True c(2) c1 by (subst reparent_loop.simps) (simp flip: s1_def add: s2_def)
    obtain t where t: "reparent_loop i np (k + 1) s2 = Some (s2\<lparr>process_table := t\<rparr>)"
      "\<forall>j<256. pcb_ok j (t j)" "\<forall>j. family_only (process_table s2 j) (t j)"
    proof -
      have "16 - unat (k + 1) < 16 - unat k" "unat (k + 1) \<le> 16" using k by simp_all
      then show ?thesis using less.hyps [OF _ ok2 less.prems(2,3)] that by blast
    qed
    have "s2\<lparr>process_table := t\<rparr> = s\<lparr>process_table := t\<rparr>" by (subst s2) simp
    then show ?thesis
      using t step fam1 fam2 by (metis family_only_trans)
  qed
qed

text \<open>Leaving the family: out of the parent's children, the own children to another process.\<close>

lemma destroy_leaves_family:
  assumes wf: "process_wf s" and i: "i < 256"
  defines "s1 \<equiv> (case p_parent (process_table s i) of None \<Rightarrow> s | Some par \<Rightarrow> remove_child par i s)"
  shows "\<exists>t. reparent_loop i (if next_pid s1 > 1 then 1 else 0) 0 s1 = Some (s\<lparr>process_table := t\<rparr>) \<and>
    (\<forall>j<256. pcb_ok j (t j)) \<and> (\<forall>j. family_only (process_table s j) (t j))"
proof -
  have ok: "\<forall>j<256. pcb_ok j (process_table s j)" using wf by (simp add: process_wf_def)
  have s1: "s1 = s\<lparr>process_table := process_table s1\<rparr>"
    by (simp add: s1_def remove_child_eq split: option.split)
  have ok1: "\<forall>j<256. pcb_ok j (process_table s1 j)"
    using ok by (auto simp: s1_def remove_child_eq without_child_ok split: option.split)
  have fam1: "family_only (process_table s j) (process_table s1 j)" for j
    by (auto simp: s1_def remove_child_eq split: option.split)
  have np: "(if next_pid s1 > 1 then 1 else 0) < (256 :: nat)" by simp
  obtain t where t: "reparent_loop i (if next_pid s1 > 1 then 1 else 0) 0 s1 = Some (s1\<lparr>process_table := t\<rparr>)"
    "\<forall>j<256. pcb_ok j (t j)" "\<forall>j. family_only (process_table s1 j) (t j)"
    using reparent_loop_total [OF ok1 i np, of 0] by auto
  have "s1\<lparr>process_table := t\<rparr> = s\<lparr>process_table := t\<rparr>" by (subst s1, simp)
  moreover have "family_only (process_table s j) (t j)" for j using fam1 t(3) family_only_trans by blast
  ultimately show ?thesis using t(1,2) by (intro exI [of _ t]) simp
qed

lemma terminated_wf:
  fixes s :: "'a process_st_scheme" and t :: "nat \<Rightarrow> process_t"
  assumes wf: "process_wf s" and i: "i < 256" and t: "\<forall>j<256. pcb_ok j (t j)" "\<forall>j. family_only (process_table s j) (t j)"
  defines "s' \<equiv> upd_process i (\<lambda>p. p\<lparr>p_state := PROCESS_STATE_TERMINATED\<rparr>)
    (s\<lparr>process_table := t, stack_allocated := (stack_allocated s)(i := False)\<rparr>)"
  shows "process_wf s'"
proof -
  have ok: "pcb_ok j (process_table s' j)" if "j < 256" for j
    using t(1) that i by (cases "j = i") (simp_all add: s'_def pcb_ok_def)
  have live: "stack_allocated s' j \<and> p_kernel_stack (process_table s' j) = process_stacks_at s + of_nat j * 4096"
    if j: "1 \<le> j" "j < 256" "\<not> slot_free s' j" for j
  proof -
    have "j \<noteq> i" using j(3) by (auto simp: s'_def slot_free_def)
    then have "\<not> slot_free s j" "p_kernel_stack (process_table s' j) = p_kernel_stack (process_table s j)"
      "stack_allocated s' j = stack_allocated s j"
      using j(3) family_only_fields(1,2) [OF spec [OF t(2), of j]] by (simp_all add: s'_def slot_free_def)
    then show ?thesis using wf j(1,2) by (simp add: process_wf_def)
  qed
  have "next_pid s' = next_pid s" "current_process s' = current_process s" "process_stacks_at s' = process_stacks_at s"
    by (simp_all add: s'_def)
  then show ?thesis using ok live wf by (simp add: process_wf_def)
qed

lemma process_destroy_spec:
  assumes wf: "process_wf s" and i: "1 \<le> i" "i < 256"
  shows "\<exists>s'. process_destroy (Some i) s = Some s' \<and> process_wf s' \<and>
    stack_allocated s' = (stack_allocated s)(i := False) \<and> next_pid s' = next_pid s \<and>
    current_process s' = current_process s \<and> process_stacks_at s' = process_stacks_at s \<and>
    p_state (process_table s' i) = PROCESS_STATE_TERMINATED \<and>
    (\<forall>j. j \<noteq> i \<longrightarrow> family_only (process_table s j) (process_table s' j))"
proof -
  have "pcb_ok i (process_table s i)" using wf i by (simp add: process_wf_def)
  then have pid: "p_pid (process_table s i) = of_nat i" "(of_nat i :: u32) \<noteq> 0" "unat (of_nat i :: u32) = i"
    using i by (auto simp: pcb_ok_def of_nat32_eq_0_iff)
  define s1 where "s1 = (case p_parent (process_table s i) of None \<Rightarrow> s | Some par \<Rightarrow> remove_child par i s)"
  obtain t where t: "reparent_loop i (if next_pid s1 > 1 then 1 else 0) 0 s1 = Some (s\<lparr>process_table := t\<rparr>)"
    "\<forall>j<256. pcb_ok j (t j)" "\<forall>j. family_only (process_table s j) (t j)"
    using destroy_leaves_family [OF wf i(2), folded s1_def] by blast
  define s3 where "s3 = upd_process i (\<lambda>p. p\<lparr>p_state := PROCESS_STATE_TERMINATED\<rparr>)
    (s\<lparr>process_table := t, stack_allocated := (stack_allocated s)(i := False)\<rparr>)"
  have up: "unat (p_pid (process_table (s\<lparr>process_table := t\<rparr>) i)) = i"
    using family_only_fields(3) [OF spec [OF t(3), of i]] pid(1,3) by simp
  have "process_destroy (Some i) s = Option.bind (reparent_loop i (if next_pid s1 > 1 then 1 else 0) 0 s1)
    (\<lambda>s. let s = (if unat (p_pid (process_table s i)) < MAX_PROCESSES
               then s\<lparr>stack_allocated := (stack_allocated s)(unat (p_pid (process_table s i)) := False)\<rparr> else s);
           s = upd_process i (\<lambda>p. p\<lparr>p_state := PROCESS_STATE_TERMINATED\<rparr>) s
       in Some (kprintk (''  Destroyed process '' @ [CHR 0x27] @ ''%s'' @ [CHR 0x27] @ '' (PID %d)'' @ [CHR 0x0A])
            [VStr (Some (cstr (p_name (process_table s i)))), VInt (p_pid (process_table s i))] s))"
    using pid(1,2) unfolding process_destroy_def s1_def by simp
  then have run: "process_destroy (Some i) s = Some (kprintk (''  Destroyed process '' @ [CHR 0x27] @ ''%s'' @
      [CHR 0x27] @ '' (PID %d)'' @ [CHR 0x0A])
      [VStr (Some (cstr (p_name (process_table s3 i)))), VInt (p_pid (process_table s3 i))] s3)"
    unfolding t(1) bind.bind_lunit Let_def up using i(2) by (simp add: MAX_PROCESSES_def s3_def)
  have "process_wf s3" unfolding s3_def by (rule terminated_wf [OF wf i(2) t(2,3)])
  then show ?thesis unfolding run using t(3) by (simp add: s3_def)
qed

lemma process_exit_wf:
  assumes "process_wf s"
  shows "process_wf (process_exit code s)"
  using assms
  by (auto simp: process_exit_def process_wf_def slot_free_def pcb_ok_def split: option.split)

section \<open>Reachable process tables\<close>

lemma table_loop_spec:
  "distinct is \<Longrightarrow> table_loop is t j =
     (if j \<in> set is then (t j)\<lparr>p_state := PROCESS_STATE_TERMINATED, p_pid := of_nat j\<rparr> else t j)"
  by (induction "is" t rule: table_loop.induct) auto

lemma zero_pcb_ok: "pcb_ok i (zero_process\<lparr>p_state := st, p_pid := of_nat i\<rparr>)"
  by (simp add: pcb_ok_def zero_process_def)

lemma process_init_spec:
  "process_wf (process_init s)" "current_process (process_init s) = Some 0" "next_pid (process_init s) = 1"
  "process_stacks_at (process_init s) = process_stacks_at s"
  "stack_allocated (process_init s) = stack_allocated s"
  "slot_free (process_init s) i \<longleftrightarrow> 1 \<le> i \<and> i < 256"
proof -
  define t where "t = table_loop [0..<MAX_PROCESSES] (\<lambda>_. zero_process)"
  have t: "t j = (if j < 256 then zero_process\<lparr>p_state := PROCESS_STATE_TERMINATED, p_pid := of_nat j\<rparr>
    else zero_process)" for j
    by (simp add: t_def table_loop_spec MAX_PROCESSES_def)
  have tab: "process_table (process_init s) j =
      (if j = 0 then zero_process\<lparr>p_pid := 0, p_name := (strncpy_local (replicate 32 (CHR 0x00)) ''kernel_idle'' 31)
         [31 := CHR 0x00], p_state := PROCESS_STATE_RUNNING, p_priority := PROCESS_PRIORITY_IDLE, p_quantum := 1,
         p_page_directory := current_directory s, p_time_created := system_ticks s\<rparr>
       else t j)" for j
    by (simp add: process_init_def Let_def t [unfolded t_def] paging_get_current_directory_def
        timer_get_ticks_def) (simp add: t zero_process_def)
  show "current_process (process_init s) = Some 0" "next_pid (process_init s) = 1"
    "process_stacks_at (process_init s) = process_stacks_at s"
    "stack_allocated (process_init s) = stack_allocated s"
    by (simp_all add: process_init_def Let_def)
  moreover show free: "slot_free (process_init s) i \<longleftrightarrow> 1 \<le> i \<and> i < 256" for i
    by (auto simp: slot_free_def tab t zero_process_def)
  moreover have "pcb_ok j (process_table (process_init s) j)" if "j < 256" for j
    using that by (cases "j = 0")
      (simp_all add: tab t zero_pcb_ok, simp add: pcb_ok_def zero_process_def strncpy_local_spec)
  ultimately show "process_wf (process_init s)"
    by (auto simp: process_wf_def)
qed

text \<open>What the kernel does to the process table: the operations of this file on slots in range,
  and the states the scheduler gives to live processes.\<close>

inductive process_reach :: "'a process_st_scheme \<Rightarrow> bool" where
  reach_init: "process_reach (process_init s)"
| reach_create: "process_reach s \<Longrightarrow> process_reach (snd (process_create name entry_point priority s))"
| reach_destroy: "process_reach s \<Longrightarrow> 1 \<le> i \<Longrightarrow> i < 256 \<Longrightarrow> process_destroy (Some i) s = Some s' \<Longrightarrow> process_reach s'"
| reach_exit: "process_reach s \<Longrightarrow> process_reach (process_exit code s)"
| reach_state: "process_reach s \<Longrightarrow> \<not> slot_free s i \<Longrightarrow> process_reach (process_set_state (Some i) st s)"
| reach_current: "process_reach s \<Longrightarrow> (\<forall>i. p = Some i \<longrightarrow> i < 256) \<Longrightarrow> process_reach (process_set_current p s)"

lemma set_state_wf:
  assumes "process_wf s" "\<not> slot_free s i"
  shows "process_wf (process_set_state (Some i) st s)"
proof -
  have "pcb_ok j ((process_table s j)\<lparr>p_state := st\<rparr>)" if "j < 256" for j
    using assms(1) that by (simp add: process_wf_def pcb_ok_def)
  then show ?thesis
    using assms by (auto simp: process_wf_def process_set_state_def slot_free_def)
qed

lemma process_reach_wf: "process_reach s \<Longrightarrow> process_wf s"
proof (induction rule: process_reach.induct)
  case (reach_init s)
  show ?case by (rule process_init_spec)
next
  case (reach_create s name entry_point priority)
  then show ?case by (simp add: process_create_wf)
next
  case (reach_destroy s i s')
  then show ?case using process_destroy_spec [of s i] by auto
next
  case (reach_exit s code)
  then show ?case by (simp add: process_exit_wf)
next
  case (reach_state s i st)
  then show ?case by (simp add: set_state_wf)
next
  case (reach_current s p)
  then show ?case by (auto simp: process_wf_def process_set_current_def slot_free_def)
qed

text \<open>A state for the witnesses.\<close>

definition boot_process :: process_st where
  "boot_process = process_init (paging_st.extend boot_paging
     (process_st.fields (\<lambda>_. zero_process) None 0 (\<lambda>_. False) 0x110000))"

lemma boot_process_reach: "process_reach boot_process" "process_wf boot_process"
  "current_process boot_process = Some 0" "next_pid boot_process = 1"
  "process_stacks_at boot_process = 0x110000" "stack_allocated boot_process = (\<lambda>_. False)"
  "slot_free boot_process i \<longleftrightarrow> 1 \<le> i \<and> i < 256"
  by (simp_all add: boot_process_def process_init_spec reach_init)
    (simp_all add: paging_st.extend_def process_st.fields_def)

section \<open>Properties\<close>

text \<open>C12 (functional, error): \<open>process_create\<close> fills the first free slot in the order of
  \<open>next_pid\<close>, if its stack is free, with a READY process at the top of its own stack and the
  given entry point, and changes only family links elsewhere; otherwise it answers the null
  pointer and frees or takes no slot.\<close>

theorem process_create_ready:
  assumes "process_wf s" "process_create name entry_point priority s = (r, s')"
  shows "case r of
      None \<Rightarrow> (\<forall>j. slot_free s' j = slot_free s j) \<and>
        ((\<forall>i. 1 \<le> i \<and> i < 256 \<longrightarrow> \<not> slot_free s i) \<or> (\<exists>i < 256. slot_free s i \<and> stack_allocated s i))
    | Some i \<Rightarrow> 1 \<le> i \<and> i < 256 \<and> slot_free s i \<and> \<not> stack_allocated s i \<and>
        (\<forall>j. tried_before (unat (next_pid s)) j i \<longrightarrow> \<not> slot_free s j) \<and>
        process_table s' i = fresh_pcb name entry_point priority i s \<and> stack_allocated s' i \<and>
        (\<forall>j. j \<noteq> i \<longrightarrow> family_only (process_table s j) (process_table s' j))"
proof -
  have np: "1 \<le> unat (next_pid s)" "unat (next_pid s) \<le> 256" using assms(1) by (simp_all add: process_wf_def)
  from np show ?thesis
  proof (cases rule: allocate_pid_cases)
    case full
    then have "r = None" "s' = kerror ''Failed to create process: no free PIDs'' [] s"
      using assms(2) by (simp_all add: process_create_full)
    then show ?thesis using full(2) by (simp add: slot_free_def)
  next
    case (slot i)
    note c = process_create_slot [OF slot(1,3), of name entry_point priority, unfolded assms(2) fst_conv snd_conv]
    show ?thesis
    proof (cases "stack_allocated s i")
      case True
      then have "slot_free s' j = slot_free s j" for j
        using c(6) slot(4) by (auto simp: slot_free_def wiped_pcb_def)
      then show ?thesis using True c(1) slot(3,4) by auto
    next
      case False
      then show ?thesis using c(1,5,6) slot by (auto split: option.split)
    qed
  qed
qed

theorem process_create_ready_witness:
  "\<exists>i s'. process_create (Some ''init'') 0x1000 PROCESS_PRIORITY_NORMAL boot_process = (Some i, s') \<and>
     process_table s' i = fresh_pcb (Some ''init'') 0x1000 PROCESS_PRIORITY_NORMAL i boot_process"
proof -
  obtain r s' where c: "process_create (Some ''init'') 0x1000 PROCESS_PRIORITY_NORMAL boot_process = (r, s')"
    by fastforce
  have "\<not> (\<forall>i. 1 \<le> i \<and> i < 256 \<longrightarrow> \<not> slot_free boot_process i)" by (auto simp: boot_process_reach)
  then show ?thesis
    using process_create_ready [OF boot_process_reach(2) c] c by (auto simp: boot_process_reach split: option.splits)
qed

text \<open>C36 (type): a process table the kernel can reach is well typed: every slot holds the PID that is its index, a name
  in its 32 bytes, at most sixteen children, and parents, children and the current process are slots of the table.\<close>

theorem process_table_typed:
  assumes "process_reach s" "i < 256"
  shows "p_pid (process_table s i) = of_nat i \<and> length (p_name (process_table s i)) = 32 \<and>
    length (p_children (process_table s i)) = 16 \<and> unat (p_num_children (process_table s i)) \<le> 16 \<and>
    set_option (p_parent (process_table s i)) \<subseteq> {..<256} \<and>
    set (take (unat (p_num_children (process_table s i))) (p_children (process_table s i))) \<subseteq> Some ` {..<256} \<and>
    set_option (current_process s) \<subseteq> {..<256} \<and> unat (next_pid s) \<in> {1..256}"
proof -
  have ok: "pcb_ok i (process_table s i)" "set_option (current_process s) \<subseteq> {..<256}" "unat (next_pid s) \<in> {1..256}"
    using process_reach_wf [OF assms(1)] assms(2) by (auto simp: process_wf_def)
  then have "\<exists>c < 256. p_children (process_table s i) ! k = Some c"
    if "k < unat (p_num_children (process_table s i))" for k
    using that by (auto simp: pcb_ok_def)
  then have "set (take (unat (p_num_children (process_table s i))) (p_children (process_table s i))) \<subseteq> Some ` {..<256}"
    by (fastforce simp: in_set_conv_nth)
  then show ?thesis using ok by (auto simp: pcb_ok_def)
qed

theorem process_table_typed_witness:
  "process_reach (snd (process_create None 0 PROCESS_PRIORITY_LOW boot_process)) \<and>
    length (p_name (process_table (snd (process_create None 0 PROCESS_PRIORITY_LOW boot_process)) 1)) = 32"
proof -
  have r: "process_reach (snd (process_create None 0 PROCESS_PRIORITY_LOW boot_process))"
    using boot_process_reach(1) by (rule reach_create)
  show ?thesis using process_table_typed [OF r, of 1] r by simp
qed

text \<open>C22 (safety): in every process table the kernel can reach, two processes that are not
  terminated (the idle process apart) have kernel stacks that do not overlap.\<close>

theorem live_stacks_disjoint:
  assumes "process_reach s" "unat (process_stacks_at s) + 256 * 4096 \<le> 2 ^ 32"
    "1 \<le> i" "i < 256" "1 \<le> j" "j < 256" "i \<noteq> j" "\<not> slot_free s i" "\<not> slot_free s j"
  shows "let a = unat (p_kernel_stack (process_table s i)); b = unat (p_kernel_stack (process_table s j))
    in {a..<a + 4096} \<inter> {b..<b + 4096} = {}"
proof -
  have "unat (process_stacks_at s + of_nat k * 4096) = unat (process_stacks_at s) + k * 4096" if "k < 256" for k
  proof -
    have "(of_nat k * 4096 :: u32) = of_nat (k * 4096)" by simp
    then show ?thesis using unat_offset [of "process_stacks_at s" "k * 4096"] assms(2) that by simp
  qed
  then have "unat (p_kernel_stack (process_table s k)) = unat (process_stacks_at s) + k * 4096"
    if "1 \<le> k" "k < 256" "\<not> slot_free s k" for k
    using process_reach_wf [OF assms(1)] that by (simp add: process_wf_def)
  then have e: "unat (p_kernel_stack (process_table s i)) = unat (process_stacks_at s) + i * 4096"
    "unat (p_kernel_stack (process_table s j)) = unat (process_stacks_at s) + j * 4096" using assms by simp_all
  have "i * 4096 + 4096 \<le> j * 4096 \<or> j * 4096 + 4096 \<le> i * 4096" using assms(7) by arith
  then show ?thesis unfolding Let_def e by auto
qed

theorem live_stacks_disjoint_witness:
  "\<exists>s :: process_st. process_reach s \<and> \<not> slot_free s 1 \<and> \<not> slot_free s 2 \<and>
    (let a = unat (p_kernel_stack (process_table s 1)); b = unat (p_kernel_stack (process_table s 2))
     in {a..<a + 4096} \<inter> {b..<b + 4096} = {})"
proof -
  define s1 where "s1 = snd (process_create None 0 PROCESS_PRIORITY_LOW boot_process)"
  define s2 where "s2 = snd (process_create None 0 PROCESS_PRIORITY_LOW s1)"
  have al1: "process_allocate_pid boot_process = (of_nat 1, boot_process\<lparr>next_pid := 2\<rparr>)"
  proof -
    have "1 \<le> unat (next_pid boot_process)" "unat (next_pid boot_process) \<le> 256"
      by (simp_all add: boot_process_reach)
    then show ?thesis
    proof (cases rule: allocate_pid_cases)
    case (slot i)
    from slot(2-) have "i = 1" by (cases "i = 1") (auto simp: boot_process_reach tried_before_def dest: spec [of _ 1])
    with slot(1) show ?thesis by simp
    qed (auto simp: boot_process_reach)
  qed
  note c1 = process_create_slot [OF al1, of None 0 PROCESS_PRIORITY_LOW, folded s1_def, simplified boot_process_reach, simplified]
  have free1: "slot_free s1 i \<longleftrightarrow> 2 \<le> i \<and> i < 256" for i
    using boot_process_reach(7) [of i]
    by (auto simp: slot_free_def c1 fresh_pcb_def zero_process_def Let_def with_child_def)
  have al2: "process_allocate_pid s1 = (of_nat 2, s1\<lparr>next_pid := 3\<rparr>)"
  proof -
    have "1 \<le> unat (next_pid s1)" "unat (next_pid s1) \<le> 256" by (simp_all add: c1)
    then show ?thesis
    proof (cases rule: allocate_pid_cases)
    case (slot i)
    from slot(2-) have "i = 2" by (cases "i = 2") (auto simp: c1 free1 tried_before_def dest: spec [of _ 2])
    with slot(1) show ?thesis by simp
    qed (auto simp: c1 free1 dest: spec [of _ 2])
  qed
  note c2 = process_create_slot [OF al2, of None 0 PROCESS_PRIORITY_LOW, folded s2_def, simplified c1, simplified]
  have live: "\<not> slot_free s2 1" "\<not> slot_free s2 2"
    using free1 by (auto simp: slot_free_def c2 fresh_pcb_def zero_process_def Let_def with_child_def)
  have r: "process_reach s2"
    unfolding s2_def s1_def by (intro reach_create boot_process_reach)
  have at: "process_stacks_at s2 = 0x110000" by (simp add: c2)
  show ?thesis
    using live_stacks_disjoint [OF r, of 1 2] live r at by (intro exI [of _ s2]) simp
qed

text \<open>C23 (termination, functional): destroying a process other than the idle one returns; it
  frees its slot and its stack, keeps the invariant of the table (its own loops over
  families included), and changes only family links elsewhere.\<close>

theorem process_destroy_frees:
  assumes "process_wf s" "1 \<le> i" "i < 256"
  shows "\<exists>s'. process_destroy (Some i) s = Some s' \<and> process_wf s' \<and> slot_free s' i \<and>
    stack_allocated s' = (stack_allocated s)(i := False) \<and> process_get_by_pid (of_nat i) s' = None \<and>
    (\<forall>j. j \<noteq> i \<longrightarrow> family_only (process_table s j) (process_table s' j))"
proof -
  have "unat (of_nat i :: u32) = i" using assms(3) by simp
  then show ?thesis
    using process_destroy_spec [OF assms] assms(3)
    by (auto simp: slot_free_def process_get_by_pid_def MAX_PROCESSES_def)
qed

theorem process_destroy_frees_witness:
  "\<exists>s'. process_destroy (Some 7) boot_process = Some s' \<and> process_wf s' \<and> slot_free s' 7"
  using process_destroy_frees [OF boot_process_reach(2), of 7] by auto

text \<open>Fact (error): a process that exits leaves its slot free but its stack taken, so that the
  next creation in that slot fails although there are free slots.\<close>

theorem exit_leaks_slot:
  assumes "process_wf s" "current_process s = Some c" "1 \<le> c" "\<not> slot_free s c" "next_pid s = of_nat c"
  shows "slot_free (process_exit code s) c \<and>
    fst (process_create name entry_point priority (process_exit code s)) = None"
proof -
  define s1 where "s1 = process_exit code s"
  have c: "c < 256" using assms(1,2) by (simp add: process_wf_def)
  have uc: "unat (of_nat c :: u32) = c" using c by simp
  have free: "slot_free s1 c" by (simp add: s1_def process_exit_def assms(2) slot_free_def)
  have s1: "next_pid s1 = of_nat c" "stack_allocated s1 = stack_allocated s"
    using assms(5) by (simp_all add: s1_def process_exit_def assms(2))
  have stack: "stack_allocated s1 c" using assms(1,3,4) c by (simp add: s1(2) process_wf_def)
  have al: "process_allocate_pid s1 = (of_nat c, s1\<lparr>next_pid := of_nat c + 1\<rparr>)"
  proof -
    have "1 \<le> unat (next_pid s1)" "unat (next_pid s1) \<le> 256" unfolding s1 uc using assms(3) c by simp_all
    then show ?thesis
    proof (cases rule: allocate_pid_cases)
      case full
      then show ?thesis using free c assms(3) by blast
    next
      case (slot i)
      have "tried_before c c i" if "i \<noteq> c"
        using that c slot(2,3) by (auto simp: tried_before_def)
      then have "i = c" using slot(5) free unfolding s1 uc by blast
      with slot(1) show ?thesis by simp
    qed
  qed
  show ?thesis
    using free process_create_slot(1) [OF al c, of name entry_point priority] stack by (simp add: s1_def)
qed

lemma pcb_ok_running: "pcb_ok j p \<Longrightarrow> pcb_ok j (p\<lparr>p_state := x, p_kernel_stack := y\<rparr>)"
  by (simp add: pcb_ok_def)

theorem exit_leaks_slot_witness:
  "\<exists>s :: process_st. current_process s = Some 1 \<and> slot_free (process_exit 0 s) 1 \<and>
    fst (process_create None 0 PROCESS_PRIORITY_LOW (process_exit 0 s)) = None"
proof -
  define s where "s = boot_process\<lparr>current_process := Some 1, stack_allocated := (\<lambda>_. True),
    process_table := (process_table boot_process)(1 := (process_table boot_process 1)
      \<lparr>p_state := PROCESS_STATE_RUNNING, p_kernel_stack := 0x111000\<rparr>)\<rparr>"
  have free: "slot_free s i \<longleftrightarrow> 2 \<le> i \<and> i < 256" for i
    using boot_process_reach(7) [of i] by (auto simp: s_def slot_free_def)
  have "pcb_ok j (process_table boot_process j)" if "j < 256" for j
    using boot_process_reach(2) that by (simp add: process_wf_def)
  then have ok: "pcb_ok j (process_table s j)" if "j < 256" for j
    using that by (cases "j = 1") (simp_all add: s_def pcb_ok_running)
  have "stack_allocated s j \<and> p_kernel_stack (process_table s j) = process_stacks_at s + of_nat j * 4096"
    if "1 \<le> j" "j < 256" "\<not> slot_free s j" for j
  proof -
    have "j = 1" using that free by auto
    then show ?thesis by (simp add: s_def boot_process_reach(5))
  qed
  then have "process_wf s"
    using ok by (simp add: process_wf_def) (simp add: s_def boot_process_reach(4))
  then show ?thesis
    using exit_leaks_slot [of s 1 0 None 0 PROCESS_PRIORITY_LOW] free
    by (intro exI [of _ s]) (auto simp: s_def boot_process_reach(4))
qed

end
