(* ===== verification/Descriptors.thy ===== *)
theory Descriptors
  imports Process_Theorems
begin

text \<open>
  The descriptor tables of \<^verbatim>\<open>src/kernel/gdt.c\<close>, \<^verbatim>\<open>idt.c\<close> and \<^verbatim>\<open>tss.c\<close>: the packed entries
  field by field, the setup code, and how the processor reads an entry back. The
  addresses the linker gives the tables and the interrupt stubs are fields and
  arguments.
\<close>

section \<open>State\<close>

record gdt_entry =
  limit_low :: u16
  base_low :: u16
  base_middle :: u8
  access :: u8
  granularity :: u8
  base_high :: u8

record idt_entry =
  offset_low :: u16
  selector :: u16
  idt_zero :: u8
  type_attr :: u8
  offset_high :: u16

record table_ptr =
  tab_limit :: u16
  tab_base :: u32

record tss_entry_t =
  prev_tss :: u32
  esp0 :: u32
  ss0 :: u32
  esp1 :: u32
  ss1 :: u32
  esp2 :: u32
  ss2 :: u32
  t_cr3 :: u32
  t_eip :: u32
  t_eflags :: u32
  t_eax :: u32
  t_ecx :: u32
  t_edx :: u32
  t_ebx :: u32
  t_esp :: u32
  t_ebp :: u32
  t_esi :: u32
  t_edi :: u32
  t_es :: u32
  t_cs :: u32
  t_ss :: u32
  t_ds :: u32
  t_fs :: u32
  t_gs :: u32
  t_ldt :: u32
  trap :: u16
  iomap_base :: u16

text \<open>\<open>gdtr\<close>, \<open>idtr\<close> and \<open>task_register\<close> are the processor's; \<open>cpu\<close> holds its other
  registers, \<open>cpu_cs\<close> the code segment. The \<open>_at\<close> fields are link addresses.\<close>

record desc_st = process_st +
  gdt :: "nat \<Rightarrow> gdt_entry"
  gdt_pointer :: table_ptr
  idt :: "nat \<Rightarrow> idt_entry"
  idt_pointer :: table_ptr
  kernel_tss :: tss_entry_t
  gdtr :: table_ptr
  idtr :: table_ptr
  task_register :: u16
  cpu :: registers_t
  cpu_cs :: u32
  gdt_at :: u32
  idt_at :: u32
  kernel_tss_at :: u32
  process_table_at :: u32

definition KERNEL_CODE_SEG :: u16 where "KERNEL_CODE_SEG = 0x08"
definition KERNEL_DATA_SEG :: u16 where "KERNEL_DATA_SEG = 0x10"
definition USER_CODE_SEG :: u16 where "USER_CODE_SEG = 0x18"
definition USER_DATA_SEG :: u16 where "USER_DATA_SEG = 0x20"

definition GDT_PRESENT :: u8 where "GDT_PRESENT = 0x80"
definition GDT_RING0 :: u8 where "GDT_RING0 = 0x00"
definition GDT_RING3 :: u8 where "GDT_RING3 = 0x60"
definition GDT_SYSTEM :: u8 where "GDT_SYSTEM = 0x10"
definition GDT_EXECUTABLE :: u8 where "GDT_EXECUTABLE = 0x08"
definition GDT_WRITABLE :: u8 where "GDT_WRITABLE = 0x02"
definition GDT_4K_GRAN :: u8 where "GDT_4K_GRAN = 0x80"
definition GDT_32BIT :: u8 where "GDT_32BIT = 0x40"

section \<open>The global descriptor table\<close>

definition gdt_set_gate :: "nat \<Rightarrow> u32 \<Rightarrow> u32 \<Rightarrow> u8 \<Rightarrow> u8 \<Rightarrow> 'a desc_st_scheme \<Rightarrow> 'a desc_st_scheme" where
  "gdt_set_gate num base limit acc gran s =
     s\<lparr>gdt := (gdt s)(num := \<lparr>
         limit_low = ucast (limit AND 0xFFFF),
         base_low = ucast (base AND 0xFFFF),
         base_middle = ucast (drop_bit 16 base AND 0xFF),
         access = acc,
         granularity = ucast (drop_bit 16 limit AND 0x0F) OR (gran AND 0xF0),
         base_high = ucast (drop_bit 24 base AND 0xFF)\<rparr>)\<rparr>"

definition gdt_flush :: "'a desc_st_scheme \<Rightarrow> 'a desc_st_scheme" where
  "gdt_flush s = s\<lparr>gdtr := gdt_pointer s,
     cpu := (cpu s)\<lparr>r_ds := 0x10, r_es := 0x10, r_fs := 0x10, r_gs := 0x10, r_ss := 0x10\<rparr>, cpu_cs := 0x08\<rparr>"

definition gdt_init :: "'a desc_st_scheme \<Rightarrow> 'a desc_st_scheme" where
  "gdt_init s =
     (let s = kinfo ''Initializing Global Descriptor Table (GDT)'' [] s;
          s = s\<lparr>gdt_pointer := \<lparr>tab_limit = 8 * 6 - 1, tab_base = gdt_at s\<rparr>\<rparr>;
          s = kprintk (''  GDT Base: 0x%X, Limit: %u bytes'' @ [CHR 0x0A])
                [VInt (tab_base (gdt_pointer s)), VInt (ucast (tab_limit (gdt_pointer s)) + 1)] s;
          s = gdt_set_gate 0 0 0 0 0 s;
          s = gdt_set_gate 1 0 0xFFFFFFFF
                (GDT_PRESENT OR GDT_RING0 OR GDT_SYSTEM OR GDT_EXECUTABLE OR GDT_WRITABLE)
                (GDT_4K_GRAN OR GDT_32BIT) s;
          s = gdt_set_gate 2 0 0xFFFFFFFF
                (GDT_PRESENT OR GDT_RING0 OR GDT_SYSTEM OR GDT_WRITABLE)
                (GDT_4K_GRAN OR GDT_32BIT) s;
          s = gdt_set_gate 3 0 0xFFFFFFFF
                (GDT_PRESENT OR GDT_RING3 OR GDT_SYSTEM OR GDT_EXECUTABLE OR GDT_WRITABLE)
                (GDT_4K_GRAN OR GDT_32BIT) s;
          s = gdt_set_gate 4 0 0xFFFFFFFF
                (GDT_PRESENT OR GDT_RING3 OR GDT_SYSTEM OR GDT_WRITABLE)
                (GDT_4K_GRAN OR GDT_32BIT) s;
          s = gdt_flush s;
          s = kprintk (''  [OK] GDT loaded with %d entries'' @ [CHR 0x0A]) [VInt 6] s;
          s = kprintk (''       Kernel CS: 0x%02X, DS: 0x%02X'' @ [CHR 0x0A])
                [VInt (ucast KERNEL_CODE_SEG), VInt (ucast KERNEL_DATA_SEG)] s
      in kprintk (''       User CS: 0x%02X, DS: 0x%02X'' @ [CHR 0x0A])
           [VInt (ucast (USER_CODE_SEG OR 3)), VInt (ucast (USER_DATA_SEG OR 3))] s)"

definition gdt_get_kernel_cs :: u16 where "gdt_get_kernel_cs = KERNEL_CODE_SEG"
definition gdt_get_kernel_ds :: u16 where "gdt_get_kernel_ds = KERNEL_DATA_SEG"

section \<open>The task state segment\<close>

definition zero_tss :: tss_entry_t where
  "zero_tss = \<lparr>prev_tss = 0, esp0 = 0, ss0 = 0, esp1 = 0, ss1 = 0, esp2 = 0, ss2 = 0, t_cr3 = 0,
     t_eip = 0, t_eflags = 0, t_eax = 0, t_ecx = 0, t_edx = 0, t_ebx = 0, t_esp = 0, t_ebp = 0,
     t_esi = 0, t_edi = 0, t_es = 0, t_cs = 0, t_ss = 0, t_ds = 0, t_fs = 0, t_gs = 0, t_ldt = 0,
     trap = 0, iomap_base = 0\<rparr>"

definition SIZEOF_TSS :: u32 where "SIZEOF_TSS = 104"

definition tss_flush :: "'a desc_st_scheme \<Rightarrow> 'a desc_st_scheme" where
  "tss_flush s = s\<lparr>task_register := 0x28\<rparr>"

definition tss_init :: "u32 \<Rightarrow> 'a desc_st_scheme \<Rightarrow> 'a desc_st_scheme" where
  "tss_init kernel_stack s =
     (let s = kinfo ''Initializing Task State Segment (TSS)'' [] s;
          s = s\<lparr>kernel_tss := zero_tss\<rparr>;
          s = s\<lparr>kernel_tss := (kernel_tss s)\<lparr>ss0 := 0x10, esp0 := kernel_stack\<rparr>\<rparr>;
          s = s\<lparr>kernel_tss := (kernel_tss s)\<lparr>t_cs := 0x0b, t_ss := 0x10, t_ds := 0x10, t_es := 0x10,
                t_fs := 0x10, t_gs := 0x10\<rparr>\<rparr>;
          s = s\<lparr>kernel_tss := (kernel_tss s)\<lparr>iomap_base := ucast SIZEOF_TSS\<rparr>\<rparr>;
          base = kernel_tss_at s;
          limit = SIZEOF_TSS - 1;
          s = gdt_set_gate 5 base limit 0xE9 0x00 s;
          s = kprintk (''  TSS at 0x%08X, size %d bytes'' @ [CHR 0x0A]) [VInt base, VInt (limit + 1)] s;
          s = kprintk (''  Kernel stack: SS=0x%04X, ESP=0x%08X'' @ [CHR 0x0A])
                [VInt (ss0 (kernel_tss s)), VInt (esp0 (kernel_tss s))] s;
          s = tss_flush s
      in kprintk (''  [OK] TSS initialized and loaded'' @ [CHR 0x0A]) [] s)"

definition tss_set_kernel_stack :: "u32 \<Rightarrow> 'a desc_st_scheme \<Rightarrow> 'a desc_st_scheme" where
  "tss_set_kernel_stack stack s = s\<lparr>kernel_tss := (kernel_tss s)\<lparr>esp0 := stack\<rparr>\<rparr>"

section \<open>The interrupt descriptor table\<close>

definition IDT_PRESENT :: u8 where "IDT_PRESENT = 0x80"
definition IDT_RING0 :: u8 where "IDT_RING0 = 0x00"
definition IDT_RING3 :: u8 where "IDT_RING3 = 0x60"
definition IDT_INT_GATE :: u8 where "IDT_INT_GATE = 0x0E"

definition idt_set_gate :: "u8 \<Rightarrow> u32 \<Rightarrow> u16 \<Rightarrow> u8 \<Rightarrow> 'a desc_st_scheme \<Rightarrow> 'a desc_st_scheme" where
  "idt_set_gate num handler sel flags s =
     s\<lparr>idt := (idt s)(unat num := \<lparr>
         offset_low = ucast (handler AND 0xFFFF),
         selector = sel,
         idt_zero = 0,
         type_attr = flags,
         offset_high = ucast (drop_bit 16 handler AND 0xFFFF)\<rparr>)\<rparr>"

fun idt_clear_loop :: "nat list \<Rightarrow> 'a desc_st_scheme \<Rightarrow> 'a desc_st_scheme" where
  "idt_clear_loop [] s = s"
| "idt_clear_loop (i # is) s = idt_clear_loop is (idt_set_gate (of_nat i) 0 0 0 s)"

text \<open>The run of calls that install the stubs, first gate by first gate; \<open>stub i\<close> is the
  address of the stub of gate \<open>i\<close> (\<^verbatim>\<open>isr0\<close> to \<^verbatim>\<open>isr31\<close>, then \<^verbatim>\<open>irq0\<close> to \<^verbatim>\<open>irq15\<close>).\<close>

fun idt_install :: "(nat \<Rightarrow> u32) \<Rightarrow> u16 \<Rightarrow> nat list \<Rightarrow> 'a desc_st_scheme \<Rightarrow> 'a desc_st_scheme" where
  "idt_install stub kernel_cs [] s = s"
| "idt_install stub kernel_cs (i # is) s =
     idt_install stub kernel_cs is
       (idt_set_gate (of_nat i) (stub i) kernel_cs (IDT_PRESENT OR IDT_RING0 OR IDT_INT_GATE) s)"

definition idt_flush :: "'a desc_st_scheme \<Rightarrow> 'a desc_st_scheme" where
  "idt_flush s = s\<lparr>idtr := idt_pointer s\<rparr>"

definition idt_init :: "(nat \<Rightarrow> u32) \<Rightarrow> 'a desc_st_scheme \<Rightarrow> 'a desc_st_scheme" where
  "idt_init stub s =
     (let s = kinfo ''Initializing Interrupt Descriptor Table (IDT)'' [] s;
          s = s\<lparr>idt_pointer := \<lparr>tab_limit = 8 * 256 - 1, tab_base = idt_at s\<rparr>\<rparr>;
          s = kprintk (''  IDT Base: 0x%X, Limit: %u bytes (%d entries)'' @ [CHR 0x0A])
                [VInt (tab_base (idt_pointer s)), VInt (ucast (tab_limit (idt_pointer s)) + 1), VInt 256] s;
          s = idt_clear_loop [0..<256] s;
          kernel_cs = gdt_get_kernel_cs;
          s = idt_install stub kernel_cs [0..<32] s;
          s = idt_install stub kernel_cs [32..<48] s;
          s = idt_flush s
      in kprintk (''  [OK] IDT loaded with exception handlers (0-31) and IRQ handlers (32-47)'' @ [CHR 0x0A]) [] s)"

section \<open>The processor's reading of the entries\<close>

definition desc_base :: "gdt_entry \<Rightarrow> u32" where
  "desc_base e = ucast (base_low e) OR push_bit 16 (ucast (base_middle e)) OR push_bit 24 (ucast (base_high e))"

definition desc_limit :: "gdt_entry \<Rightarrow> u32" where
  "desc_limit e = ucast (limit_low e) OR push_bit 16 (ucast (granularity e AND 0x0F))"

text \<open>With the granularity bit the limit counts 4 KB units; the last valid offset.\<close>

definition desc_last :: "gdt_entry \<Rightarrow> u32" where
  "desc_last e = (if bit (granularity e) 7 then push_bit 12 (desc_limit e) OR 0xFFF else desc_limit e)"

definition desc_dpl :: "gdt_entry \<Rightarrow> nat" where
  "desc_dpl e = unat (drop_bit 5 (access e) AND 3)"

definition desc_present :: "gdt_entry \<Rightarrow> bool" where
  "desc_present e \<longleftrightarrow> bit (access e) 7"

definition desc_is_code :: "gdt_entry \<Rightarrow> bool" where
  "desc_is_code e \<longleftrightarrow> bit (access e) 4 \<and> bit (access e) 3"

definition desc_is_data :: "gdt_entry \<Rightarrow> bool" where
  "desc_is_data e \<longleftrightarrow> bit (access e) 4 \<and> \<not> bit (access e) 3"

text \<open>An available 32-bit TSS is a system descriptor of type 9.\<close>

definition desc_is_tss :: "gdt_entry \<Rightarrow> bool" where
  "desc_is_tss e \<longleftrightarrow> access e AND 0x1F = 0x09"

definition gate_offset :: "idt_entry \<Rightarrow> u32" where
  "gate_offset e = ucast (offset_low e) OR push_bit 16 (ucast (offset_high e))"

definition gate_present :: "idt_entry \<Rightarrow> bool" where
  "gate_present e \<longleftrightarrow> bit (type_attr e) 7"

definition gate_dpl :: "idt_entry \<Rightarrow> nat" where
  "gate_dpl e = unat (drop_bit 5 (type_attr e) AND 3)"

definition gate_is_interrupt :: "idt_entry \<Rightarrow> bool" where
  "gate_is_interrupt e \<longleftrightarrow> type_attr e AND 0x1F = 0x0E"

text \<open>What \<^verbatim>\<open>int n\<close> in ring \<open>cpl\<close> does: the handler's address, or nothing (a fault).\<close>

definition int_target :: "nat \<Rightarrow> nat \<Rightarrow> 'a desc_st_scheme \<Rightarrow> u32 option" where
  "int_target cpl n s =
     (if gate_present (idt s n) \<and> cpl \<le> gate_dpl (idt s n) then Some (gate_offset (idt s n)) else None)"

section \<open>Properties\<close>

lemma kout_desc [simp]:
  "gdt (kprintk fmt args s) = gdt s" "gdt (kinfo fmt args s) = gdt s"
  "idt (kprintk fmt args s) = idt s" "idt (kinfo fmt args s) = idt s"
  "kernel_tss (kprintk fmt args s) = kernel_tss s" "kernel_tss (kinfo fmt args s) = kernel_tss s"
  "kernel_tss_at (kprintk fmt args s) = kernel_tss_at s" "kernel_tss_at (kinfo fmt args s) = kernel_tss_at s"
  "gdt_pointer (kprintk fmt args s) = gdt_pointer s" "gdt_at (kinfo fmt args s) = gdt_at s"
  "gdtr (kprintk fmt args s) = gdtr s" "cpu_cs (kprintk fmt args s) = cpu_cs s"
  "task_register (kprintk fmt args s) = task_register s"
  "idt_pointer (kprintk fmt args s) = idt_pointer s" "idt_at (kinfo fmt args s) = idt_at s"
  "idtr (kprintk fmt args s) = idtr s" "cpu (kprintk fmt args s) = cpu s"
  by (simp_all add: kout_defs)

lemma gdt_gate_decode:
  "desc_base (gdt (gdt_set_gate n base limit acc gran s) n) = base"
  "desc_limit (gdt (gdt_set_gate n base limit acc gran s) n) = limit AND 0xFFFFF"
  "access (gdt (gdt_set_gate n base limit acc gran s) n) = acc"
  "granularity (gdt (gdt_set_gate n base limit acc gran s) n) AND 0xF0 = gran AND 0xF0"
  "m \<noteq> n \<Longrightarrow> gdt (gdt_set_gate n base limit acc gran s) m = gdt s m"
proof -
  have m: "(0xFFFF :: u32) = mask 16" "(0xFF :: u32) = mask 8" "(0x0F :: u32) = mask 4" "(0x0F :: u8) = mask 4"
    "(0xFFFFF :: u32) = mask 20" "(0xF0 :: u8) = NOT (mask 4)"
    by (simp_all add: mask_eq_exp_minus_1)
  show "desc_base (gdt (gdt_set_gate n base limit acc gran s) n) = base"
  proof (rule bit_word_eqI)
    fix k assume "k < LENGTH(32)"
    then consider "k < 16" | "16 \<le> k \<and> k < 24" | "24 \<le> k \<and> k < 32" by fastforce
    then show "bit (desc_base (gdt (gdt_set_gate n base limit acc gran s) n)) k = bit base k"
      by cases (auto simp: gdt_set_gate_def desc_base_def m bit_simps)
  qed
  show "desc_limit (gdt (gdt_set_gate n base limit acc gran s) n) = limit AND 0xFFFFF"
  proof (rule bit_word_eqI)
    fix k assume "k < LENGTH(32)"
    then consider "k < 16" | "16 \<le> k \<and> k < 20" | "20 \<le> k \<and> k < 32" by fastforce
    then show "bit (desc_limit (gdt (gdt_set_gate n base limit acc gran s) n)) k = bit (limit AND 0xFFFFF) k"
      by cases (auto simp: gdt_set_gate_def desc_limit_def m bit_simps)
  qed
  show "granularity (gdt (gdt_set_gate n base limit acc gran s) n) AND 0xF0 = gran AND 0xF0"
    unfolding m by (rule bit_word_eqI) (auto simp: gdt_set_gate_def m bit_simps)
qed (simp_all add: gdt_set_gate_def)

text \<open>Fact (roundtrip): the processor reads back from a descriptor the base it was given, the low
  twenty bits of the limit, the access byte and the granularity flags, and no other entry
  changes.\<close>

theorem gdt_set_gate_roundtrip:
  "let s' = gdt_set_gate n base limit acc gran s in
     desc_base (gdt s' n) = base \<and> desc_limit (gdt s' n) = limit AND 0xFFFFF \<and> access (gdt s' n) = acc \<and>
     granularity (gdt s' n) AND 0xF0 = gran AND 0xF0 \<and> (\<forall>m. m = n \<or> gdt s' m = gdt s m)"
  by (auto simp: Let_def gdt_gate_decode) (metis gdt_gate_decode(5))

lemma gate_last:
  "bit gran 7 \<Longrightarrow> desc_last (gdt (gdt_set_gate n base limit acc gran s) n) = push_bit 12 (limit AND 0xFFFFF) OR 0xFFF"
  "\<not> bit gran 7 \<Longrightarrow> desc_last (gdt (gdt_set_gate n base limit acc gran s) n) = limit AND 0xFFFFF"
proof -
  have m: "(0xF0 :: u8) = NOT (mask 4)" by (simp add: mask_eq_exp_minus_1)
  have "bit (g AND 0xF0) 7 = bit g 7" for g :: u8 unfolding m by (simp add: bit_simps)
  then have "bit (granularity (gdt (gdt_set_gate n base limit acc gran s) n)) 7 = bit gran 7"
    by (metis gdt_gate_decode(4))
  then show "bit gran 7 \<Longrightarrow> desc_last (gdt (gdt_set_gate n base limit acc gran s) n) = push_bit 12 (limit AND 0xFFFFF) OR 0xFFF"
    "\<not> bit gran 7 \<Longrightarrow> desc_last (gdt (gdt_set_gate n base limit acc gran s) n) = limit AND 0xFFFFF"
    by (simp_all add: desc_last_def gdt_gate_decode)
qed

lemma gdt_init_entries:
  "gdt (gdt_init s) 0 = \<lparr>limit_low = 0, base_low = 0, base_middle = 0, access = 0, granularity = 0, base_high = 0\<rparr>"
  "gdt (gdt_init s) 1 = \<lparr>limit_low = 0xFFFF, base_low = 0, base_middle = 0, access = 0x9A, granularity = 0xCF, base_high = 0\<rparr>"
  "gdt (gdt_init s) 2 = \<lparr>limit_low = 0xFFFF, base_low = 0, base_middle = 0, access = 0x92, granularity = 0xCF, base_high = 0\<rparr>"
  "gdt (gdt_init s) 3 = \<lparr>limit_low = 0xFFFF, base_low = 0, base_middle = 0, access = 0xFA, granularity = 0xCF, base_high = 0\<rparr>"
  "gdt (gdt_init s) 4 = \<lparr>limit_low = 0xFFFF, base_low = 0, base_middle = 0, access = 0xF2, granularity = 0xCF, base_high = 0\<rparr>"
  by (simp_all add: gdt_init_def Let_def gdt_flush_def gdt_set_gate_def GDT_PRESENT_def GDT_RING0_def GDT_RING3_def GDT_SYSTEM_def
      GDT_EXECUTABLE_def GDT_WRITABLE_def GDT_4K_GRAN_def GDT_32BIT_def)

lemma gdt_init_loaded:
  "gdtr (gdt_init s) = \<lparr>tab_limit = 47, tab_base = gdt_at s\<rparr>" "cpu_cs (gdt_init s) = 8"
  "cpu (gdt_init s) = (cpu s)\<lparr>r_ds := 0x10, r_es := 0x10, r_fs := 0x10, r_gs := 0x10, r_ss := 0x10\<rparr>"
  by (simp_all add: gdt_init_def Let_def gdt_flush_def gdt_set_gate_def kout_defs)

text \<open>A state for the witnesses: the tables zeroed, at addresses the linker could choose.\<close>

definition boot_desc :: desc_st where
  "boot_desc = process_st.extend boot_process (desc_st.fields
     (\<lambda>_. \<lparr>limit_low = 0, base_low = 0, base_middle = 0, access = 0, granularity = 0, base_high = 0\<rparr>)
     \<lparr>tab_limit = 0, tab_base = 0\<rparr>
     (\<lambda>_. \<lparr>offset_low = 0, selector = 0, idt_zero = 0, type_attr = 0, offset_high = 0\<rparr>)
     \<lparr>tab_limit = 0, tab_base = 0\<rparr> zero_tss \<lparr>tab_limit = 0, tab_base = 0\<rparr> \<lparr>tab_limit = 0, tab_base = 0\<rparr>
     0 zero_registers 8 0x120000 0x120100 0x120900 0x121000)"

lemma boot_desc_at: "gdt_at boot_desc = 0x120000" "process_table_at boot_desc = 0x121000"
  "process_table boot_desc = process_table boot_process" "current_process boot_desc = Some 0"
  by (simp_all add: boot_desc_def desc_st.defs process_st.extend_def boot_process_reach)

text \<open>Fact (functional): after \<open>gdt_init\<close> the loaded table has a flat kernel and a flat user
  segment each for code and data, covering the whole address space, the user ones in ring 3,
  and the processor runs on the kernel ones.\<close>

theorem gdt_init_flat:
  "let s' = gdt_init s in
     gdtr s' = \<lparr>tab_limit = 47, tab_base = gdt_at s\<rparr> \<and> cpu_cs s' = 8 \<and> r_ds (cpu s') = 0x10 \<and>
     \<not> desc_present (gdt s' 0) \<and>
     (\<forall>i \<in> {1, 2, 3, 4}. desc_present (gdt s' i) \<and> desc_base (gdt s' i) = 0 \<and> desc_last (gdt s' i) = 0xFFFFFFFF) \<and>
     desc_is_code (gdt s' 1) \<and> desc_is_data (gdt s' 2) \<and> desc_is_code (gdt s' 3) \<and> desc_is_data (gdt s' 4) \<and>
     map (\<lambda>i. desc_dpl (gdt s' i)) [1, 2, 3, 4] = [0, 0, 3, 3]"
  unfolding Let_def gdt_init_loaded
  by (simp add: gdt_init_entries gdt_init_entries [unfolded One_nat_def] desc_present_def desc_base_def
      desc_last_def desc_limit_def desc_is_code_def desc_is_data_def desc_dpl_def bit_iff_odd)

theorem gdt_init_flat_witness:
  "desc_present (gdt (gdt_init boot_desc) 3) \<and> desc_last (gdt (gdt_init boot_desc) 3) = 0xFFFFFFFF \<and>
   gdtr (gdt_init boot_desc) = \<lparr>tab_limit = 47, tab_base = 0x120000\<rparr>"
  using gdt_init_flat [of boot_desc] boot_desc_at by (simp add: Let_def)

text \<open>Fact (functional): \<open>tss_init\<close> enters in slot 5, which the task register then selects, an
  available 32-bit TSS descriptor that covers exactly the 104 bytes of the structure, with
  the kernel stack given; the other entries are kept. Its privilege level is 3, so that ring 3
  may name it in a task switch.\<close>

theorem tss_init_descriptor:
  "let s' = tss_init stack s in
     desc_base (gdt s' 5) = kernel_tss_at s \<and> desc_last (gdt s' 5) = 103 \<and> desc_is_tss (gdt s' 5) \<and>
     desc_present (gdt s' 5) \<and> desc_dpl (gdt s' 5) = 3 \<and> task_register s' = 8 * 5 \<and>
     esp0 (kernel_tss s') = stack \<and> ss0 (kernel_tss s') = 0x10 \<and>
     unat (iomap_base (kernel_tss s')) = 104 \<and> (\<forall>m. m = 5 \<or> gdt s' m = gdt s m)"
proof -
  define t where "t = kinfo ''Initializing Task State Segment (TSS)'' [] s"
  define u where "u = t\<lparr>kernel_tss := zero_tss\<lparr>ss0 := 0x10, esp0 := stack, t_cs := 0x0b, t_ss := 0x10, t_ds := 0x10,
    t_es := 0x10, t_fs := 0x10, t_gs := 0x10, iomap_base := ucast SIZEOF_TSS\<rparr>\<rparr>"
  have g: "gdt (tss_init stack s) = gdt (gdt_set_gate 5 (kernel_tss_at s) 103 0xE9 0 u)"
    "kernel_tss (tss_init stack s) = kernel_tss u" "task_register (tss_init stack s) = 0x28"
    by (simp_all add: tss_init_def Let_def u_def t_def tss_flush_def SIZEOF_TSS_def gdt_set_gate_def)
  have uk: "esp0 (kernel_tss u) = stack" "ss0 (kernel_tss u) = 0x10" "iomap_base (kernel_tss u) = 104"
    by (simp_all add: u_def SIZEOF_TSS_def)
  have "gdt u = gdt s" by (simp add: u_def t_def)
  moreover have "(103 AND 0xFFFFF :: u32) = 103" by simp
  moreover have "desc_last (gdt (gdt_set_gate 5 (kernel_tss_at s) 103 0xE9 0 u) 5) = 103"
    using gate_last(2) [of 0 5 "kernel_tss_at s" 103 "0xE9" u] by simp
  ultimately show ?thesis
    unfolding Let_def g
    by (auto simp: gdt_gate_decode desc_is_tss_def desc_present_def desc_dpl_def bit_iff_odd uk)
      (metis gdt_gate_decode(5))
qed

lemma idt_gate_decode:
  "gate_offset (idt (idt_set_gate n h sel flags s) (unat n)) = h"
proof -
  have m: "(0xFFFF :: u32) = mask 16" by (simp add: mask_eq_exp_minus_1)
  show ?thesis
  proof (rule bit_word_eqI)
    fix k assume "k < LENGTH(32)"
    then consider "k < 16" | "16 \<le> k \<and> k < 32" by fastforce
    then show "bit (gate_offset (idt (idt_set_gate n h sel flags s) (unat n))) k = bit h k"
      by cases (auto simp: idt_set_gate_def gate_offset_def m bit_simps)
  qed
qed

lemma idt_clear_loop_gate:
  "\<forall>i \<in> set is. i < 256 \<Longrightarrow> idt (idt_clear_loop is s) n =
     (if n \<in> set is then \<lparr>offset_low = 0, selector = 0, idt_zero = 0, type_attr = 0, offset_high = 0\<rparr> else idt s n)"
proof (induction "is" s rule: idt_clear_loop.induct)
  case (2 i "is" s)
  have "unat (of_nat i :: u8) = i" using 2 by (simp add: unat_of_nat take_bit_nat_eq_self)
  then show ?case using 2 by (auto simp: idt_set_gate_def)
qed simp

lemma idt_install_gate:
  "\<forall>i \<in> set is. i < 256 \<Longrightarrow> distinct is \<Longrightarrow>
   (if n \<in> set is
    then gate_offset (idt (idt_install stub cs is s) n) = stub n \<and> selector (idt (idt_install stub cs is s) n) = cs \<and>
      type_attr (idt (idt_install stub cs is s) n) = 0x8E
    else idt (idt_install stub cs is s) n = idt s n)"
proof (induction stub cs "is" s rule: idt_install.induct)
  case (2 stub cs i "is" s)
  define s1 where "s1 = idt_set_gate (of_nat i) (stub i) cs (IDT_PRESENT OR IDT_RING0 OR IDT_INT_GATE) s"
  have i: "unat (of_nat i :: u8) = i" using 2 by (simp add: unat_of_nat take_bit_nat_eq_self)
  have "gate_offset (idt s1 i) = stub i" using idt_gate_decode [of "of_nat i"] i by (simp add: s1_def)
  moreover have "selector (idt s1 i) = cs" "type_attr (idt s1 i) = 0x8E" "m \<noteq> i \<Longrightarrow> idt s1 m = idt s m" for m
    using i by (simp_all add: s1_def idt_set_gate_def IDT_PRESENT_def IDT_RING0_def IDT_INT_GATE_def)
  moreover have "idt_install stub cs (i # is) s = idt_install stub cs is s1" by (simp add: s1_def)
  ultimately show ?case
    using "2.IH" "2.prems" unfolding s1_def [symmetric] by (cases "n = i") (auto split: if_splits)
qed simp

lemma idt_init_table:
  "idtr (idt_init stub s) = \<lparr>tab_limit = 2047, tab_base = idt_at s\<rparr>"
  "n < 48 \<Longrightarrow> gate_offset (idt (idt_init stub s) n) = stub n \<and> selector (idt (idt_init stub s) n) = 8 \<and>
     type_attr (idt (idt_init stub s) n) = 0x8E"
  "48 \<le> n \<Longrightarrow> n < 256 \<Longrightarrow> idt (idt_init stub s) n =
     \<lparr>offset_low = 0, selector = 0, idt_zero = 0, type_attr = 0, offset_high = 0\<rparr>"
proof -
  define s0 where "s0 = (kprintk (''  IDT Base: 0x%X, Limit: %u bytes (%d entries)'' @ [CHR 0x0A])
    [VInt (idt_at s), VInt 2048, VInt 256] ((kinfo ''Initializing Interrupt Descriptor Table (IDT)'' [] s)
      \<lparr>idt_pointer := \<lparr>tab_limit = 8 * 256 - 1, tab_base = idt_at s\<rparr>\<rparr>))"
  define t where "t = idt_install stub 8 [32..<48] (idt_install stub 8 [0..<32] (idt_clear_loop [0..<256] s0))"
  have idt: "idt (idt_init stub s) = idt t"
    by (simp add: idt_init_def Let_def t_def s0_def idt_flush_def gdt_get_kernel_cs_def KERNEL_CODE_SEG_def
        del: upt_rec_numeral)
  have ptr: "idt_pointer (idt_clear_loop is s) = idt_pointer s"
    "idt_pointer (idt_install stub cs is s) = idt_pointer s" for "is" cs and s :: "'a desc_st_scheme"
    by (induction "is" s rule: idt_clear_loop.induct; simp add: idt_set_gate_def)
      (induction stub cs "is" s rule: idt_install.induct; simp add: idt_set_gate_def)
  have r: "idtr (idt_init stub s) = \<lparr>tab_limit = 2047, tab_base = idt_at s\<rparr>"
    by (simp add: idt_init_def Let_def idt_flush_def ptr del: upt_rec_numeral)
  have low: "gate_offset (idt t n) = stub n \<and> selector (idt t n) = 8 \<and> type_attr (idt t n) = 0x8E" if "n < 48" for n
    using that idt_install_gate [of "[32..<48]" n stub 8 "idt_install stub 8 [0..<32] (idt_clear_loop [0..<256] s0)"]
      idt_install_gate [of "[0..<32]" n stub 8 "idt_clear_loop [0..<256] s0"]
    by (cases "n < 32") (auto simp: t_def simp del: upt_rec_numeral)
  have high: "idt t n = \<lparr>offset_low = 0, selector = 0, idt_zero = 0, type_attr = 0, offset_high = 0\<rparr>"
    if "48 \<le> n" "n < 256" for n
    using that idt_install_gate [of "[32..<48]" n stub 8 "idt_install stub 8 [0..<32] (idt_clear_loop [0..<256] s0)"]
      idt_install_gate [of "[0..<32]" n stub 8 "idt_clear_loop [0..<256] s0"] idt_clear_loop_gate [of "[0..<256]" s0 n]
    by (simp add: t_def del: upt_rec_numeral)
  show "idtr (idt_init stub s) = \<lparr>tab_limit = 2047, tab_base = idt_at s\<rparr>" by (rule r)
  show "n < 48 \<Longrightarrow> gate_offset (idt (idt_init stub s) n) = stub n \<and> selector (idt (idt_init stub s) n) = 8 \<and>
      type_attr (idt (idt_init stub s) n) = 0x8E"
    "48 \<le> n \<Longrightarrow> n < 256 \<Longrightarrow> idt (idt_init stub s) n =
      \<lparr>offset_low = 0, selector = 0, idt_zero = 0, type_attr = 0, offset_high = 0\<rparr>"
    unfolding idt using low high by simp_all
qed

lemma idt_init_targets:
  "n < 256 \<Longrightarrow> int_target 3 n (idt_init stub s) = None"
  "n < 48 \<Longrightarrow> int_target 0 n (idt_init stub s) = Some (stub n)"
proof -
  show "int_target 3 n (idt_init stub s) = None" if "n < 256"
  proof (cases "n < 48")
    case True
    then show ?thesis using idt_init_table(2) [OF True, where stub = stub and s = s] by (simp add: int_target_def gate_dpl_def)
  next
    case False
    then show ?thesis using idt_init_table(3) [of n, where stub = stub and s = s] that by (simp add: int_target_def gate_present_def)
  qed
  show "int_target 0 n (idt_init stub s) = Some (stub n)" if "n < 48"
    using idt_init_table(2) [OF that, where stub = stub and s = s] by (simp add: int_target_def gate_present_def bit_iff_odd)
qed

text \<open>Fact (functional, safety): after \<open>idt_init\<close> gates 0 to 47 are ring-0 interrupt gates to their
  stubs, the rest is absent, and no software interrupt from ring 3 gets through.\<close>

theorem idt_init_gates:
  "let s' = idt_init stub s in
     idtr s' = \<lparr>tab_limit = 2047, tab_base = idt_at s\<rparr> \<and>
     (\<forall>n < 48. gate_is_interrupt (idt s' n) \<and> selector (idt s' n) = KERNEL_CODE_SEG \<and>
        int_target 0 n s' = Some (stub n)) \<and>
     (\<forall>n. 48 \<le> n \<and> n < 256 \<longrightarrow> \<not> gate_present (idt s' n)) \<and>
     (\<forall>n < 256. int_target 3 n s' = None)"
  unfolding Let_def using idt_init_table [where stub = stub and s = s] idt_init_targets [where stub = stub and s = s]
  by (simp add: gate_is_interrupt_def KERNEL_CODE_SEG_def gate_present_def bit_iff_odd)

theorem idt_init_gates_witness:
  "int_target 0 14 (idt_init of_nat boot_desc) = Some 14 \<and> int_target 3 33 (idt_init of_nat boot_desc) = None \<and>
   \<not> gate_present (idt (idt_init of_nat boot_desc) 128)"
  using idt_init_gates [of of_nat boot_desc] by (simp add: Let_def)

end
