(* ===== verification/Scheduler.thy ===== *)
theory Scheduler
  imports Descriptors
begin

text \<open>
  The round-robin scheduler of \<^verbatim>\<open>src/kernel/scheduler.c\<close>: the ready queue, a doubly linked list
  threaded through the process table, the tick and the yield; and the context switch of
  \<^verbatim>\<open>src/kernel/context_switch.asm\<close> they end in, instruction for instruction on the
  processor's registers. A switch may raise a fault: the result is then the vector.
\<close>

section \<open>State\<close>

record sched_st = desc_st +
  ready_queue_head :: "nat option"
  ready_queue_tail :: "nat option"
  ready_queue_count :: u32
  scheduler_enabled :: bool
  quantum_ticks :: u32

section \<open>The context switch\<close>

text \<open>Arithmetic flags of a 32-bit addition: CF, PF, AF, ZF, SF, OF.\<close>

definition add_flags :: "u32 \<Rightarrow> u32 \<Rightarrow> u32" where
  "add_flags a b =
     (let r = a + b
      in (if r < a then 1 else 0)
         OR (if even (card {i. i < 8 \<and> bit r i}) then 4 else 0)
         OR (if bit (a XOR b XOR r) 4 then 0x10 else 0)
         OR (if r = 0 then 0x40 else 0)
         OR (if bit r 31 then 0x80 else 0)
         OR (if bit ((a XOR r) AND (b XOR r)) 31 then 0x800 else 0))"

definition regs_addr :: "nat \<Rightarrow> 'a desc_st_scheme \<Rightarrow> u32" where
  "regs_addr i s = process_table_at s + 224 * of_nat i + 48"

text \<open>The saving half: the stack pointer is at the return address. The segment registers are
  stored through \<open>CX\<close>, whose upper half is left from the stack pointer.\<close>

definition save_context :: "nat \<Rightarrow> nat \<Rightarrow> 'a desc_st_scheme \<Rightarrow> 'a desc_st_scheme" where
  "save_context old new s =
     (let c = cpu s;
          esp = r_esp c;
          high = (esp + 4) AND 0xFFFF0000;
          flags = (r_eflags c AND NOT 0x8D5) OR add_flags esp 4;
          s = s\<lparr>mem := write32 (mem s) (esp - 4) flags\<rparr>
      in upd_process old (\<lambda>p. p\<lparr>p_registers :=
           \<lparr>r_eax = regs_addr old s, r_ebx = r_ebx c, r_ecx = r_ecx c, r_edx = regs_addr new s,
            r_esi = r_esi c, r_edi = r_edi c, r_ebp = r_ebp c, r_esp = esp + 4,
            r_ds = high OR (r_ds c AND 0xFFFF), r_es = high OR (r_es c AND 0xFFFF),
            r_fs = high OR (r_fs c AND 0xFFFF), r_gs = high OR (r_gs c AND 0xFFFF),
            r_ss = high OR (r_ss c AND 0xFFFF), r_eip = read32 (mem s) esp,
            r_eflags = flags, r_cr3 = cr3 s\<rparr>\<rparr>) s)"

text \<open>What the processor requires of a selector loaded in ring 0: a data segment register may be
  null, the stack segment may not.\<close>

definition selector_entry :: "u32 \<Rightarrow> 'a desc_st_scheme \<Rightarrow> gdt_entry" where
  "selector_entry sel s = gdt s (unat (drop_bit 3 (sel AND 0xFFFF)))"

definition selector_in_table :: "u32 \<Rightarrow> 'a desc_st_scheme \<Rightarrow> bool" where
  "selector_in_table sel s \<longleftrightarrow>
     \<not> bit sel 2 \<and> unat (sel AND 0xFFF8) + 7 \<le> unat (tab_limit (gdtr s))"

definition data_selector_ok :: "u32 \<Rightarrow> 'a desc_st_scheme \<Rightarrow> bool" where
  "data_selector_ok sel s \<longleftrightarrow>
     sel AND 0xFFFC = 0 \<or>
     selector_in_table sel s \<and> desc_present (selector_entry sel s) \<and>
     (desc_is_data (selector_entry sel s) \<or>
      desc_is_code (selector_entry sel s) \<and> bit (access (selector_entry sel s)) 1) \<and>
     unat (sel AND 3) \<le> desc_dpl (selector_entry sel s)"

definition stack_selector_ok :: "u32 \<Rightarrow> 'a desc_st_scheme \<Rightarrow> bool" where
  "stack_selector_ok sel s \<longleftrightarrow>
     sel AND 0xFFFC \<noteq> 0 \<and> selector_in_table sel s \<and> sel AND 3 = 0 \<and>
     desc_present (selector_entry sel s) \<and> desc_is_data (selector_entry sel s) \<and>
     bit (access (selector_entry sel s)) 1 \<and> desc_dpl (selector_entry sel s) = 0"

text \<open>The loading half. A process whose saved data segment is the user one is entered by
  \<^verbatim>\<open>iret\<close> from the frame its stack pointer points to; the return to ring 3 clears the data
  segment registers, which hold a ring-0 segment. The selectors in that frame are taken to be valid ones, as
  \<^verbatim>\<open>process_setup_user_mode\<close> writes them. The flags image goes through the old stack.\<close>

definition load_context :: "nat \<Rightarrow> 'a desc_st_scheme \<Rightarrow> u32 + 'a desc_st_scheme" where
  "load_context new s =
     (let r = p_registers (process_table s new);
          s = s\<lparr>cr3 := r_cr3 r\<rparr>
      in if r_ds r AND 0xFFFF = 0x23
         then
           (let esp = r_esp r;
                eip = read32 (mem s) esp;
                cs = read32 (mem s) (esp + 4) AND 0xFFFF;
                flags = read32 (mem s) (esp + 8);
                c = r\<lparr>r_eip := eip, r_eflags := flags, r_ds := 0x10, r_es := 0x10, r_fs := 0x10,
                       r_gs := 0x10, r_ss := r_ss (cpu s)\<rparr>
            in if cs AND 3 = 3
               then Inr (s\<lparr>cpu := c\<lparr>r_esp := read32 (mem s) (esp + 12),
                          r_ss := read32 (mem s) (esp + 16) AND 0xFFFF,
                          r_ds := 0, r_es := 0, r_fs := 0, r_gs := 0\<rparr>, cpu_cs := cs\<rparr>)
               else Inr (s\<lparr>cpu := c\<lparr>r_esp := esp + 12\<rparr>, cpu_cs := cs\<rparr>))
         else if \<not> (data_selector_ok (r_ds r) s \<and> data_selector_ok (r_es r) s \<and>
                    data_selector_ok (r_fs r) s \<and> data_selector_ok (r_gs r) s \<and>
                    stack_selector_ok (r_ss r) s)
         then Inl 13
         else
           (let s = s\<lparr>mem := write32 (mem s) (r_esp (cpu s) - 4) (r_eflags r)\<rparr>;
                s = s\<lparr>mem := write32 (mem s) (r_esp r - 4) (r_eip r)\<rparr>
            in Inr (s\<lparr>cpu := r\<lparr>r_ds := r_ds r AND 0xFFFF, r_es := r_es r AND 0xFFFF,
                 r_fs := r_fs r AND 0xFFFF, r_gs := r_gs r AND 0xFFFF, r_ss := r_ss r AND 0xFFFF\<rparr>\<rparr>)))"

definition context_switch :: "nat \<Rightarrow> nat \<Rightarrow> 'a desc_st_scheme \<Rightarrow> u32 + 'a desc_st_scheme" where
  "context_switch old new s = load_context new (save_context old new s)"

section \<open>The ready queue\<close>

definition scheduler_init :: "'a sched_st_scheme \<Rightarrow> 'a sched_st_scheme" where
  "scheduler_init s =
     (let s = kinfo ''Initializing process scheduler'' [] s;
          s = s\<lparr>ready_queue_head := None, ready_queue_tail := None, ready_queue_count := 0,
                scheduler_enabled := False\<rparr>;
          s = kprintk (''  Scheduling algorithm: Round-Robin'' @ [CHR 0x0A]) [] s;
          s = kprintk (''  Time quantum: %d ticks (%d ms)'' @ [CHR 0x0A])
                [VInt (quantum_ticks s), VInt (quantum_ticks s * 10)] s
      in kprintk (''  [OK] Scheduler initialized (not yet enabled)'' @ [CHR 0x0A]) [] s)"

definition scheduler_add_process :: "nat option \<Rightarrow> 'a sched_st_scheme \<Rightarrow> 'a sched_st_scheme" where
  "scheduler_add_process process s =
     (case process of
        None \<Rightarrow> s
      | Some i \<Rightarrow>
          if p_state (process_table s i) = PROCESS_STATE_TERMINATED then s
          else
            (let s = upd_process i (\<lambda>p. p\<lparr>p_state := PROCESS_STATE_READY, p_next := None,
                       p_prev := ready_queue_tail s\<rparr>) s;
                 s = (case ready_queue_tail s of
                        Some t \<Rightarrow> upd_process t (\<lambda>p. p\<lparr>p_next := Some i\<rparr>) s
                      | None \<Rightarrow> s\<lparr>ready_queue_head := Some i\<rparr>);
                 s = s\<lparr>ready_queue_tail := Some i, ready_queue_count := ready_queue_count s + 1\<rparr>
             in kprintk (''  Added process '' @ [CHR 0x27] @ ''%s'' @ [CHR 0x27] @
                  '' (PID %d) to ready queue'' @ [CHR 0x0A])
                  [VStr (Some (cstr (p_name (process_table s i)))), VInt (p_pid (process_table s i))] s))"

definition scheduler_remove_process :: "nat option \<Rightarrow> 'a sched_st_scheme \<Rightarrow> 'a sched_st_scheme" where
  "scheduler_remove_process process s =
     (case process of
        None \<Rightarrow> s
      | Some i \<Rightarrow>
          (let s = (case p_prev (process_table s i) of
                      Some a \<Rightarrow> upd_process a (\<lambda>p. p\<lparr>p_next := p_next (process_table s i)\<rparr>) s
                    | None \<Rightarrow> s\<lparr>ready_queue_head := p_next (process_table s i)\<rparr>);
               s = (case p_next (process_table s i) of
                      Some b \<Rightarrow> upd_process b (\<lambda>p. p\<lparr>p_prev := p_prev (process_table s i)\<rparr>) s
                    | None \<Rightarrow> s\<lparr>ready_queue_tail := p_prev (process_table s i)\<rparr>);
               s = upd_process i (\<lambda>p. p\<lparr>p_next := None, p_prev := None\<rparr>) s
           in if ready_queue_count s > 0 then s\<lparr>ready_queue_count := ready_queue_count s - 1\<rparr> else s))"

definition scheduler_schedule :: "'a sched_st_scheme \<Rightarrow> nat option \<times> 'a sched_st_scheme" where
  "scheduler_schedule s =
     (case ready_queue_head s of
        None \<Rightarrow> (Some 0, s)
      | Some i \<Rightarrow>
          (let s = scheduler_remove_process (Some i) s
           in (Some i, upd_process i (\<lambda>p. p\<lparr>p_state := PROCESS_STATE_RUNNING,
                 p_quantum := quantum_ticks s\<rparr>) s)))"

section \<open>Control\<close>

definition scheduler_enable :: "'a sched_st_scheme \<Rightarrow> 'a sched_st_scheme" where
  "scheduler_enable s =
     (if scheduler_enabled s then kwarn ''Scheduler already enabled'' [] s
      else (kinfo ''Enabling process scheduler'' [] s)\<lparr>scheduler_enabled := True\<rparr>)"

definition scheduler_disable :: "'a sched_st_scheme \<Rightarrow> 'a sched_st_scheme" where
  "scheduler_disable s = kinfo ''Scheduler disabled'' [] (s\<lparr>scheduler_enabled := False\<rparr>)"

definition scheduler_is_enabled :: "'a sched_st_scheme \<Rightarrow> bool" where
  "scheduler_is_enabled s = scheduler_enabled s"

definition scheduler_get_ready_count :: "'a sched_st_scheme \<Rightarrow> u32" where
  "scheduler_get_ready_count s = ready_queue_count s"

section \<open>Tick and yield\<close>

text \<open>The end of a switch, shared text of the two functions below: the kernel stack of the next
  process goes into the task state segment, it becomes current, and the registers change
  hands. The result says whether the processor is on another process now: then what
  follows in the caller runs only when the old process is resumed.\<close>

definition switch_to :: "nat \<Rightarrow> nat \<Rightarrow> 'a sched_st_scheme \<Rightarrow> u32 + bool \<times> 'a sched_st_scheme" where
  "switch_to old new s =
     (let kernel_stack = p_kernel_stack (process_table s new) + 4096;
          s = tss_set_kernel_stack kernel_stack s;
          s = s\<lparr>current_process := Some new\<rparr>;
          s = upd_process old (\<lambda>p. p\<lparr>p_context_switches := p_context_switches p + 1\<rparr>) s;
          s = upd_process new (\<lambda>p. p\<lparr>p_context_switches := p_context_switches p + 1\<rparr>) s
      in map_sum id (\<lambda>s. (True, s)) (context_switch old new s))"

definition log_switch :: "nat \<Rightarrow> nat \<Rightarrow> 'a sched_st_scheme \<Rightarrow> 'a sched_st_scheme" where
  "log_switch old new s =
     (let p = process_table s old; q = process_table s new;
          s = kprintk (''[SCHED] Switching: PID %d (%s, %s) -> PID %d (%s, %s)'' @ [CHR 0x0A])
                [VInt (p_pid p), VStr (Some (cstr (p_name p))),
                 VStr (Some (if p_is_kernel p \<noteq> 0 then ''kernel'' else ''user'')),
                 VInt (p_pid q), VStr (Some (cstr (p_name q))),
                 VStr (Some (if p_is_kernel q \<noteq> 0 then ''kernel'' else ''user''))] s;
          s = kprintk (''        Old: ESP=0x%x EIP=0x%x DS=0x%x'' @ [CHR 0x0A])
                [VInt (r_esp (p_registers p)), VInt (r_eip (p_registers p)), VInt (r_ds (p_registers p))] s
      in kprintk (''        New: ESP=0x%x EIP=0x%x DS=0x%x'' @ [CHR 0x0A])
           [VInt (r_esp (p_registers q)), VInt (r_eip (p_registers q)), VInt (r_ds (p_registers q))] s)"

definition scheduler_tick :: "'a sched_st_scheme \<Rightarrow> u32 + bool \<times> 'a sched_st_scheme" where
  "scheduler_tick s =
     (case current_process s of
        None \<Rightarrow> Inr (False, s)
      | Some old \<Rightarrow>
          if \<not> scheduler_enabled s then Inr (False, s)
          else
            (let s = upd_process old (\<lambda>p. p\<lparr>p_time_running := p_time_running p + 1\<rparr>) s;
                 s = (if p_quantum (process_table s old) > 0
                      then upd_process old (\<lambda>p. p\<lparr>p_quantum := p_quantum p - 1\<rparr>) s else s)
             in if p_quantum (process_table s old) = 0 \<and> ready_queue_count s > 0
                then
                  (let s = (if p_state (process_table s old) = PROCESS_STATE_RUNNING
                            then scheduler_add_process (Some old) s else s);
                       (next_process, s) = scheduler_schedule s
                   in case next_process of
                        None \<Rightarrow> Inr (False, s)
                      | Some new \<Rightarrow>
                          if new = old then Inr (False, s)
                          else switch_to old new (log_switch old new s))
                else if p_quantum (process_table s old) = 0
                then Inr (False, upd_process old (\<lambda>p. p\<lparr>p_quantum := quantum_ticks s\<rparr>) s)
                else Inr (False, s)))"

definition scheduler_yield :: "'a sched_st_scheme \<Rightarrow> u32 + bool \<times> 'a sched_st_scheme" where
  "scheduler_yield s =
     (case current_process s of
        None \<Rightarrow> Inr (False, s)
      | Some old \<Rightarrow>
          if \<not> scheduler_enabled s then Inr (False, s)
          else if ready_queue_count s > 0
          then
            (let s = (if p_state (process_table s old) = PROCESS_STATE_RUNNING
                      then scheduler_add_process (Some old)
                             (upd_process old (\<lambda>p. p\<lparr>p_quantum := quantum_ticks s\<rparr>) s)
                      else s);
                 (next_process, s) = scheduler_schedule s
             in case next_process of
                  None \<Rightarrow> Inr (False, s)
                | Some new \<Rightarrow> if new = old then Inr (False, s) else switch_to old new s)
          else Inr (False, s))"

section \<open>Statistics\<close>

partial_function (option) queue_print_loop ::
    "nat option \<Rightarrow> u32 \<Rightarrow> 'a sched_st_scheme \<Rightarrow> 'a sched_st_scheme option" where
  "queue_print_loop p pos s =
     (case p of
        None \<Rightarrow> Some s
      | Some i \<Rightarrow>
          queue_print_loop (p_next (process_table s i)) (pos + 1)
            (kprintk (''  %d. %s (PID %d, priority %d)'' @ [CHR 0x0A])
              [VInt pos, VStr (Some (cstr (p_name (process_table s i)))),
               VInt (p_pid (process_table s i)), VInt (priority_num (p_priority (process_table s i)))] s))"

declare queue_print_loop.simps [code]

definition scheduler_print_stats :: "'a sched_st_scheme \<Rightarrow> 'a sched_st_scheme option" where
  "scheduler_print_stats s =
     (let s = kprintk ([CHR 0x0A] @ ''=== Scheduler Statistics ==='' @ [CHR 0x0A]) [] s;
          s = kprintk (''Status: %s'' @ [CHR 0x0A])
                [VStr (Some (if scheduler_enabled s then ''ENABLED'' else ''DISABLED''))] s;
          s = kprintk (''Algorithm: Round-Robin'' @ [CHR 0x0A]) [] s;
          s = kprintk (''Time Quantum: %d ticks'' @ [CHR 0x0A]) [VInt (quantum_ticks s)] s;
          s = kprintk (''Ready Queue: %d processes'' @ [CHR 0x0A]) [VInt (ready_queue_count s)] s;
          s = (case current_process s of
                 None \<Rightarrow> s
               | Some c \<Rightarrow>
                   (let p = process_table s c;
                        s = kprintk (''Current Process: %s (PID %d)'' @ [CHR 0x0A])
                              [VStr (Some (cstr (p_name p))), VInt (p_pid p)] s;
                        s = kprintk (''  Quantum Remaining: %d ticks'' @ [CHR 0x0A]) [VInt (p_quantum p)] s;
                        s = kprintk (''  Total Runtime: %d ticks'' @ [CHR 0x0A]) [VInt (p_time_running p)] s
                    in kprintk (''  Context Switches: %d'' @ [CHR 0x0A]) [VInt (p_context_switches p)] s))
      in case ready_queue_head s of
           None \<Rightarrow> Some s
         | Some i \<Rightarrow> queue_print_loop (Some i) 1
                       (kprintk ([CHR 0x0A] @ ''Ready Queue:'' @ [CHR 0x0A]) [] s))"

end
