(* ===== verification/Fifo.thy ===== *)
theory Fifo
  imports Prelude
begin

text \<open>
  First in, first out: the contract of the kernel's queues. The ready queue of the
  scheduler and the ring buffer of the keyboard both give it.
\<close>

fun put_all :: "('x \<Rightarrow> 's \<Rightarrow> 's) \<Rightarrow> 'x list \<Rightarrow> 's \<Rightarrow> 's" where
  "put_all put [] s = s"
| "put_all put (x # xs) s = put_all put xs (put x s)"

fun take_n :: "('s \<Rightarrow> 'x \<times> 's) \<Rightarrow> nat \<Rightarrow> 's \<Rightarrow> 'x list \<times> 's" where
  "take_n get 0 s = ([], s)"
| "take_n get (Suc n) s = (let (x, s) = get s; (xs, s) = take_n get n s in (x # xs, s))"

text \<open>\<open>can s q x\<close>: element \<open>x\<close> may be put into the queue that \<open>s\<close> represents as \<open>q\<close>.\<close>

fun can_all :: "('s \<Rightarrow> 'x list \<Rightarrow> 'x \<Rightarrow> bool) \<Rightarrow> ('x \<Rightarrow> 's \<Rightarrow> 's) \<Rightarrow> 'x list \<Rightarrow> 's \<Rightarrow> 'x list \<Rightarrow> bool" where
  "can_all can put [] s q = True"
| "can_all can put (x # xs) s q = (can s q x \<and> can_all can put xs (put x s) (q @ [x]))"

locale fifo =
  fixes rep :: "'s \<Rightarrow> 'x list \<Rightarrow> bool"
    and can :: "'s \<Rightarrow> 'x list \<Rightarrow> 'x \<Rightarrow> bool"
    and put :: "'x \<Rightarrow> 's \<Rightarrow> 's"
    and get :: "'s \<Rightarrow> 'x \<times> 's"
  assumes put_rep: "rep s q \<Longrightarrow> can s q x \<Longrightarrow> rep (put x s) (q @ [x])"
    and get_rep: "rep s (x # q) \<Longrightarrow> fst (get s) = x \<and> rep (snd (get s)) q"
begin

lemma put_all_rep: "rep s q \<Longrightarrow> can_all can put xs s q \<Longrightarrow> rep (put_all put xs s) (q @ xs)"
proof (induction xs arbitrary: s q)
  case (Cons x xs)
  then have "rep (put_all put xs (put x s)) ((q @ [x]) @ xs)" by (intro Cons.IH) (auto intro: put_rep)
  then show ?case by simp
qed simp

lemma take_n_rep: "rep s (xs @ q) \<Longrightarrow> fst (take_n get (length xs) s) = xs \<and> rep (snd (take_n get (length xs) s)) q"
proof (induction xs arbitrary: s)
  case (Cons x xs)
  then have "fst (get s) = x" "rep (snd (get s)) (xs @ q)" using get_rep by simp_all
  with Cons.IH [of "snd (get s)"] show ?case by (simp add: Let_def case_prod_beta)
qed simp

text \<open>What goes in comes out in the same order, behind what was there.\<close>

lemma order_kept:
  assumes "rep s q" "can_all can put xs s q"
  shows "fst (take_n get (length q + length xs) (put_all put xs s)) = q @ xs \<and>
    rep (snd (take_n get (length q + length xs) (put_all put xs s))) []"
  using take_n_rep [of "put_all put xs s" "q @ xs" "[]"] put_all_rep [OF assms] by simp

end

end
