(* ===== verification/Ready_Queue.thy ===== *)
theory Ready_Queue
  imports Scheduler Fifo
begin

text \<open>
  The ready queue: the links through the process table represent a list of process indices,
  and adding, removing and scheduling are the list operations. The queue gives the contract
  of \<open>Fifo\<close>.
\<close>

section \<open>The linked list\<close>

text \<open>A segment of the ready queue: \<open>p\<close> before it, \<open>n\<close> after it.\<close>

fun dll :: "(nat \<Rightarrow> process_t) \<Rightarrow> nat option \<Rightarrow> nat list \<Rightarrow> nat option \<Rightarrow> bool" where
  "dll t p [] n = True"
| "dll t p (i # is) n =
     (p_prev (t i) = p \<and> p_next (t i) = (if is = [] then n else Some (hd is)) \<and> dll t (Some i) is n)"

lemma dll_append:
  "dll t p (xs @ ys) n \<longleftrightarrow>
     dll t p xs (if ys = [] then n else Some (hd ys)) \<and> dll t (if xs = [] then p else Some (last xs)) ys n"
  by (induction t p xs n rule: dll.induct) auto

lemma dll_cong: "(\<And>i. i \<in> set q \<Longrightarrow> p_prev (t' i) = p_prev (t i) \<and> p_next (t' i) = p_next (t i)) \<Longrightarrow>
    dll t' p q n = dll t p q n"
  by (induction t p q n rule: dll.induct) auto

lemma dll_relink_next:
  assumes "dll t p (xs @ [a]) n" "a \<notin> set xs" "p_next p' = m" "p_prev p' = p_prev (t a)"
  shows "dll (t(a := p')) p (xs @ [a]) m"
proof -
  have "dll (t(a := p')) p xs k = dll t p xs k" for k by (rule dll_cong) (use assms(2) in auto)
  then show ?thesis using assms by (simp add: dll_append)
qed

lemma dll_relink_prev:
  assumes "dll t p (b # ys) n" "b \<notin> set ys" "p_prev p' = m" "p_next p' = p_next (t b)"
  shows "dll (t(b := p')) m (b # ys) n"
proof -
  have "dll (t(b := p')) (Some b) ys n = dll t (Some b) ys n" by (rule dll_cong) (use assms(2) in auto)
  then show ?thesis using assms by simp
qed

definition queue_rep :: "'a sched_st_scheme \<Rightarrow> nat list \<Rightarrow> bool" where
  "queue_rep s q \<longleftrightarrow> distinct q \<and> dll (process_table s) None q None \<and>
     ready_queue_head s = (if q = [] then None else Some (hd q)) \<and>
     ready_queue_tail s = (if q = [] then None else Some (last q)) \<and>
     unat (ready_queue_count s) = length q"

lemma kout_sched [simp]:
  "ready_queue_head (kprintk fmt args s) = ready_queue_head s" "ready_queue_tail (kprintk fmt args s) = ready_queue_tail s"
  "ready_queue_count (kprintk fmt args s) = ready_queue_count s" "quantum_ticks (kprintk fmt args s) = quantum_ticks s"
  "scheduler_enabled (kprintk fmt args s) = scheduler_enabled s"
  "ready_queue_head (upd_process i f s) = ready_queue_head s" "ready_queue_tail (upd_process i f s) = ready_queue_tail s"
  "ready_queue_count (upd_process i f s) = ready_queue_count s" "quantum_ticks (upd_process i f s) = quantum_ticks s"
  "scheduler_enabled (upd_process i f s) = scheduler_enabled s" "kernel_tss (upd_process i f s) = kernel_tss s"
  by (simp_all add: kout_defs upd_process_def)

text \<open>What an operation leaves of the processes and the rest of the scheduler.\<close>

definition links_only :: "process_t \<Rightarrow> process_t \<Rightarrow> bool" where
  "links_only p p' \<longleftrightarrow> p' = p\<lparr>p_next := p_next p', p_prev := p_prev p'\<rparr>"

lemma links_only_refl [simp]: "links_only p p" "links_only p (p\<lparr>p_next := a\<rparr>)" "links_only p (p\<lparr>p_prev := b\<rparr>)"
  "links_only p (p\<lparr>p_next := a, p_prev := b\<rparr>)"
  by (cases p; simp add: links_only_def)+

lemma links_only_trans: "links_only p q \<Longrightarrow> links_only q r \<Longrightarrow> links_only p r"
  by (cases p; cases q; cases r) (simp add: links_only_def)

lemma links_only_fields:
  "links_only p q \<Longrightarrow> p_state q = p_state p \<and> p_quantum q = p_quantum p \<and> p_kernel_stack q = p_kernel_stack p \<and>
     p_registers q = p_registers p \<and> p_pid q = p_pid p \<and> p_time_running q = p_time_running p"
  by (cases p; cases q) (simp add: links_only_def)

section \<open>Adding\<close>

lemma add_process_rep:
  assumes q: "queue_rep s q" and i: "i \<notin> set q" "p_state (process_table s i) \<noteq> PROCESS_STATE_TERMINATED"
    and len: "length q + 1 < 2 ^ 32"
  defines "s' \<equiv> scheduler_add_process (Some i) s"
  shows "queue_rep s' (q @ [i])" "p_state (process_table s' i) = PROCESS_STATE_READY"
    "\<And>j. j \<noteq> i \<Longrightarrow> links_only (process_table s j) (process_table s' j)"
    "links_only ((process_table s i)\<lparr>p_state := PROCESS_STATE_READY\<rparr>) (process_table s' i)"
    "current_process s' = current_process s" "scheduler_enabled s' = scheduler_enabled s"
    "quantum_ticks s' = quantum_ticks s"
proof -
  define t where "t = (process_table s)(i := (process_table s i)\<lparr>p_state := PROCESS_STATE_READY, p_next := None,
    p_prev := (if q = [] then None else Some (last q))\<rparr>)"
  define t' where "t' = (if q = [] then t else t(last q := (t (last q))\<lparr>p_next := Some i\<rparr>))"
  have d: "distinct q" "dll (process_table s) None q None" and n: "unat (ready_queue_count s) = length q"
    using q by (simp_all add: queue_rep_def)
  have head: "ready_queue_head s = (if q = [] then None else Some (hd q))"
    "ready_queue_tail s = (if q = [] then None else Some (last q))" using q by (simp_all add: queue_rep_def)
  have tab: "process_table s' = t'" "ready_queue_head s' = Some (hd (q @ [i]))" "ready_queue_tail s' = Some i"
    "ready_queue_count s' = ready_queue_count s + 1" "current_process s' = current_process s"
    "scheduler_enabled s' = scheduler_enabled s" "quantum_ticks s' = quantum_ticks s"
    using i(2) head by (cases "q = []"; simp add: s'_def scheduler_add_process_def Let_def t'_def t_def)+
  have ne: "last q \<noteq> i" if "q \<noteq> []" using i(1) that last_in_set [OF that] by metis
  have "dll t None q None" using d(2) i(1) by (subst dll_cong [of q t "process_table s"]) (auto simp: t_def)
  then have "dll t' None q (Some i)"
  proof (cases q rule: rev_cases)
    case (snoc ys y)
    then show ?thesis using \<open>dll t None q None\<close> d(1)
      by (auto simp: t'_def intro: dll_relink_next)
  qed simp
  moreover have "dll t' (if q = [] then None else Some (last q)) [i] None"
    using ne by (auto simp: t'_def t_def)
  ultimately have "dll t' None (q @ [i]) None" by (simp add: dll_append)
  moreover have "unat (ready_queue_count s + 1) = length (q @ [i])"
    using n len by (simp add: unat_plus_no_wrap)
  ultimately show "queue_rep s' (q @ [i])" using d(1) i(1) by (simp add: queue_rep_def tab)
  show "p_state (process_table s' i) = PROCESS_STATE_READY"
    by (cases "q = []"; use ne in \<open>simp add: tab(1) t'_def t_def\<close>)
  show "links_only (process_table s j) (process_table s' j)" if "j \<noteq> i" for j
    using that by (simp add: tab(1) t'_def t_def)
  show "links_only ((process_table s i)\<lparr>p_state := PROCESS_STATE_READY\<rparr>) (process_table s' i)"
    by (cases "q = []"; use ne in \<open>simp add: tab(1) t'_def t_def\<close>)
  show "current_process s' = current_process s" "scheduler_enabled s' = scheduler_enabled s"
    "quantum_ticks s' = quantum_ticks s" by (simp_all add: tab)
qed

section \<open>Removing\<close>

text \<open>Taking \<open>i\<close> out of the chain: its neighbours are linked to each other, its own links cleared.\<close>

definition unlink :: "nat list \<Rightarrow> nat \<Rightarrow> nat list \<Rightarrow> (nat \<Rightarrow> process_t) \<Rightarrow> nat \<Rightarrow> process_t" where
  "unlink xs i ys t =
     (let pv = (if xs = [] then None else Some (last xs));
          nx = (if ys = [] then None else Some (hd ys));
          t = (if xs = [] then t else t(last xs := (t (last xs))\<lparr>p_next := nx\<rparr>));
          t = (if ys = [] then t else t(hd ys := (t (hd ys))\<lparr>p_prev := pv\<rparr>))
      in t(i := (t i)\<lparr>p_next := None, p_prev := None\<rparr>))"

lemma unlink_links: "links_only (t j) (unlink xs i ys t j)" "p_next (unlink xs i ys t i) = None" "p_prev (unlink xs i ys t i) = None"
  by (auto simp: unlink_def Let_def)

lemma dll_unlink:
  assumes d: "distinct (xs @ i # ys)" and dl: "dll t None (xs @ i # ys) None"
  shows "dll (unlink xs i ys t) None (xs @ ys) None"
proof -
  define pv where "pv = (if xs = [] then None else Some (last xs))"
  define nx where "nx = (if ys = [] then None else Some (hd ys))"
  define t1 where "t1 = (if xs = [] then t else t(last xs := (t (last xs))\<lparr>p_next := nx\<rparr>))"
  define t2 where "t2 = (if ys = [] then t1 else t1(hd ys := (t1 (hd ys))\<lparr>p_prev := pv\<rparr>))"
  define t3 where "t3 = t2(i := (t2 i)\<lparr>p_next := None, p_prev := None\<rparr>)"
  have t3: "unlink xs i ys t = t3" by (simp add: unlink_def Let_def t3_def t2_def t1_def pv_def nx_def)
  have seg: "dll t None xs (Some i)" "dll t (Some i) ys None" using dl by (simp_all add: dll_append)
  have apart: "xs \<noteq> [] \<Longrightarrow> last xs \<notin> set ys" "ys \<noteq> [] \<Longrightarrow> hd ys \<notin> set xs" "i \<notin> set xs" "i \<notin> set ys"
    using d by (auto dest: hd_in_set) (metis disjoint_iff last_in_set)
  have "dll t1 None xs nx"
  proof (cases xs rule: rev_cases)
    case (snoc zs z)
    then show ?thesis using seg(1) d by (simp add: t1_def dll_relink_next)
  qed simp
  then have x: "dll t3 None xs nx"
    using apart by (subst dll_cong [of xs t3 t1]) (auto simp: t3_def t2_def)
  have "dll t1 (Some i) ys None"
    using seg(2) apart by (subst dll_cong [of ys t1 t]) (auto simp: t1_def)
  then have "dll t2 pv ys None"
  proof (cases ys)
    case (Cons b zs)
    show ?thesis unfolding t2_def Cons
      by (simp del: dll.simps, rule dll_relink_prev) (use \<open>dll t1 (Some i) ys None\<close> d Cons in auto)
  qed simp
  then have "dll t3 pv ys None"
    using apart by (subst dll_cong [of ys t3 t2]) (auto simp: t3_def)
  with x show ?thesis by (simp add: t3 dll_append pv_def nx_def)
qed

lemma remove_process_rep:
  assumes q: "queue_rep s (xs @ i # ys)"
  defines "s' \<equiv> scheduler_remove_process (Some i) s"
  shows "queue_rep s' (xs @ ys)" "\<And>j. links_only (process_table s j) (process_table s' j)"
    "p_next (process_table s' i) = None" "p_prev (process_table s' i) = None"
    "current_process s' = current_process s" "scheduler_enabled s' = scheduler_enabled s"
    "quantum_ticks s' = quantum_ticks s"
proof -
  define pv where "pv = (if xs = [] then None else Some (last xs))"
  define nx where "nx = (if ys = [] then None else Some (hd ys))"
  have d: "distinct (xs @ i # ys)" and dl: "dll (process_table s) None (xs @ i # ys) None"
    and n: "unat (ready_queue_count s) = length (xs @ i # ys)"
    and ends: "ready_queue_head s = Some (hd (xs @ [i]))" "ready_queue_tail s = Some (last (i # ys))"
    using q by (auto simp: queue_rep_def hd_append)
  have link: "p_prev (process_table s i) = pv" "p_next (process_table s i) = nx"
    using dl by (simp_all add: dll_append pv_def nx_def)
  have apart: "xs \<noteq> [] \<Longrightarrow> last xs \<noteq> i" "ys \<noteq> [] \<Longrightarrow> hd ys \<noteq> i" using d by auto
  have c: "ready_queue_count s > 0" using n by (simp add: word_less_nat_alt)
  have tab: "process_table s' = unlink xs i ys (process_table s)" "ready_queue_head s' = (if xs = [] then nx else ready_queue_head s)"
    "ready_queue_tail s' = (if ys = [] then pv else ready_queue_tail s)"
    "ready_queue_count s' = ready_queue_count s - 1" "current_process s' = current_process s"
    "scheduler_enabled s' = scheduler_enabled s" "quantum_ticks s' = quantum_ticks s"
    using c apart link
    by (cases "xs = []"; cases "ys = []"; simp add: s'_def scheduler_remove_process_def Let_def unlink_def
        pv_def nx_def upd_process_def)+
  have "unat (ready_queue_count s - 1) = length (xs @ ys)"
    using n c by (simp add: unat_sub word_one_le unat_gt_0)
  moreover have "ready_queue_head s' = (if xs @ ys = [] then None else Some (hd (xs @ ys)))"
    "ready_queue_tail s' = (if xs @ ys = [] then None else Some (last (xs @ ys)))"
    using ends by (auto simp: tab pv_def nx_def hd_append)
  ultimately show "queue_rep s' (xs @ ys)" using d dll_unlink [OF d dl] by (simp add: queue_rep_def tab)
  show "p_next (process_table s' i) = None" "p_prev (process_table s' i) = None"
    "links_only (process_table s j) (process_table s' j)" for j by (simp_all add: tab unlink_links)
  show "current_process s' = current_process s" "scheduler_enabled s' = scheduler_enabled s"
    "quantum_ticks s' = quantum_ticks s" by (simp_all add: tab)
qed

section \<open>Scheduling\<close>

lemma queue_rep_cong:
  "ready_queue_head s' = ready_queue_head s \<Longrightarrow> ready_queue_tail s' = ready_queue_tail s \<Longrightarrow>
   ready_queue_count s' = ready_queue_count s \<Longrightarrow>
   (\<And>i. p_prev (process_table s' i) = p_prev (process_table s i) \<and> p_next (process_table s' i) = p_next (process_table s i)) \<Longrightarrow>
   queue_rep s' q = queue_rep s q"
  unfolding queue_rep_def by (subst dll_cong [of q "process_table s'" "process_table s"]) auto

lemma queue_rep_upd:
  "p_prev (f (process_table s i)) = p_prev (process_table s i) \<Longrightarrow> p_next (f (process_table s i)) = p_next (process_table s i) \<Longrightarrow>
   queue_rep (upd_process i f s) q = queue_rep s q"
  by (rule queue_rep_cong) (simp_all add: upd_process_def)

lemma queue_rep_out [simp]: "queue_rep (kprintk fmt args s) q = queue_rep s q"
  by (rule queue_rep_cong) simp_all

lemma schedule_rep:
  assumes "queue_rep s (i # q)"
  defines "s' \<equiv> snd (scheduler_schedule s)"
  shows "fst (scheduler_schedule s) = Some i" "queue_rep s' q"
    "p_state (process_table s' i) = PROCESS_STATE_RUNNING" "p_quantum (process_table s' i) = quantum_ticks s"
    "\<And>j. j \<noteq> i \<Longrightarrow> links_only (process_table s j) (process_table s' j)"
    "links_only ((process_table s i)\<lparr>p_state := PROCESS_STATE_RUNNING, p_quantum := quantum_ticks s\<rparr>) (process_table s' i)"
    "current_process s' = current_process s" "scheduler_enabled s' = scheduler_enabled s"
    "quantum_ticks s' = quantum_ticks s"
proof -
  define t where "t = scheduler_remove_process (Some i) s"
  note rem = remove_process_rep [of s "[]" i q, folded t_def, simplified, OF assms(1)]
  have "ready_queue_head s = Some i" using assms(1) by (simp add: queue_rep_def)
  then have sch: "scheduler_schedule s = (Some i, upd_process i (\<lambda>p. p\<lparr>p_state := PROCESS_STATE_RUNNING,
      p_quantum := quantum_ticks t\<rparr>) t)"
    by (simp add: scheduler_schedule_def Let_def t_def)
  then have s': "s' = upd_process i (\<lambda>p. p\<lparr>p_state := PROCESS_STATE_RUNNING, p_quantum := quantum_ticks t\<rparr>) t"
    by (simp add: s'_def)
  show "fst (scheduler_schedule s) = Some i" by (simp add: sch)
  show "queue_rep s' q" unfolding s' by (subst queue_rep_upd) (use rem in simp_all)
  show "p_state (process_table s' i) = PROCESS_STATE_RUNNING" "p_quantum (process_table s' i) = quantum_ticks s"
    "current_process s' = current_process s" "scheduler_enabled s' = scheduler_enabled s"
    "quantum_ticks s' = quantum_ticks s"
    using rem by (simp_all add: s' upd_process_def)
  show "links_only (process_table s j) (process_table s' j)" if "j \<noteq> i" for j
    using rem(2) [of j] that by (simp add: s' upd_process_def)
  have "links_only (p\<lparr>p_state := a, p_quantum := b\<rparr>) (q\<lparr>p_state := a, p_quantum := b\<rparr>)"
    if "links_only p q" for p q :: process_t and a b
    using that by (cases p; cases q) (simp add: links_only_def)
  from this [OF rem(2) [of i]]
  show "links_only ((process_table s i)\<lparr>p_state := PROCESS_STATE_RUNNING, p_quantum := quantum_ticks s\<rparr>) (process_table s' i)"
    using rem by (simp add: s' upd_process_def)
qed

text \<open>The ready queue is first in, first out.\<close>

definition may_enqueue :: "'a sched_st_scheme \<Rightarrow> nat list \<Rightarrow> nat \<Rightarrow> bool" where
  "may_enqueue s q i \<longleftrightarrow> i \<notin> set q \<and> p_state (process_table s i) \<noteq> PROCESS_STATE_TERMINATED \<and>
     length q + 1 < 2 ^ 32"

definition enqueue :: "nat \<Rightarrow> 'a sched_st_scheme \<Rightarrow> 'a sched_st_scheme" where
  "enqueue i = scheduler_add_process (Some i)"

definition dequeue :: "'a sched_st_scheme \<Rightarrow> nat \<times> 'a sched_st_scheme" where
  "dequeue s = map_prod the id (scheduler_schedule s)"

interpretation ready_queue: fifo queue_rep may_enqueue enqueue dequeue
proof
  show "queue_rep (enqueue x s) (q @ [x])" if "queue_rep s q" "may_enqueue s q x" for x q and s :: "'a sched_st_scheme"
    using add_process_rep(1) [of s q x] that by (simp add: enqueue_def may_enqueue_def)
  show "fst (dequeue s) = x \<and> queue_rep (snd (dequeue s)) q" if "queue_rep s (x # q)" for x q and s :: "'a sched_st_scheme"
    using schedule_rep(1,2) [OF that] by (simp add: dequeue_def)
qed

end
