(* ===== verification/Scheduler_Theorems.thy ===== *)
theory Scheduler_Theorems
  imports Ready_Queue
begin

text \<open>
The scheduler's guarantees: one tick, runs of ticks with the processes in between, and the
  context switch; the properties of the component and their witnesses.
\<close>

section \<open>What a switch leaves alone\<close>

text \<open>The state from which the ready queue, the running process and its quantum can be told.\<close>

definition same_sched :: "'a sched_st_scheme \<Rightarrow> 'a sched_st_scheme \<Rightarrow> bool" where
  "same_sched s s' \<longleftrightarrow> ready_queue_head s' = ready_queue_head s \<and> ready_queue_tail s' = ready_queue_tail s \<and>
     ready_queue_count s' = ready_queue_count s \<and> current_process s' = current_process s \<and>
     scheduler_enabled s' = scheduler_enabled s \<and> quantum_ticks s' = quantum_ticks s \<and>
     (\<forall>i. p_next (process_table s' i) = p_next (process_table s i) \<and> p_prev (process_table s' i) = p_prev (process_table s i) \<and>
       p_state (process_table s' i) = p_state (process_table s i) \<and> p_quantum (process_table s' i) = p_quantum (process_table s i))"

lemma same_sched_rep: "same_sched s s' \<Longrightarrow> queue_rep s' q = queue_rep s q"
  by (rule queue_rep_cong) (simp_all add: same_sched_def)

lemma same_schedD:
  assumes "same_sched s s'"
  shows "ready_queue_count s' = ready_queue_count s" "current_process s' = current_process s"
    "scheduler_enabled s' = scheduler_enabled s" "quantum_ticks s' = quantum_ticks s"
    "p_state (process_table s' i) = p_state (process_table s i)"
    "p_quantum (process_table s' i) = p_quantum (process_table s i)"
  using assms by (simp_all add: same_sched_def)

lemma load_context_frame:
  "load_context new s = Inr s' \<Longrightarrow> process_table s' = process_table s"
  for s s' :: "'a desc_st_scheme"
  by (auto simp: load_context_def Let_def split: if_splits)

lemma save_context_frame:
  "process_table (save_context old new s) = (process_table s)(old := (process_table s old)
     \<lparr>p_registers := p_registers (process_table (save_context old new s) old)\<rparr>)"
  by (simp add: save_context_def Let_def upd_process_def)

lemma context_switch_same:
  fixes s s' :: "'a sched_st_scheme"
  assumes "context_switch old new s = Inr s'"
  shows "same_sched s s'" "kernel_tss s' = kernel_tss s"
    "j \<noteq> old \<Longrightarrow> process_table s' j = process_table s j"
proof -
  have a: "same_sched s (save_context old new s)" "kernel_tss (save_context old new s) = kernel_tss s"
    "process_table (save_context old new s) j = process_table s j" if "j \<noteq> old" for j
    using that by (simp_all add: same_sched_def save_context_def Let_def upd_process_def)
  have b: "same_sched t s' \<and> kernel_tss s' = kernel_tss t \<and> process_table s' = process_table t"
    if "load_context new t = Inr s'" for t
    using that by (auto simp: same_sched_def load_context_def Let_def split: if_splits)
  have "same_sched s (save_context old new s)" "kernel_tss (save_context old new s) = kernel_tss s"
    by (rule a(1) [of "Suc old"], simp) (rule a(2) [of "Suc old"], simp)
  with a(3) b [of "save_context old new s"] assms
  show "same_sched s s'" "kernel_tss s' = kernel_tss s" "j \<noteq> old \<Longrightarrow> process_table s' j = process_table s j"
    by (auto simp: context_switch_def same_sched_def)
qed

section \<open>A tick\<close>

text \<open>The scheduler at rest: one process runs, the others that are ready wait in the queue.\<close>

definition round_robin :: "'a sched_st_scheme \<Rightarrow> nat list \<Rightarrow> bool" where
  "round_robin s r \<longleftrightarrow> r \<noteq> [] \<and> distinct r \<and> length r < 2 ^ 32 \<and> scheduler_enabled s \<and>
     current_process s = Some (hd r) \<and> queue_rep s (tl r) \<and>
     p_state (process_table s (hd r)) = PROCESS_STATE_RUNNING"

definition ticked :: "nat \<Rightarrow> 'a sched_st_scheme \<Rightarrow> 'a sched_st_scheme" where
  "ticked old s = (let s = upd_process old (\<lambda>p. p\<lparr>p_time_running := p_time_running p + 1\<rparr>) s
     in if p_quantum (process_table s old) > 0
        then upd_process old (\<lambda>p. p\<lparr>p_quantum := p_quantum p - 1\<rparr>) s else s)"

lemma ticked_eq:
  "ticked old s = upd_process old (\<lambda>p. p\<lparr>p_time_running := p_time_running p + 1,
     p_quantum := (if p_quantum p > 0 then p_quantum p - 1 else p_quantum p)\<rparr>) s"
  by (cases "process_table s old") (auto simp: ticked_def Let_def upd_process_def)

lemma tick_unfold:
  assumes "current_process s = Some old" "scheduler_enabled s"
  shows "scheduler_tick s = (let s = ticked old s
     in if p_quantum (process_table s old) = 0 \<and> ready_queue_count s > 0
        then
          (let s = (if p_state (process_table s old) = PROCESS_STATE_RUNNING
                    then scheduler_add_process (Some old) s else s);
               (next_process, s) = scheduler_schedule s
           in case next_process of
                None \<Rightarrow> Inr (False, s)
              | Some new \<Rightarrow>
                  if new = old then Inr (False, s)
                  else switch_to old new (log_switch old new s))
        else if p_quantum (process_table s old) = 0
        then Inr (False, upd_process old (\<lambda>p. p\<lparr>p_quantum := quantum_ticks s\<rparr>) s)
        else Inr (False, s))"
  unfolding scheduler_tick_def ticked_def using assms by (simp add: Let_def)

lemma queue_rep_count: "queue_rep s q \<Longrightarrow> (ready_queue_count s > 0) = (q \<noteq> [])"
  by (auto simp: queue_rep_def word_less_nat_alt)

text \<open>Before its quantum is used up a process keeps the processor.\<close>

lemma tick_within:
  assumes r: "round_robin s r" and k: "1 < p_quantum (process_table s (hd r))"
  shows "\<exists>s'. scheduler_tick s = Inr (False, s') \<and> round_robin s' r \<and>
    p_quantum (process_table s' (hd r)) = p_quantum (process_table s (hd r)) - 1 \<and>
    quantum_ticks s' = quantum_ticks s"
proof -
  have cur: "current_process s = Some (hd r)" "scheduler_enabled s" using r by (simp_all add: round_robin_def)
  have k': "p_quantum (process_table s (hd r)) > 0" "p_quantum (process_table s (hd r)) - 1 \<noteq> 0"
    using k by (auto simp: word_less_nat_alt)
  have "scheduler_tick s = Inr (False, ticked (hd r) s)"
    using k' unfolding tick_unfold [OF cur] Let_def by (simp add: ticked_eq upd_process_def)
  moreover have "round_robin (ticked (hd r) s) r"
    using r by (simp add: round_robin_def ticked_eq queue_rep_upd)
  moreover have "p_quantum (process_table (ticked (hd r) s) (hd r)) = p_quantum (process_table s (hd r)) - 1"
    using k' by (simp add: ticked_eq upd_process_def)
  moreover have "quantum_ticks (ticked (hd r) s) = quantum_ticks s" by (simp add: ticked_eq)
  ultimately show ?thesis by blast
qed

text \<open>When it is used up, the process goes to the end of the queue and the first one runs.\<close>

lemma switch_to_eq:
  obtains t where "switch_to old new s = map_sum id (Pair True) (context_switch old new t)"
    "current_process t = Some new" "same_sched (s\<lparr>current_process := Some new\<rparr>) t"
    "esp0 (kernel_tss t) = p_kernel_stack (process_table s new) + 4096"
    "\<And>j. p_registers (process_table t j) = p_registers (process_table s j)"
    "\<And>j. p_kernel_stack (process_table t j) = p_kernel_stack (process_table s j)"
    "mem t = mem s" "cpu t = cpu s" "idt t = idt s"
proof
  define t where "t = upd_process new (\<lambda>p. p\<lparr>p_context_switches := p_context_switches p + 1\<rparr>)
    (upd_process old (\<lambda>p. p\<lparr>p_context_switches := p_context_switches p + 1\<rparr>)
      ((tss_set_kernel_stack (p_kernel_stack (process_table s new) + 4096) s)\<lparr>current_process := Some new\<rparr>))"
  show "switch_to old new s = map_sum id (Pair True) (context_switch old new t)"
    by (simp add: switch_to_def Let_def t_def)
  show "current_process t = Some new" "same_sched (s\<lparr>current_process := Some new\<rparr>) t"
    "esp0 (kernel_tss t) = p_kernel_stack (process_table s new) + 4096" "mem t = mem s" "cpu t = cpu s" "idt t = idt s"
    by (simp_all add: t_def same_sched_def upd_process_def tss_set_kernel_stack_def)
  show "p_registers (process_table t j) = p_registers (process_table s j)"
    "p_kernel_stack (process_table t j) = p_kernel_stack (process_table s j)" for j
    by (simp_all add: t_def upd_process_def tss_set_kernel_stack_def)
qed

lemma log_switch_same [simp]:
  "same_sched s (log_switch old new s)" "process_table (log_switch old new s) = process_table s"
  "mem (log_switch old new s) = mem s" "cpu (log_switch old new s) = cpu s" "idt (log_switch old new s) = idt s"
  by (simp_all add: log_switch_def Let_def same_sched_def)

lemma same_sched_trans: "same_sched s t \<Longrightarrow> same_sched t u \<Longrightarrow> same_sched s u"
  by (simp add: same_sched_def)

lemma queue_mem [simp]:
  "mem (scheduler_add_process p s) = mem s" "cpu (scheduler_add_process p s) = cpu s"
  "mem (snd (scheduler_schedule s)) = mem s" "cpu (snd (scheduler_schedule s)) = cpu s"
  "idt (scheduler_add_process p s) = idt s" "idt (snd (scheduler_schedule s)) = idt s"
  by (simp_all add: scheduler_add_process_def scheduler_schedule_def scheduler_remove_process_def Let_def upd_process_def kout_defs
      split: option.split)

text \<open>A tick that uses up the quantum: the running process goes to the end of the queue, the first one is taken out.\<close>

lemma requeue_and_schedule:
  fixes s :: "'a sched_st_scheme"
  assumes r: "round_robin s (old # new # q)" and k: "p_quantum (process_table s old) \<le> 1"
  shows "\<exists>t. scheduler_tick s = switch_to old new (log_switch old new t) \<and> queue_rep t (q @ [old]) \<and>
    p_state (process_table t new) = PROCESS_STATE_RUNNING \<and> scheduler_enabled t \<and> quantum_ticks t = quantum_ticks s \<and>
    p_quantum (process_table t new) = quantum_ticks s \<and> mem t = mem s \<and> cpu t = cpu s \<and> idt t = idt s \<and>
    (\<forall>j. p_registers (process_table t j) = p_registers (process_table s j) \<and>
      p_kernel_stack (process_table t j) = p_kernel_stack (process_table s j))"
proof -
  have cur: "current_process s = Some old" "scheduler_enabled s" and d: "distinct (old # new # q)"
    and rep: "queue_rep s (new # q)" and len: "length (old # new # q) < 2 ^ 32"
    and run: "p_state (process_table s old) = PROCESS_STATE_RUNNING"
    using r by (simp_all add: round_robin_def)
  have k0: "(if p_quantum (process_table s old) > 0 then p_quantum (process_table s old) - 1
      else p_quantum (process_table s old)) = 0"
  proof -
    have "p_quantum (process_table s old) = 0 \<or> p_quantum (process_table s old) = 1"
      using k word_one_le antisym by blast
    then show ?thesis by (elim disjE) simp_all
  qed
  define s1 where "s1 = ticked old s"
  have s1: "queue_rep s1 (new # q)" "current_process s1 = Some old" "p_state (process_table s1 old) = PROCESS_STATE_RUNNING"
    "p_quantum (process_table s1 old) = 0" "scheduler_enabled s1" "quantum_ticks s1 = quantum_ticks s"
    "ready_queue_count s1 > 0"
    using rep cur run k0 queue_rep_count [OF rep] by (simp_all add: s1_def ticked_eq queue_rep_upd)
  define s2 where "s2 = scheduler_add_process (Some old) s1"
  have old: "old \<notin> set (new # q)" "p_state (process_table s1 old) \<noteq> PROCESS_STATE_TERMINATED" "length (new # q) + 1 < 2 ^ 32"
    using d len s1(3) by auto
  note add = add_process_rep [OF s1(1) old, folded s2_def]
  define s3 where "s3 = snd (scheduler_schedule s2)"
  have q2: "queue_rep s2 (new # (q @ [old]))" using add(1) by simp
  note sch = schedule_rep [OF q2, folded s3_def]
  have f: "p_registers (process_table s3 j) = p_registers (process_table s j) \<and>
      p_kernel_stack (process_table s3 j) = p_kernel_stack (process_table s j)" for j
    using links_only_fields [OF add(3)] links_only_fields [OF add(4)] links_only_fields [OF sch(5)] links_only_fields [OF sch(6)]
    by (cases "j = old"; cases "j = new") (simp_all add: s1_def ticked_eq upd_process_def)
  have "new \<noteq> old" using d by auto
  then have "scheduler_tick s = switch_to old new (log_switch old new s3)"
    using s1 sch(1) unfolding tick_unfold [OF cur] s1_def [symmetric]
    by (simp add: Let_def s2_def [symmetric] case_prod_beta s3_def [symmetric])
  moreover have "mem s3 = mem s" "cpu s3 = cpu s" "idt s3 = idt s" by (simp_all add: s3_def s2_def s1_def ticked_eq upd_process_def)
  ultimately show ?thesis using f sch(2-4,8,9) add(6,7) s1(5,6) by (intro exI [of _ s3]) simp
qed

lemma tick_expires:
  assumes r: "round_robin s (old # new # q)" and k: "p_quantum (process_table s old) \<le> 1"
  shows "\<exists>t. scheduler_tick s = map_sum id (Pair True) (context_switch old new t) \<and>
    round_robin t (new # q @ [old]) \<and> p_quantum (process_table t new) = quantum_ticks s \<and>
    quantum_ticks t = quantum_ticks s \<and>
    esp0 (kernel_tss t) = p_kernel_stack (process_table s new) + 4096 \<and>
    (\<forall>j. p_registers (process_table t j) = p_registers (process_table s j)) \<and> mem t = mem s \<and> cpu t = cpu s \<and> idt t = idt s"
proof -
  obtain s3 where s3: "scheduler_tick s = switch_to old new (log_switch old new s3)" "queue_rep s3 (q @ [old])"
    "p_state (process_table s3 new) = PROCESS_STATE_RUNNING" "scheduler_enabled s3" "quantum_ticks s3 = quantum_ticks s"
    "p_quantum (process_table s3 new) = quantum_ticks s" "mem s3 = mem s" "cpu s3 = cpu s" "idt s3 = idt s"
    "\<And>j. p_registers (process_table s3 j) = p_registers (process_table s j)"
    "\<And>j. p_kernel_stack (process_table s3 j) = p_kernel_stack (process_table s j)"
    using requeue_and_schedule [OF r k] by blast
  obtain t where t: "switch_to old new (log_switch old new s3) = map_sum id (Pair True) (context_switch old new t)"
    "current_process t = Some new" "same_sched ((log_switch old new s3)\<lparr>current_process := Some new\<rparr>) t"
    "esp0 (kernel_tss t) = p_kernel_stack (process_table s3 new) + 4096"
    "\<And>j. p_registers (process_table t j) = p_registers (process_table s3 j)" "mem t = mem s3" "cpu t = cpu s3" "idt t = idt s3"
    using switch_to_eq [of old new "log_switch old new s3"] by (metis log_switch_same(2-5))
  have same: "same_sched s3 (t\<lparr>current_process := current_process s3\<rparr>)"
    using t(3) log_switch_same(1) [of s3 old new] by (auto simp: same_sched_def)
  have "queue_rep (t\<lparr>current_process := current_process s3\<rparr>) (q @ [old])"
    "p_state (process_table t new) = PROCESS_STATE_RUNNING" "scheduler_enabled t"
    using s3 same_sched_rep [OF same] same_schedD(3) [OF same] same_schedD(5) [OF same, of new] by simp_all
  moreover have "queue_rep (t\<lparr>current_process := c\<rparr>) p = queue_rep t p" for c p
    by (rule queue_rep_cong) simp_all
  ultimately have "round_robin t (new # q @ [old])" using r t(2) by (simp add: round_robin_def)
  moreover have "quantum_ticks t = quantum_ticks s" "p_quantum (process_table t new) = quantum_ticks s"
    using same_schedD(4) [OF t(3)] same_schedD(6) [OF t(3), of new] same_schedD(4,6) [OF log_switch_same(1) [of s3 old new]]
      s3(5,6) by simp_all
  ultimately show ?thesis using t(1,4-8) s3 by (intro exI [of _ t]) simp
qed

lemma tick_alone:
  assumes r: "round_robin s [c]"
  shows "\<exists>u. scheduler_tick s = Inr (False, u) \<and> round_robin u [c]"
proof -
  have cur: "current_process s = Some c" "scheduler_enabled s" and rep: "queue_rep s []"
    using r by (simp_all add: round_robin_def)
  define s1 where "s1 = ticked c s"
  have s1: "round_robin s1 [c]" "ready_queue_count s1 = 0"
    using r rep by (simp_all add: s1_def ticked_eq round_robin_def queue_rep_upd) (simp add: queue_rep_def unat_eq_0)
  have "round_robin (upd_process c (\<lambda>p. p\<lparr>p_quantum := k\<rparr>) s1) [c]" for k
    using s1(1) by (simp add: round_robin_def queue_rep_upd)
  then show ?thesis using s1 unfolding tick_unfold [OF cur] s1_def [symmetric] by (auto simp: Let_def)
qed

section \<open>Runs\<close>

text \<open>\<open>sched_run m n s t\<close>: the system goes from \<open>s\<close> to \<open>t\<close> in \<open>m\<close> ticks and \<open>n\<close> switches; in between
  the running process does what it likes, as long as it leaves the scheduler alone.\<close>

inductive sched_run :: "nat \<Rightarrow> nat \<Rightarrow> 'a sched_st_scheme \<Rightarrow> 'a sched_st_scheme \<Rightarrow> bool" where
  run_start: "sched_run 0 0 s s"
| run_tick: "sched_run m n s t \<Longrightarrow> scheduler_tick t = Inr (False, u) \<Longrightarrow> sched_run (Suc m) n s u"
| run_switch: "sched_run m n s t \<Longrightarrow> scheduler_tick t = Inr (True, u) \<Longrightarrow> sched_run (Suc m) (Suc n) s u"
| run_process: "sched_run m n s t \<Longrightarrow> same_sched t u \<Longrightarrow> sched_run m n s u"

lemma round_robin_same: "same_sched t u \<Longrightarrow> round_robin t r \<Longrightarrow> round_robin u r"
  using same_sched_rep [of t u] same_schedD [of t u] by (simp add: round_robin_def)

text \<open>One tick of a rotation of at least two processes: the outcome determines what happened.\<close>

lemma tick_cases:
  assumes r: "round_robin s r" "2 \<le> length r" and tick: "scheduler_tick s = Inr (b, u)"
    and k: "1 \<le> p_quantum (process_table s (hd r))"
  shows "if p_quantum (process_table s (hd r)) = 1
    then b \<and> round_robin u (rotate1 r) \<and> p_quantum (process_table u (hd (rotate1 r))) = quantum_ticks s
    else \<not> b \<and> round_robin u r \<and> p_quantum (process_table u (hd r)) = p_quantum (process_table s (hd r)) - 1"
    "quantum_ticks u = quantum_ticks s"
proof -
  obtain old new q where split: "r = old # new # q" using r(2) by (cases r; cases "tl r") auto
  have *: "(if p_quantum (process_table s (hd r)) = 1
    then b \<and> round_robin u (rotate1 r) \<and> p_quantum (process_table u (hd (rotate1 r))) = quantum_ticks s
    else \<not> b \<and> round_robin u r \<and> p_quantum (process_table u (hd r)) = p_quantum (process_table s (hd r)) - 1)
    \<and> quantum_ticks u = quantum_ticks s"
  proof (cases "p_quantum (process_table s old) = 1")
    case True
    obtain t where t: "scheduler_tick s = map_sum id (Pair True) (context_switch old new t)"
      "round_robin t (new # q @ [old])" "p_quantum (process_table t new) = quantum_ticks s" "quantum_ticks t = quantum_ticks s"
      using tick_expires [of s old new q] r(1) True split by auto
    obtain v where v: "context_switch old new t = Inr v" "u = v" "b"
      using t(1) tick by (cases "context_switch old new t") auto
    have "same_sched t u" using context_switch_same(1) v by blast
    then show ?thesis using True t v(3) round_robin_same [of t u] same_schedD(4,6) [of t u] by (simp add: split)
  next
    case False
    then have lt: "1 < p_quantum (process_table s (hd r))" using k by (simp add: split order_less_le)
    from tick_within [OF r(1) lt] obtain s' where "scheduler_tick s = Inr (False, s')" "round_robin s' r"
      "p_quantum (process_table s' (hd r)) = p_quantum (process_table s (hd r)) - 1" "quantum_ticks s' = quantum_ticks s"
      by blast
    then show ?thesis using tick False split by auto
  qed
  then show "if p_quantum (process_table s (hd r)) = 1
    then b \<and> round_robin u (rotate1 r) \<and> p_quantum (process_table u (hd (rotate1 r))) = quantum_ticks s
    else \<not> b \<and> round_robin u r \<and> p_quantum (process_table u (hd r)) = p_quantum (process_table s (hd r)) - 1"
    "quantum_ticks u = quantum_ticks s" by blast+
qed

lemma pred_word: "1 \<le> (p :: u32) \<Longrightarrow> unat (p - 1) + 1 = unat p" "1 \<le> p \<Longrightarrow> p \<noteq> 1 \<Longrightarrow> 1 \<le> p - 1"
proof -
  show a: "unat (p - 1) + 1 = unat p" if "1 \<le> p" using that by (simp add: unat_sub word_le_nat_alt)
  show "1 \<le> p - 1" if "1 \<le> p" "p \<noteq> 1"
  proof -
    have "unat p \<noteq> 1" using that(2) by (metis unat_1 word_unat_eq_iff)
    then show ?thesis using a [OF that(1)] by (simp add: word_le_nat_alt)
  qed
qed

lemma sched_run_rotates:
  assumes "sched_run m n s t" "round_robin s r" "2 \<le> length r"
    "1 \<le> p_quantum (process_table s (hd r))" "1 \<le> quantum_ticks s"
  shows "round_robin t (rotate n r) \<and> quantum_ticks t = quantum_ticks s \<and>
    1 \<le> p_quantum (process_table t (hd (rotate n r))) \<and>
    m + unat (p_quantum (process_table t (hd (rotate n r)))) =
      n * unat (quantum_ticks s) + unat (p_quantum (process_table s (hd r)))"
  using assms
proof (induction rule: sched_run.induct)
  case (run_tick m n s t u)
  have IH: "round_robin t (rotate n r)" "quantum_ticks t = quantum_ticks s"
    "1 \<le> p_quantum (process_table t (hd (rotate n r)))"
    "m + unat (p_quantum (process_table t (hd (rotate n r)))) =
      n * unat (quantum_ticks s) + unat (p_quantum (process_table s (hd r)))"
    using run_tick by blast+
  have l: "2 \<le> length (rotate n r)" using run_tick.prems by simp
  note c = tick_cases [OF IH(1) l run_tick.hyps(2) IH(3)]
  then have ne: "p_quantum (process_table t (hd (rotate n r))) \<noteq> 1" by (auto split: if_splits)
  note w = pred_word(1) [OF IH(3)] pred_word(2) [OF IH(3) ne]
  have "round_robin u (rotate n r)" "quantum_ticks u = quantum_ticks t"
    "p_quantum (process_table u (hd (rotate n r))) = p_quantum (process_table t (hd (rotate n r))) - 1"
    using c ne by simp_all
  then show ?case using w IH by simp
next
  case (run_switch m n s t u)
  have IH: "round_robin t (rotate n r)" "quantum_ticks t = quantum_ticks s"
    "1 \<le> p_quantum (process_table t (hd (rotate n r)))"
    "m + unat (p_quantum (process_table t (hd (rotate n r)))) =
      n * unat (quantum_ticks s) + unat (p_quantum (process_table s (hd r)))"
    using run_switch by blast+
  have l: "2 \<le> length (rotate n r)" using run_switch.prems by simp
  note c = tick_cases [OF IH(1) l run_switch.hyps(2) IH(3)]
  then have e: "p_quantum (process_table t (hd (rotate n r))) = 1" by (auto split: if_splits)
  have "round_robin u (rotate (Suc n) r)" "quantum_ticks u = quantum_ticks t"
    "p_quantum (process_table u (hd (rotate (Suc n) r))) = quantum_ticks t"
    using c e by simp_all
  then show ?case using e IH run_switch.prems by simp
next
  case (run_process m n s t u)
  then show ?case using round_robin_same [of t u] same_schedD(4,6) [of t u] by auto
qed simp

section \<open>Saving and resuming\<close>

lemma add_flags_mask: "add_flags a b AND 0x8D5 = add_flags a b"
  unfolding add_flags_def Let_def by (simp split: if_split)

lemma flags_kept: "((f AND NOT 0x8D5) OR add_flags a b) AND NOT 0x8D5 = (f :: u32) AND NOT 0x8D5"
proof -
  have "add_flags a b AND NOT 0x8D5 = 0"
    using add_flags_mask [of a b] by (metis and.assoc and.right_neutral bit.conj_cancel_right bit.conj_zero_right)
  then show ?thesis by (simp add: bit.conj_disj_distrib2 and.assoc)
qed

lemma high_low_word: "((h AND 0xFFFF0000) OR (v AND 0xFFFF)) AND 0xFFFF = (v :: u32) AND 0xFFFF"
proof -
  have "(0xFFFF0000 :: u32) AND 0xFFFF = 0" by simp
  then show ?thesis by (simp add: bit.conj_disj_distrib2 and.assoc)
qed

lemma return_address_kept:
  "4 \<le> unat e \<Longrightarrow> unat e + 4 \<le> 2 ^ 32 \<Longrightarrow> read32 (write32 m (e - 4) v) e = read32 m e"
proof -
  assume "4 \<le> unat e" "unat e + 4 \<le> 2 ^ 32"
  then have "apart 4 (e - 4) 4 e" by (simp add: apart_def unat_sub word_le_nat_alt)
  then show ?thesis by simp
qed

lemma saved_registers:
  fixes s :: "'a desc_st_scheme" and a b :: nat
  assumes "4 \<le> unat (r_esp (cpu s))" "unat (r_esp (cpu s)) + 4 \<le> 2 ^ 32"
  defines "r \<equiv> p_registers (process_table (save_context a b s) a)"
  shows "r_ebx r = r_ebx (cpu s)" "r_ecx r = r_ecx (cpu s)" "r_esi r = r_esi (cpu s)" "r_edi r = r_edi (cpu s)"
    "r_ebp r = r_ebp (cpu s)" "r_esp r = r_esp (cpu s) + 4" "r_eip r = read32 (mem s) (r_esp (cpu s))"
    "r_cr3 r = cr3 s" "r_eflags r AND NOT 0x8D5 = r_eflags (cpu s) AND NOT 0x8D5"
    "r_ds r AND 0xFFFF = r_ds (cpu s) AND 0xFFFF" "r_ss r AND 0xFFFF = r_ss (cpu s) AND 0xFFFF"
    "r_es r AND 0xFFFF = r_es (cpu s) AND 0xFFFF"
  using return_address_kept [OF assms(1,2)]
  by (simp_all add: r_def save_context_def Let_def upd_process_def flags_kept [simplified] high_low_word)

lemma load_kernel:
  assumes "load_context new s = Inr s'" "r_ds (p_registers (process_table s new)) AND 0xFFFF \<noteq> 0x23"
  defines "r \<equiv> p_registers (process_table s new)"
  shows "cpu s' = r\<lparr>r_ds := r_ds r AND 0xFFFF, r_es := r_es r AND 0xFFFF, r_fs := r_fs r AND 0xFFFF,
      r_gs := r_gs r AND 0xFFFF, r_ss := r_ss r AND 0xFFFF\<rparr>"
    "cr3 s' = r_cr3 r" "cpu_cs s' = cpu_cs s"
  using assms by (auto simp: load_context_def Let_def split: if_splits)

lemma save_other: "c \<noteq> a \<Longrightarrow> process_table (save_context c a s) a = process_table s a"
  by (simp add: save_context_def Let_def upd_process_def)

lemma save_cs: "cpu_cs (save_context c a s) = cpu_cs s"
  by (simp add: save_context_def Let_def upd_process_def)

section \<open>A state for the witnesses\<close>

text \<open>The idle process runs with one tick left; process 1, in user mode, waits.\<close>

definition boot_sched :: sched_st where
  "boot_sched = desc_st.extend boot_desc (sched_st.fields None None 0 True 10)"

definition two_processes :: sched_st where
  "two_processes = scheduler_add_process (Some 1)
     (upd_process 1 (\<lambda>p. p\<lparr>p_state := PROCESS_STATE_READY, p_registers := (p_registers p)\<lparr>r_ds := 0x23\<rparr>\<rparr>)
       (upd_process 0 (\<lambda>p. p\<lparr>p_state := PROCESS_STATE_RUNNING, p_quantum := 1\<rparr>) boot_sched))"

lemma boot_sched_fields: "ready_queue_head boot_sched = None" "ready_queue_tail boot_sched = None"
  "ready_queue_count boot_sched = 0" "scheduler_enabled boot_sched" "quantum_ticks boot_sched = 10"
  "current_process boot_sched = Some 0" "queue_rep boot_sched []"
  "process_table boot_sched = process_table boot_process"
  by (simp_all add: queue_rep_def) (simp_all add: boot_sched_def desc_st.extend_def sched_st.fields_def boot_desc_at
    [unfolded boot_desc_def desc_st.defs] boot_desc_def desc_st.defs process_st.extend_def boot_process_reach)

lemma boot_idle: "p_state (process_table (process_init s) 0) = PROCESS_STATE_RUNNING"
  by (simp add: process_init_def Let_def upd_process_def)

lemma two_processes_rotation:
  "round_robin two_processes [0, 1]" "p_quantum (process_table two_processes 0) = 1"
  "quantum_ticks two_processes = 10" "r_ds (p_registers (process_table two_processes 1)) = 0x23"
proof -
  define s where "s = upd_process 1 (\<lambda>p. p\<lparr>p_state := PROCESS_STATE_READY, p_registers := (p_registers p)\<lparr>r_ds := 0x23\<rparr>\<rparr>)
       (upd_process 0 (\<lambda>p. p\<lparr>p_state := PROCESS_STATE_RUNNING, p_quantum := 1\<rparr>) boot_sched)"
  have q: "queue_rep s []" by (simp add: s_def queue_rep_upd boot_sched_fields)
  have st: "p_state (process_table s 1) \<noteq> PROCESS_STATE_TERMINATED" "p_state (process_table s 0) = PROCESS_STATE_RUNNING"
    "p_quantum (process_table s 0) = 1" "r_ds (p_registers (process_table s 1)) = 0x23"
    "scheduler_enabled s" "quantum_ticks s = 10" "current_process s = Some 0"
    by (simp_all add: s_def boot_sched_fields)
  have e: "two_processes = scheduler_add_process (Some 1) s" by (simp add: two_processes_def s_def)
  have len: "length ([] :: nat list) + 1 < 2 ^ 32" by simp
  have "1 \<notin> set []" by simp
  note add = add_process_rep [OF q this st(1) len, folded e]
  have "links_only (process_table s 0) (process_table two_processes 0)" by (rule add(3)) simp
  note l0 = links_only_fields [OF this] and l1 = links_only_fields [OF add(4)]
  show "round_robin two_processes [0, 1]" using add l0 st by (simp add: round_robin_def)
  show "p_quantum (process_table two_processes 0) = 1" "quantum_ticks two_processes = 10"
    "r_ds (p_registers (process_table two_processes 1)) = 0x23"
    using l0 l1 st add by simp_all
qed

lemma user_switch_succeeds:
  assumes "r_ds (p_registers (process_table s new)) = 0x23" "new \<noteq> old"
  shows "\<exists>s'. context_switch old new s = Inr s'"
  using assms by (simp add: context_switch_def load_context_def Let_def save_other)

lemma created_registers:
  assumes "process_wf s" "process_create name entry_point priority s = (Some i, s')"
  shows "p_registers (process_table s' i) = p_registers (fresh_pcb name entry_point priority i s)" "slot_free s i"
proof -
  have np: "1 \<le> unat (next_pid s)" "unat (next_pid s) \<le> 256" using assms(1) by (simp_all add: process_wf_def)
  from np have "p_registers (process_table s' i) = p_registers (fresh_pcb name entry_point priority i s) \<and> slot_free s i"
  proof (cases rule: allocate_pid_cases)
    case full
    then show ?thesis using assms(2) by (simp add: process_create_full)
  next
    case (slot j)
    note c = process_create_slot [OF slot(1,3), of name entry_point priority, unfolded assms(2) fst_conv snd_conv]
    have "j = i" "\<not> stack_allocated s i" using c(1) by (auto split: if_splits)
    then show ?thesis using c(6) slot by (auto split: option.splits)
  qed
  then show "p_registers (process_table s' i) = p_registers (fresh_pcb name entry_point priority i s)" "slot_free s i"
    by blast+
qed

lemma create_succeeds:
  assumes "process_wf s" "slot_free s j" "1 \<le> j" "j < 256" "\<And>i. \<not> stack_allocated s i"
  shows "\<exists>i s'. process_create name entry_point priority s = (Some i, s')"
proof -
  have np: "1 \<le> unat (next_pid s)" "unat (next_pid s) \<le> 256" using assms(1) by (simp_all add: process_wf_def)
  from np show ?thesis
  proof (cases rule: allocate_pid_cases)
    case full
    then show ?thesis using assms by auto
  next
    case (slot i)
    then show ?thesis using process_create_slot(1) [OF slot(1,3), of name entry_point priority] assms(5)
      by (metis prod.collapse)
  qed
qed

section \<open>Properties\<close>



text \<open>C17 (functional): the tick that uses up the quantum of the running process puts it at the
  end of the queue, makes the first process of the queue current, with a new quantum and its kernel
  stack in the task state segment, and ends in the switch between the two register sets.\<close>

theorem tick_switches:
  assumes "round_robin s (old # new # q)" "p_quantum (process_table s old) \<le> 1"
  shows "\<exists>t. scheduler_tick s = map_sum id (Pair True) (context_switch old new t) \<and>
    round_robin t (new # q @ [old]) \<and> p_quantum (process_table t new) = quantum_ticks s \<and>
    esp0 (kernel_tss t) = p_kernel_stack (process_table s new) + 4096 \<and>
    (\<forall>j. p_registers (process_table t j) = p_registers (process_table s j))"
  using tick_expires [OF assms] by blast

theorem tick_switches_witness:
  "\<exists>t. scheduler_tick two_processes = map_sum id (Pair True) (context_switch 0 1 t) \<and> round_robin t [1, 0]"
  using tick_switches [OF two_processes_rotation(1)] by (auto simp: two_processes_rotation)

text \<open>C32 (refinement): the linked queue is first in, first out: processes put into a queue come out
  behind those already there, in the order they were put in.\<close>

theorem ready_queue_order:
  assumes "queue_rep s q" "can_all may_enqueue enqueue xs s q"
  shows "fst (take_n dequeue (length q + length xs) (put_all enqueue xs s)) = q @ xs \<and>
    queue_rep (snd (take_n dequeue (length q + length xs) (put_all enqueue xs s))) []"
  using ready_queue.order_kept [OF assms] .

theorem ready_queue_order_witness:
  "fst (take_n dequeue 1 (put_all enqueue [0] boot_sched)) = [0]"
proof -
  have "may_enqueue boot_sched [] 0"
    by (simp add: may_enqueue_def boot_sched_fields boot_process_def boot_idle)
  then show ?thesis using ready_queue_order [of boot_sched "[]" "[0]"] by (simp add: boot_sched_fields)
qed



text \<open>Fact (error): the first switch to a kernel process that \<open>process_create\<close> has made never
  arrives: its saved stack segment is the null selector, and loading it is a general
  protection fault.\<close>

theorem created_process_faults:
  assumes "process_wf s" "process_create name entry_point priority s = (Some i, s')"
    and "p_registers (process_table t i) = p_registers (process_table s' i)" "old \<noteq> i"
  shows "context_switch old i t = Inl 13"
proof -
  have "r_ss (p_registers (process_table s' i)) = 0 \<and> r_ds (p_registers (process_table s' i)) = 0"
    using created_registers [OF assms(1,2)] by (simp add: zero_registers_def fresh_pcb_def Let_def)
  then show ?thesis
    using assms(3,4) by (simp add: context_switch_def load_context_def Let_def save_other stack_selector_ok_def)
qed

theorem created_process_faults_witness:
  "\<exists>i s'. process_create (Some ''init'') 0x1000 PROCESS_PRIORITY_NORMAL (process_init boot_sched) = (Some i, s') \<and>
     context_switch 0 i s' = Inl 13"
proof -
  have al: "\<not> stack_allocated (process_init boot_sched) i" for i
    by (simp add: process_init_spec boot_sched_def desc_st.extend_def boot_desc_def process_st.extend_def boot_process_reach)
  obtain i s' where c: "process_create (Some ''init'') 0x1000 PROCESS_PRIORITY_NORMAL (process_init boot_sched) = (Some i, s')"
    using create_succeeds [OF process_init_spec(1) _ _ _ al, of 1] process_init_spec(6) [of boot_sched 1]
    by (metis le_refl one_less_numeral_iff semiring_norm(76))
  have "0 \<noteq> i" using created_registers(2) [OF process_init_spec(1) c] by (auto simp: process_init_spec)
  from created_process_faults [OF process_init_spec(1) c refl this] c show ?thesis by blast
qed

end
