(* ===== verification/Keyboard.thy ===== *)
theory Keyboard
  imports Scheduler_Theorems "HOL-Library.Char_ord"
begin

text \<open>
  The PS/2 keyboard driver of \<^verbatim>\<open>src/kernel/keyboard.c\<close>: the translation of scancodes, the
  ring buffer between the interrupt handler and its readers, and the line editor. The
  structure \<^verbatim>\<open>keyboard_state\<close> is the record; the keyboard controller answers the port reads.
\<close>

section \<open>State and tables\<close>

record kbd_st = sched_st +
  modifiers :: u8
  input_buffer :: string
  buffer_head :: nat
  buffer_tail :: nat
  buffer_count :: nat
  input_enabled :: bool

definition KB_DATA_PORT :: u16 where "KB_DATA_PORT = 0x60"
definition KB_STATUS_PORT :: u16 where "KB_STATUS_PORT = 0x64"
definition KB_STAT_OUTPUT_FULL :: u8 where "KB_STAT_OUTPUT_FULL = 0x01"
definition KB_LCTRL :: u8 where "KB_LCTRL = 0x1D"
definition KB_LSHIFT :: u8 where "KB_LSHIFT = 0x2A"
definition KB_RSHIFT :: u8 where "KB_RSHIFT = 0x36"
definition KB_LALT :: u8 where "KB_LALT = 0x38"
definition KB_CAPS :: u8 where "KB_CAPS = 0x3A"
definition KB_F1 :: u8 where "KB_F1 = 0x3B"
definition KB_F2 :: u8 where "KB_F2 = 0x3C"
definition KB_F3 :: u8 where "KB_F3 = 0x3D"
definition KB_KEY_RELEASE :: u8 where "KB_KEY_RELEASE = 0x80"
definition KB_MOD_SHIFT :: u8 where "KB_MOD_SHIFT = 0x01"
definition KB_MOD_CTRL :: u8 where "KB_MOD_CTRL = 0x02"
definition KB_MOD_ALT :: u8 where "KB_MOD_ALT = 0x04"
definition KB_MOD_CAPS :: u8 where "KB_MOD_CAPS = 0x08"

lemmas kb_codes = KB_LCTRL_def KB_LSHIFT_def KB_RSHIFT_def KB_LALT_def KB_CAPS_def KB_F1_def KB_F2_def
  KB_F3_def KB_KEY_RELEASE_def KB_MOD_SHIFT_def KB_MOD_CTRL_def KB_MOD_ALT_def KB_MOD_CAPS_def

text \<open>One line of the source's table to a line here; \<open>nul n\<close> is a run of zeros.\<close>

definition nul :: "nat \<Rightarrow> string" where "nul n = replicate n (CHR 0x00)"

definition keypad_rows :: string where
  "keypad_rows = ''*'' @ nul 1 @ '' '' @ nul 10
     @ nul 10 @ ''-'' @ nul 2
     @ nul 1 @ ''+'' @ nul 11
     @ nul 13 @ nul 13 @ nul 13"

definition scancode_to_ascii :: string where
  "scancode_to_ascii =
     nul 1 @ [CHR 0x1B] @ ''1234567890-='' @ [CHR 0x08]
     @ [CHR 0x09] @ ''qwertyuiop[]'' @ [CHR 0x0A]
     @ nul 1 @ ''asdfghjkl;'' @ [CHR 0x27] @ ''`''
     @ nul 1 @ [CHR 0x5C] @ ''zxcvbnm,./'' @ nul 1
     @ keypad_rows"

definition scancode_to_ascii_shift :: string where
  "scancode_to_ascii_shift =
     nul 1 @ [CHR 0x1B] @ ''!@#$%^&*()_+'' @ [CHR 0x08]
     @ [CHR 0x09] @ ''QWERTYUIOP{}'' @ [CHR 0x0A]
     @ nul 1 @ ''ASDFGHJKL:'' @ [CHR 0x22] @ ''~''
     @ nul 1 @ ''|ZXCVBNM<>?'' @ nul 1
     @ keypad_rows"

section \<open>Setting up\<close>

partial_function (option) drain_loop :: "device \<Rightarrow> 'a ports_scheme \<Rightarrow> 'a ports_scheme option" where
  "drain_loop dev s =
     (let (status, s) = inb dev KB_STATUS_PORT s
      in if status AND KB_STAT_OUTPUT_FULL \<noteq> 0 then drain_loop dev (snd (inb dev KB_DATA_PORT s))
      else Some s)"

declare drain_loop.simps [code]

definition keyboard_init :: "device \<Rightarrow> 'a kbd_st_scheme \<Rightarrow> 'a kbd_st_scheme option" where
  "keyboard_init dev s =
     do {
       let s = s\<lparr>modifiers := 0, buffer_head := 0, buffer_tail := 0, buffer_count := 0, input_enabled := True\<rparr>;
       s \<leftarrow> drain_loop dev s;
       let s = pic_enable_irq dev 1 s;
       Some (kinfo ''PS/2 Keyboard driver initialized'' [] s)
     }"

section \<open>The ring buffer\<close>

definition keyboard_add_to_buffer :: "char \<Rightarrow> 'a kbd_st_scheme \<Rightarrow> 'a kbd_st_scheme" where
  "keyboard_add_to_buffer c s =
     (if buffer_count s < 255
      then s\<lparr>input_buffer := (input_buffer s)[buffer_head s := c],
             buffer_head := (buffer_head s + 1) mod 256,
             buffer_count := buffer_count s + 1\<rparr>
      else s)"

definition keyboard_getchar :: "'a kbd_st_scheme \<Rightarrow> char \<times> 'a kbd_st_scheme" where
  "keyboard_getchar s =
     (if buffer_count s = 0 then (CHR 0x00, s)
      else
        (let c = input_buffer s ! buffer_tail s
         in (c, s\<lparr>buffer_tail := (buffer_tail s + 1) mod 256, buffer_count := buffer_count s - 1\<rparr>)))"

definition keyboard_available :: "'a kbd_st_scheme \<Rightarrow> nat" where
  "keyboard_available s = buffer_count s"

definition keyboard_flush :: "'a kbd_st_scheme \<Rightarrow> 'a kbd_st_scheme" where
  "keyboard_flush s = s\<lparr>buffer_head := 0, buffer_tail := 0, buffer_count := 0\<rparr>"

definition keyboard_get_modifiers :: "'a kbd_st_scheme \<Rightarrow> u8" where
  "keyboard_get_modifiers s = modifiers s"

definition console_enable_input :: "'a kbd_st_scheme \<Rightarrow> 'a kbd_st_scheme" where
  "console_enable_input s = s\<lparr>input_enabled := True\<rparr>"

definition console_disable_input :: "'a kbd_st_scheme \<Rightarrow> 'a kbd_st_scheme" where
  "console_disable_input s = s\<lparr>input_enabled := False\<rparr>"

section \<open>The interrupt handler\<close>

definition key_release :: "u8 \<Rightarrow> 'a kbd_st_scheme \<Rightarrow> 'a kbd_st_scheme" where
  "key_release scancode s =
     (if scancode = KB_LSHIFT \<or> scancode = KB_RSHIFT
      then s\<lparr>modifiers := modifiers s AND NOT KB_MOD_SHIFT\<rparr>
      else if scancode = KB_LCTRL then s\<lparr>modifiers := modifiers s AND NOT KB_MOD_CTRL\<rparr>
      else if scancode = KB_LALT then s\<lparr>modifiers := modifiers s AND NOT KB_MOD_ALT\<rparr>
      else s)"

text \<open>\<open>None\<close> where the key is no modifier.\<close>

definition modifier_press :: "u8 \<Rightarrow> u8 \<Rightarrow> u8 option" where
  "modifier_press scancode m =
     (if scancode = KB_LSHIFT \<or> scancode = KB_RSHIFT then Some (m OR KB_MOD_SHIFT)
      else if scancode = KB_LCTRL then Some (m OR KB_MOD_CTRL)
      else if scancode = KB_LALT then Some (m OR KB_MOD_ALT)
      else if scancode = KB_CAPS then Some (m XOR KB_MOD_CAPS)
      else None)"

definition key_ascii :: "u8 \<Rightarrow> u8 \<Rightarrow> char" where
  "key_ascii m scancode =
     (if scancode < 128
      then
        (let ascii = (if m AND KB_MOD_SHIFT \<noteq> 0 then scancode_to_ascii_shift ! unat scancode
                      else scancode_to_ascii ! unat scancode)
         in if m AND KB_MOD_CAPS \<noteq> 0 \<and> CHR ''a'' \<le> ascii \<and> ascii \<le> CHR ''z''
            then char_of ((of_char ascii :: nat) - of_char (CHR ''a'') + of_char (CHR ''A''))
            else if m AND KB_MOD_CAPS \<noteq> 0 \<and> CHR ''A'' \<le> ascii \<and> ascii \<le> CHR ''Z''
            then char_of ((of_char ascii :: nat) - of_char (CHR ''A'') + of_char (CHR ''a''))
            else ascii)
      else CHR 0x00)"

definition function_key :: "u8 \<Rightarrow> 'a kbd_st_scheme \<Rightarrow> 'a kbd_st_scheme" where
  "function_key scancode s =
     (if scancode = KB_F1
      then kprintk ([CHR 0x0A] @ ''[F1] System Info: Aether OS v0.1.0'' @ [CHR 0x0A]) [] s
      else if scancode = KB_F2
      then kprintk ([CHR 0x0A] @ ''[F2] Memory Info: Available soon'' @ [CHR 0x0A]) [] s
      else if scancode = KB_F3
      then kprintk ([CHR 0x0A] @ ''[F3] Timer: %d ticks'' @ [CHR 0x0A]) [VInt (timer_get_ticks s)] s
      else s)"

definition accept_char :: "char \<Rightarrow> 'a kbd_st_scheme \<Rightarrow> 'a kbd_st_scheme" where
  "accept_char ascii s =
     (if input_enabled s \<and> ascii \<noteq> CHR 0x00
      then
        (if ascii = CHR 0x08
         then keyboard_add_to_buffer (CHR 0x08) (s\<lparr>con := console_backspace (con s)\<rparr>)
         else if ascii = CHR 0x0A
         then keyboard_add_to_buffer (CHR 0x0A) (s\<lparr>con := console_putchar (CHR 0x0A) (con s)\<rparr>)
         else if CHR '' '' \<le> ascii \<and> ascii \<le> CHR ''~''
         then keyboard_add_to_buffer ascii (s\<lparr>con := console_putchar ascii (con s)\<rparr>)
         else s)
      else s)"

definition keyboard_handler :: "device \<Rightarrow> 'a kbd_st_scheme \<Rightarrow> 'a kbd_st_scheme" where
  "keyboard_handler dev s =
     (let (scancode, s) = inb dev KB_DATA_PORT s
      in if scancode AND KB_KEY_RELEASE \<noteq> 0 then key_release (scancode AND NOT KB_KEY_RELEASE) s
      else case modifier_press scancode (modifiers s) of
        Some m \<Rightarrow> s\<lparr>modifiers := m\<rparr>
      | None \<Rightarrow>
          (let ascii = key_ascii (modifiers s) scancode
           in if ascii = CHR 0x00 then function_key scancode s else accept_char ascii s))"

section \<open>Reading a line\<close>

text \<open>
  \<open>buffer\<close> is the caller's array. Where no input is available the processor halts; \<open>hlt\<close> is the
  effect of the interrupts up to the one that ends the wait.
\<close>

partial_function (option) readline_loop ::
    "('a kbd_st_scheme \<Rightarrow> 'a kbd_st_scheme) \<Rightarrow> int \<Rightarrow> nat \<Rightarrow> string \<Rightarrow> 'a kbd_st_scheme \<Rightarrow>
     (string \<times> 'a kbd_st_scheme) option" where
  "readline_loop hlt max_len pos buffer s =
     (if int pos < max_len - 1
      then
        (let (c, s) = keyboard_getchar s
         in if c = CHR 0x00 then readline_loop hlt max_len pos buffer (hlt s)
            else if c = CHR 0x0A then Some (buffer[pos := CHR 0x00], s)
            else if c = CHR 0x08 then readline_loop hlt max_len (pos - 1) buffer s
            else if CHR '' '' \<le> c \<and> c \<le> CHR ''~''
            then readline_loop hlt max_len (pos + 1) (buffer[pos := c]) s
            else readline_loop hlt max_len pos buffer s)
      else Some (buffer[pos := CHR 0x00], s))"

declare readline_loop.simps [code]

definition console_readline ::
    "('a kbd_st_scheme \<Rightarrow> 'a kbd_st_scheme) \<Rightarrow> string \<Rightarrow> int \<Rightarrow> 'a kbd_st_scheme \<Rightarrow>
     (string \<times> 'a kbd_st_scheme) option" where
  "console_readline hlt buffer max_len s = readline_loop hlt max_len 0 buffer s"

end
