(* ===== verification/Keyboard_Theorems.thy ===== *)
theory Keyboard_Theorems
  imports Keyboard
begin

text \<open>
The keyboard driver's guarantees: the ring buffer as a queue of characters, the handler, and the
  line editor, with input arriving while it waits.
\<close>

section \<open>The ring buffer is a queue\<close>

definition kbd_rep :: "'a kbd_st_scheme \<Rightarrow> string \<Rightarrow> bool" where
  "kbd_rep s q \<longleftrightarrow> length (input_buffer s) = 256 \<and> buffer_tail s < 256 \<and> buffer_count s = length q \<and>
     length q \<le> 255 \<and> buffer_head s = (buffer_tail s + length q) mod 256 \<and>
     (\<forall>k < length q. input_buffer s ! ((buffer_tail s + k) mod 256) = q ! k)"

lemma ring_index_neq:
  fixes t k n :: nat
  assumes "k < n" "n < 256" shows "(t + k) mod 256 \<noteq> (t + n) mod 256"
proof
  assume "(t + k) mod 256 = (t + n) mod 256"
  then have "(256 :: nat) dvd (t + n) - (t + k)" using assms mod_eq_dvd_iff_nat [of "t + k" "t + n" 256] by simp
  then show False using assms by (auto dest: dvd_imp_le)
qed

lemma add_rep:
  assumes r: "kbd_rep s q" and l: "length q < 255"
  shows "kbd_rep (keyboard_add_to_buffer c s) (q @ [c])"
proof -
  have n: "input_buffer (keyboard_add_to_buffer c s) ! ((buffer_tail s + k) mod 256) = (q @ [c]) ! k"
    if "k < length (q @ [c])" for k
  proof (cases "k = length q")
    case True
    then show ?thesis using r l by (simp add: kbd_rep_def keyboard_add_to_buffer_def)
  next
    case False
    then have "k < length q" using that by simp
    moreover have "(buffer_tail s + k) mod 256 \<noteq> (buffer_tail s + length q) mod 256"
      using ring_index_neq [of k "length q" "buffer_tail s"] \<open>k < length q\<close> l by simp
    ultimately show ?thesis using r l by (simp add: kbd_rep_def keyboard_add_to_buffer_def nth_append)
  qed
  have h: "buffer_head (keyboard_add_to_buffer c s) = (buffer_tail s + length (q @ [c])) mod 256"
    using r l by (simp add: kbd_rep_def keyboard_add_to_buffer_def mod_Suc_eq)
  show ?thesis using r l n h unfolding kbd_rep_def by (simp add: keyboard_add_to_buffer_def)
qed

lemma add_full: "kbd_rep s q \<Longrightarrow> length q = 255 \<Longrightarrow> keyboard_add_to_buffer c s = s"
  by (simp add: kbd_rep_def keyboard_add_to_buffer_def)

lemma getchar_rep:
  assumes r: "kbd_rep s (c # q)"
  shows "fst (keyboard_getchar s) = c \<and> kbd_rep (snd (keyboard_getchar s)) q"
proof -
  have k: "input_buffer s ! ((buffer_tail s + k) mod 256) = (c # q) ! k" if "k < Suc (length q)" for k
    using r that by (simp add: kbd_rep_def)
  have "input_buffer s ! ((Suc (buffer_tail s) mod 256 + k) mod 256) = q ! k" if "k < length q" for k
    using k [of "Suc k"] that by (simp add: mod_add_left_eq)
  moreover have "(Suc (buffer_tail s) mod 256 + length q) mod 256 = (buffer_tail s + Suc (length q)) mod 256"
    by (simp add: mod_add_left_eq)
  ultimately show ?thesis using r k [of 0]
    unfolding kbd_rep_def by (simp add: keyboard_getchar_def)
qed

lemma getchar_empty: "kbd_rep s [] \<Longrightarrow> keyboard_getchar s = (CHR 0x00, s)"
  by (simp add: kbd_rep_def keyboard_getchar_def)

interpretation key_queue: fifo kbd_rep "\<lambda>s q c. length q < 255" keyboard_add_to_buffer keyboard_getchar
  by unfold_locales (rule add_rep, assumption+, rule getchar_rep, assumption)

lemma can_all_room:
  "length q + length xs \<le> 255 \<Longrightarrow> can_all (\<lambda>s q c. length q < 255) put xs s q"
  by (induction xs arbitrary: s q) auto

lemma kbd_rep_cong:
  "input_buffer s' = input_buffer s \<Longrightarrow> buffer_head s' = buffer_head s \<Longrightarrow> buffer_tail s' = buffer_tail s \<Longrightarrow>
   buffer_count s' = buffer_count s \<Longrightarrow> kbd_rep s' q = kbd_rep s q"
  by (simp add: kbd_rep_def)

section \<open>Keys\<close>

definition typed :: "char \<Rightarrow> bool" where
  "typed c \<longleftrightarrow> c = CHR 0x08 \<or> c = CHR 0x0A \<or> CHR '' '' \<le> c \<and> c \<le> CHR ''~''"

definition echo :: "char \<Rightarrow> console \<Rightarrow> console" where
  "echo c = (if c = CHR 0x08 then console_backspace else console_putchar c)"

definition upper :: "char \<Rightarrow> char" where
  "upper c = char_of (of_char c - 32 :: nat)"

lemma typed_not_nul: "typed c \<Longrightarrow> c \<noteq> CHR 0x00"
  by (auto simp: typed_def less_eq_char_def)

definition letter_codes :: "nat list" where
  "letter_codes = [0x10..<0x1A] @ [0x1E..<0x27] @ [0x2C..<0x33]"

lemma letters_table:
  "map ((!) scancode_to_ascii) letter_codes = ''qwertyuiopasdfghjklzxcvbnm''"
  "map ((!) scancode_to_ascii_shift) letter_codes = ''QWERTYUIOPASDFGHJKLZXCVBNM''"
  by (simp_all add: letter_codes_def scancode_to_ascii_def scancode_to_ascii_shift_def nul_def upt_conv_Cons)

lemma letters_upper:
  "map upper ''qwertyuiopasdfghjklzxcvbnm'' = ''QWERTYUIOPASDFGHJKLZXCVBNM''"
  "list_all (\<lambda>c. CHR ''a'' \<le> c \<and> c \<le> CHR ''z'' \<and> CHR ''A'' \<le> upper c \<and> upper c \<le> CHR ''Z'' \<and>
     \<not> CHR ''a'' \<le> upper c \<and> char_of ((of_char c :: nat) - of_char (CHR ''a'') + of_char (CHR ''A'')) = upper c \<and>
     char_of ((of_char (upper c) :: nat) - of_char (CHR ''A'') + of_char (CHR ''a'')) = c)
     ''qwertyuiopasdfghjklzxcvbnm''"
  by code_simp+

lemma letter_facts:
  assumes "i \<in> set letter_codes"
  defines "c \<equiv> scancode_to_ascii ! i"
  shows "scancode_to_ascii_shift ! i = upper c" "c \<in> set ''qwertyuiopasdfghjklzxcvbnm''" "i < 128"
proof -
  have "map ((!) scancode_to_ascii_shift) letter_codes = map (upper \<circ> (!) scancode_to_ascii) letter_codes"
    by (simp only: letters_table letters_upper(1) map_map [symmetric])
  then show "scancode_to_ascii_shift ! i = upper c" using assms by simp
  show "c \<in> set ''qwertyuiopasdfghjklzxcvbnm''"
    unfolding c_def letters_table(1) [symmetric] using assms(1) by (simp only: list.set_map image_eqI)
  show "i < 128" using assms(1) by (auto simp: letter_codes_def)
qed

lemma key_ascii_letter:
  assumes "unat sc \<in> set letter_codes"
  shows "key_ascii m sc = (if (m AND KB_MOD_SHIFT \<noteq> 0) = (m AND KB_MOD_CAPS \<noteq> 0)
    then scancode_to_ascii ! unat sc else upper (scancode_to_ascii ! unat sc))"
proof -
  note f = letter_facts [OF assms]
  have "sc < 128" using f(3) by (simp add: word_less_nat_alt)
  moreover note letters_upper(2) [unfolded list_all_iff, THEN bspec, OF f(2)]
  ultimately show ?thesis unfolding key_ascii_def Let_def f(1) by auto
qed

section \<open>The handler\<close>

text \<open>The character a scancode types, if it types one.\<close>

definition key_typed :: "u8 \<Rightarrow> 'a kbd_st_scheme \<Rightarrow> char option" where
  "key_typed sc s = (let c = key_ascii (modifiers s) sc
     in if sc < 128 \<and> modifier_press sc (modifiers s) = None \<and> input_enabled s \<and> typed c then Some c else None)"

lemma release_bit: "(sc :: u8) AND KB_KEY_RELEASE \<noteq> 0 \<longleftrightarrow> \<not> sc < 128"
proof -
  have "sc AND 0x80 \<noteq> 0 \<longleftrightarrow> bit sc 7" using and_exp_eq_0_iff_not_bit [of sc 7] by simp
  also have "\<dots> \<longleftrightarrow> bit (unat sc) 7" by (simp add: bit_unsigned_iff)
  also have "\<dots> \<longleftrightarrow> odd (unat sc div 128)" by (simp add: bit_iff_odd)
  also have "\<dots> \<longleftrightarrow> \<not> unat sc < 128"
  proof -
    have "unat sc < 256" using unsigned_less [of sc] by simp
    then have "unat sc div 128 = 0 \<or> unat sc div 128 = 1 \<and> 128 \<le> unat sc" by auto
    then show ?thesis by auto
  qed
  finally show ?thesis by (simp add: KB_KEY_RELEASE_def word_less_nat_alt)
qed

lemma accept_char_cases:
  "accept_char c s = (if input_enabled s \<and> typed c
     then keyboard_add_to_buffer c (s\<lparr>con := echo c (con s)\<rparr>) else s)"
  using typed_not_nul [of c] by (auto simp: accept_char_def typed_def echo_def)

definition same_ring :: "'a kbd_st_scheme \<Rightarrow> 'a kbd_st_scheme \<Rightarrow> bool" where
  "same_ring s s' \<longleftrightarrow> input_buffer s' = input_buffer s \<and> buffer_head s' = buffer_head s \<and>
     buffer_tail s' = buffer_tail s \<and> buffer_count s' = buffer_count s"

lemma same_ring_other:
  "same_ring s (key_release k s)" "same_ring s (function_key k s)" "same_ring s (s\<lparr>modifiers := m\<rparr>)"
  "same_ring s (snd (inb dev port s))" "same_ring s (s\<lparr>con := c\<rparr>)"
  by (simp_all add: same_ring_def key_release_def function_key_def inb_def kout_defs Let_def)

lemma same_ring_rep: "same_ring s s' \<Longrightarrow> kbd_rep s' q = kbd_rep s q"
  by (simp add: same_ring_def kbd_rep_def)

lemma same_ring_trans: "same_ring s t \<Longrightarrow> same_ring t u \<Longrightarrow> same_ring s u"
  by (simp add: same_ring_def)

lemma handler_cases:
  fixes s :: "'a kbd_st_scheme"
  assumes sc: "dev (io_log s) KB_DATA_PORT = sc"
  shows "case key_typed sc s of
      Some c \<Rightarrow> keyboard_handler dev s = keyboard_add_to_buffer c
        ((snd (inb dev KB_DATA_PORT s))\<lparr>con := echo c (con s)\<rparr>)
    | None \<Rightarrow> same_ring s (keyboard_handler dev s)"
proof -
  define t where "t = snd (inb dev KB_DATA_PORT s)"
  have inb: "inb dev KB_DATA_PORT s = (sc, t)" using sc by (simp add: inb_def t_def Let_def)
  have t: "modifiers t = modifiers s" "input_enabled t = input_enabled s" "con t = con s" "same_ring s t"
    by (simp_all add: t_def inb_def Let_def same_ring_def)
  show ?thesis
  proof (cases "sc < 128 \<and> modifier_press sc (modifiers s) = None")
    case True
    have run: "keyboard_handler dev s = (let a = key_ascii (modifiers s) sc
        in if a = CHR 0x00 then function_key sc t else accept_char a t)"
      using True release_bit [of sc] by (simp add: keyboard_handler_def inb t Let_def)
    have acc: "accept_char a t = (if input_enabled s \<and> typed a
        then keyboard_add_to_buffer a (t\<lparr>con := echo a (con s)\<rparr>) else t)" for a
      by (simp add: accept_char_cases t)
    show ?thesis
    proof (cases "key_typed sc s")
      case None
      then have "keyboard_handler dev s = function_key sc t \<or> keyboard_handler dev s = t"
        using True unfolding run acc by (auto simp: key_typed_def Let_def split: if_splits)
      then show ?thesis using None same_ring_trans [OF t(4) same_ring_other(2)] t(4) by auto
    next
      case (Some c)
      then have "c = key_ascii (modifiers s) sc" "typed c" "input_enabled s"
        by (auto simp: key_typed_def Let_def split: if_splits)
      then show ?thesis using Some typed_not_nul [of c] unfolding run acc by (simp add: inb Let_def)
    qed
  next
    case False
    then have none: "key_typed sc s = None" by (auto simp: key_typed_def Let_def)
    have "keyboard_handler dev s = key_release (sc AND NOT KB_KEY_RELEASE) t \<or>
        (\<exists>m. keyboard_handler dev s = t\<lparr>modifiers := m\<rparr>)"
      using False release_bit [of sc] by (auto simp: keyboard_handler_def inb t Let_def split: option.split)
    then show ?thesis using none same_ring_trans [OF t(4) same_ring_other(1)] same_ring_trans [OF t(4) same_ring_other(3)]
      by auto
  qed
qed

lemma handler_rep:
  assumes "kbd_rep s q" "dev (io_log s) KB_DATA_PORT = sc"
  shows "kbd_rep (keyboard_handler dev s)
    (case key_typed sc s of Some c \<Rightarrow> if length q < 255 then q @ [c] else q | None \<Rightarrow> q)"
proof (cases "key_typed sc s")
  case None
  then show ?thesis using handler_cases [of dev s sc] assms same_ring_rep by auto
next
  case (Some c)
  define u where "u = (snd (inb dev KB_DATA_PORT s))\<lparr>con := echo c (con s)\<rparr>"
  have u: "kbd_rep u q" using assms(1) by (simp add: u_def same_ring_rep [OF same_ring_trans [OF same_ring_other(4,5)]])
  have "keyboard_handler dev s = keyboard_add_to_buffer c u"
    using handler_cases [of dev s sc] assms(2) Some by (simp add: u_def)
  moreover have "length q \<le> 255" using assms(1) by (simp add: kbd_rep_def)
  ultimately show ?thesis using add_rep [OF u] add_full [OF u] u Some by (cases "length q = 255") auto
qed

section \<open>Reading a line\<close>

text \<open>What a line editor with room for \<open>n\<close> characters makes of its input: the line and the input
  left, once the line is ended or full.\<close>

fun line_of :: "nat \<Rightarrow> string \<Rightarrow> string \<Rightarrow> (string \<times> string) option" where
  "line_of n l cs =
     (if n \<le> length l then Some (l, cs)
      else case cs of
        [] \<Rightarrow> None
      | c # cs \<Rightarrow>
          if c = CHR 0x0A then Some (l, cs)
          else if c = CHR 0x08 then line_of n (butlast l) cs
          else line_of n (l @ [c]) cs)"

declare line_of.simps [simp del]

text \<open>Input arrives while the processor halts: \<open>future s\<close> is what is still to be typed, and each halt
  ends with some of it in the buffer.\<close>

definition typist :: "('a kbd_st_scheme \<Rightarrow> string) \<Rightarrow> ('a kbd_st_scheme \<Rightarrow> 'a kbd_st_scheme) \<Rightarrow> bool" where
  "typist future hlt \<longleftrightarrow>
     (\<forall>s. kbd_rep s [] \<longrightarrow> future s \<noteq> [] \<longrightarrow>
        (\<exists>xs. xs \<noteq> [] \<and> future s = xs @ future (hlt s) \<and> kbd_rep (hlt s) xs)) \<and>
     (\<forall>s. future (snd (keyboard_getchar s)) = future s)"

lemma readline_typed:
  assumes "typist future hlt" "kbd_rep s q" "q \<noteq> [] \<or> future s \<noteq> []" "\<forall>c \<in> set (q @ future s). typed c"
    "int pos < max_len - 1"
  obtains c q' s' where "q @ future s = c # q' @ future s'" "kbd_rep s' q'"
    "readline_loop hlt max_len pos buf s =
      (if c = CHR 0x0A then Some (buf[pos := CHR 0x00], s')
       else if c = CHR 0x08 then readline_loop hlt max_len (pos - 1) buf s'
       else readline_loop hlt max_len (pos + 1) (buf[pos := c]) s')"
proof -
  have step: "readline_loop hlt max_len pos buf t =
      (if c = CHR 0x0A then Some (buf[pos := CHR 0x00], snd (keyboard_getchar t))
       else if c = CHR 0x08 then readline_loop hlt max_len (pos - 1) buf (snd (keyboard_getchar t))
       else readline_loop hlt max_len (pos + 1) (buf[pos := c]) (snd (keyboard_getchar t)))"
    if "kbd_rep t (c # q')" "typed c" for t c q'
  proof -
    have g: "fst (keyboard_getchar t) = c" using getchar_rep [OF that(1)] by simp
    show ?thesis
      using typed_not_nul [OF that(2)] that(2) assms(5) g
      by (subst readline_loop.simps) (auto simp: case_prod_beta Let_def typed_def)
  qed
  have fut: "future (snd (keyboard_getchar t)) = future t" for t using assms(1) by (simp add: typist_def)
  show thesis
  proof (cases q)
    case (Cons c q')
    have "typed c" "kbd_rep s (c # q')" using assms(2,4) Cons by simp_all
    then show thesis using that [of c q' "snd (keyboard_getchar s)"] step [of s c q'] getchar_rep [of s c q'] fut Cons
      by simp
  next
    case Nil
    then obtain xs where xs: "xs \<noteq> []" "future s = xs @ future (hlt s)" "kbd_rep (hlt s) xs"
      using assms(1,2,3) unfolding typist_def by blast
    obtain c q' where cq: "xs = c # q'" using xs(1) by (cases xs) auto
    have "typed c" using assms(4) xs(2) cq by simp
    have "readline_loop hlt max_len pos buf s = readline_loop hlt max_len pos buf (hlt s)"
      using getchar_empty [of s] assms(2,5) Nil by (subst readline_loop.simps) simp
    then show thesis
      using that [of c q' "snd (keyboard_getchar (hlt s))"] step [of "hlt s" c q'] getchar_rep [of "hlt s" c q'] fut Nil xs cq
        \<open>typed c\<close> by simp
  qed
qed

lemma readline_loop_line:
  assumes ty: "typist future hlt" and n: "int n = max_len - 1" and len: "n < length buf"
  shows "kbd_rep s q \<Longrightarrow> \<forall>c \<in> set (q @ future s). typed c \<Longrightarrow> line_of n l (q @ future s) = Some (l', rest) \<Longrightarrow>
    length l \<le> n \<Longrightarrow> length buf' = length buf \<Longrightarrow> take (length l) buf' = l \<Longrightarrow>
    \<exists>buf'' s' q'. readline_loop hlt max_len (length l) buf' s = Some (buf'', s') \<and> length buf'' = length buf \<and>
      take (length l' + 1) buf'' = l' @ [CHR 0x00] \<and> kbd_rep s' q' \<and> rest = q' @ future s'"
proof (induction "length (q @ future s)" arbitrary: q s l buf' rule: less_induct)
  case less
  have n': "int (length l) < max_len - 1 \<longleftrightarrow> length l < n" using n by linarith
  show ?case
  proof (cases "n \<le> length l")
    case True
    then have l: "length l = n" using less.prems(4) by simp
    have "line_of n l (q @ future s) = Some (l, q @ future s)" using True by (subst line_of.simps) simp
    then have "l' = l" "rest = q @ future s" using less.prems(3) by simp_all
    moreover have "readline_loop hlt max_len (length l) buf' s = Some (buf'[length l := CHR 0x00], s)"
      using n' True by (subst readline_loop.simps) simp
    ultimately show ?thesis using less.prems(1,5,6) l len by (auto simp: take_Suc_conv_app_nth)
  next
    case False
    then have lt: "int (length l) < max_len - 1" using n' by simp
    have "q @ future s \<noteq> []" using less.prems(3) False by (auto simp: line_of.simps)
    then have ne: "q \<noteq> [] \<or> future s \<noteq> []" by auto
    obtain c q' s' where cq: "q @ future s = c # q' @ future s'" and rep: "kbd_rep s' q'"
      and run: "readline_loop hlt max_len (length l) buf' s =
        (if c = CHR 0x0A then Some (buf'[length l := CHR 0x00], s')
         else if c = CHR 0x08 then readline_loop hlt max_len (length l - 1) buf' s'
         else readline_loop hlt max_len (length l + 1) (buf'[length l := c]) s')"
      using readline_typed [OF ty less.prems(1) ne less.prems(2) lt] by blast
    have spec: "line_of n l (c # q' @ future s') =
        (if c = CHR 0x0A then Some (l, q' @ future s')
         else if c = CHR 0x08 then line_of n (butlast l) (q' @ future s')
         else line_of n (l @ [c]) (q' @ future s'))"
      using False by (subst line_of.simps) simp
    have shorter: "length (q' @ future s') < length (q @ future s)"
      and typed: "\<forall>c \<in> set (q' @ future s'). typed c" using less.prems(2) cq by simp_all
    note IH = less.hyps [OF shorter rep typed]
    have room: "length l < length buf'" using False len less.prems(5) by simp
    consider (nl) "c = CHR 0x0A" | (bs) "c = CHR 0x08" | (other) "c \<noteq> CHR 0x0A" "c \<noteq> CHR 0x08" by blast
    then show ?thesis
    proof cases
      case nl
      then have "l' = l" "rest = q' @ future s'" using less.prems(3) spec cq by simp_all
      then show ?thesis using run nl rep room less.prems(5,6) by (auto simp: take_Suc_conv_app_nth)
    next
      case bs
      then have "line_of n (butlast l) (q' @ future s') = Some (l', rest)" using less.prems(3) spec cq by simp
      moreover have "take (length (butlast l)) buf' = butlast l"
        using less.prems(6) by (metis butlast_take diff_le_self length_butlast less.prems(5) room less_imp_le_nat take_all_iff)
      ultimately show ?thesis using IH [of "butlast l" buf'] run bs less.prems(4,5) by simp
    next
      case other
      then have "line_of n (l @ [c]) (q' @ future s') = Some (l', rest)" using less.prems(3) spec cq by simp
      moreover have "take (length (l @ [c])) (buf'[length l := c]) = l @ [c]"
        using room less.prems(6) by (simp add: take_Suc_conv_app_nth)
      ultimately show ?thesis using IH [of "l @ [c]" "buf'[length l := c]"] run other less.prems(5) False by simp
    qed
  qed
qed

text \<open>What every interrupt keeps, reading a line keeps.\<close>

lemma readline_loop_keeps:
  assumes "readline_loop hlt n pos buf s = Some r"
  shows "(\<forall>s. P s \<longrightarrow> P (hlt s)) \<longrightarrow> (\<forall>s. P s \<longrightarrow> P (snd (keyboard_getchar s))) \<longrightarrow> P s \<longrightarrow> P (snd r)"
  by (rule readline_loop.raw_induct [OF _ assms])
    (fastforce simp: case_prod_beta Let_def split: if_splits)

section \<open>States for the witnesses\<close>

definition boot_kbd :: kbd_st where
  "boot_kbd = sched_st.extend boot_sched (kbd_st.fields 0 (nul 256) 0 0 0 True)"

lemma boot_kbd_fields: "kbd_rep boot_kbd []" "modifiers boot_kbd = 0" "input_enabled boot_kbd"
  by (simp_all add: kbd_rep_def boot_kbd_def sched_st.extend_def kbd_st.fields_def nul_def)

text \<open>A person who types what the last field of the state says, one key per halt.\<close>

definition next_key :: "string kbd_st_scheme \<Rightarrow> string kbd_st_scheme" where
  "next_key s = keyboard_add_to_buffer (hd (kbd_st.more s)) (kbd_st.more_update tl s)"

lemma typist_next_key: "typist kbd_st.more next_key"
proof -
  have more: "kbd_st.more (keyboard_add_to_buffer c s) = kbd_st.more s" for c and s :: "string kbd_st_scheme"
    by (simp add: keyboard_add_to_buffer_def)
  have "\<exists>xs. xs \<noteq> [] \<and> kbd_st.more s = xs @ kbd_st.more (next_key s) \<and> kbd_rep (next_key s) xs"
    if "kbd_rep s []" "kbd_st.more s \<noteq> []" for s
  proof -
    have "kbd_rep (kbd_st.more_update tl s) []" using that(1) by (simp add: kbd_rep_def)
    from add_rep [OF this, of "hd (kbd_st.more s)"] have "kbd_rep (next_key s) [hd (kbd_st.more s)]"
      by (simp add: next_key_def)
    then show ?thesis using that(2) by (intro exI [of _ "[hd (kbd_st.more s)]"]) (simp add: next_key_def more)
  qed
  moreover have "kbd_st.more (snd (keyboard_getchar s)) = kbd_st.more s" for s :: "string kbd_st_scheme"
    by (simp add: keyboard_getchar_def Let_def)
  ultimately show ?thesis by (simp add: typist_def)
qed

text \<open>How many scancodes have been read, and how many interrupts acknowledged to the first controller.\<close>

definition key_reads :: "io_event list \<Rightarrow> nat" where
  "key_reads log = length (filter (\<lambda>e. \<exists>v. e = In KB_DATA_PORT v) log)"

definition irq_count :: "io_event list \<Rightarrow> nat" where
  "irq_count log = length (filter (\<lambda>e. e = Out PIC1_COMMAND 0x20) log)"

section \<open>Properties\<close>

text \<open>C33 (refinement): the ring buffer is a queue of 255 characters: what is added to it while there is
  room is read in the same order behind what was there, and then it is empty; when it is full, a
  character is dropped and nothing else changes.\<close>

theorem key_buffer_order:
  assumes "kbd_rep s q" "length q + length xs \<le> 255"
  shows "fst (take_n keyboard_getchar (length q + length xs) (put_all keyboard_add_to_buffer xs s)) = q @ xs \<and>
    kbd_rep (snd (take_n keyboard_getchar (length q + length xs) (put_all keyboard_add_to_buffer xs s))) [] \<and>
    (length q = 255 \<longrightarrow> keyboard_add_to_buffer c s = s)"
  using key_queue.order_kept [OF assms(1) can_all_room [OF assms(2)]] add_full [OF assms(1)] by simp

theorem key_buffer_order_witness:
  "fst (take_n keyboard_getchar 3 (put_all keyboard_add_to_buffer ''abc'' boot_kbd)) = ''abc''"
  using key_buffer_order [OF boot_kbd_fields(1), of "''abc''"] by (simp add: eval_nat_numeral)



text \<open>Fact (functional): a letter key types the capital letter exactly when one of Shift and Caps Lock is
  in force, but not both.\<close>

theorem letter_case:
  assumes "unat sc \<in> set letter_codes"
  shows "key_ascii m sc = (if (m AND KB_MOD_SHIFT \<noteq> 0) = (m AND KB_MOD_CAPS \<noteq> 0)
    then scancode_to_ascii ! unat sc else upper (scancode_to_ascii ! unat sc))"
  by (rule key_ascii_letter [OF assms])

theorem letter_case_witness: "key_ascii KB_MOD_SHIFT 0x10 = CHR ''Q'' \<and> key_ascii 9 0x10 = CHR ''q''"
proof -
  have "(9 :: u8) AND 1 \<noteq> 0" "(9 :: u8) AND 8 \<noteq> 0" "(1 :: u8) AND 8 = 0" "unat (0x10 :: u8) \<in> set letter_codes"
    "scancode_to_ascii ! 0x10 = CHR ''q''" "upper (CHR ''q'') = CHR ''Q''"
    by (simp_all add: letter_codes_def scancode_to_ascii_def nul_def) code_simp
  then show ?thesis
    using letter_case [of "0x10" KB_MOD_SHIFT] letter_case [of "0x10" 9] by (simp add: kb_codes)
qed

text \<open>C11 (refinement, liveness): reading a line returns as soon as the input, what is buffered and what
  arrives while the processor halts, ends the line or fills the caller's array but for one place; the
  array then holds the edited line and its end mark, and the rest of the input is left to be read.\<close>

theorem readline_returns_line:
  assumes "typist future hlt" "int n = max_len - 1" "n < length buf"
    and "kbd_rep s q" "\<forall>c \<in> set (q @ future s). typed c" "line_of n [] (q @ future s) = Some (l, rest)"
  shows "\<exists>buf' s' q'. console_readline hlt buf max_len s = Some (buf', s') \<and> length buf' = length buf \<and>
    take (length l + 1) buf' = l @ [CHR 0x00] \<and> kbd_rep s' q' \<and> rest = q' @ future s'"
  using readline_loop_line [OF assms(1,2,3) assms(4,5,6), of buf] by (simp add: console_readline_def)

theorem readline_returns_line_witness:
  "\<exists>buf' s'. console_readline next_key (nul 80) 80 (kbd_st.extend boot_kbd (''ab'' @ [CHR 0x08] @ ''c'' @ [CHR 0x0A])) =
      Some (buf', s') \<and> take 3 buf' = ''ac'' @ [CHR 0x00]"
proof -
  define s where "s = kbd_st.extend boot_kbd (''ab'' @ [CHR 0x08] @ ''c'' @ [CHR 0x0A])"
  have rep: "kbd_rep s []" using boot_kbd_fields(1) by (simp add: s_def kbd_st.extend_def kbd_rep_def)
  have fut: "kbd_st.more s = ''ab'' @ [CHR 0x08] @ ''c'' @ [CHR 0x0A]" by (simp add: s_def kbd_st.extend_def)
  have "\<forall>c \<in> set ([] @ kbd_st.more s). typed c" by (simp add: fut typed_def less_eq_char_def)
  moreover have "line_of 79 [] ([] @ kbd_st.more s) = Some (''ac'', [])"
    unfolding fut by (simp add: line_of.simps)
  moreover have "int 79 = 80 - 1" "79 < length (nul 80)" by (simp_all add: nul_def)
  ultimately show ?thesis
    using readline_returns_line [OF typist_next_key _ _ rep, of 79 80 "nul 80" "''ac''" "[]"]
    by (auto simp: s_def eval_nat_numeral)
qed

end
