(* ===== verification/Interrupts.thy ===== *)
theory Interrupts
  imports Keyboard_Theorems
begin

text \<open>
  What the kernel does on an interrupt: the assembly stubs of \<^verbatim>\<open>src/kernel/idt_handlers.asm\<close>, the
  dispatcher and the panic screen of \<^verbatim>\<open>panic.c\<close>, and the timer's handler from \<^verbatim>\<open>timer.c\<close>. A
  stub starts where the processor has pushed its part of the frame and ends before \<^verbatim>\<open>iret\<close>; C
  code's own use of the stack is not modelled.
\<close>

section \<open>The stack\<close>

definition push32 :: "u32 \<Rightarrow> 'a desc_st_scheme \<Rightarrow> 'a desc_st_scheme" where
  "push32 v s =
     (let esp = r_esp (cpu s) - 4
      in s\<lparr>cpu := (cpu s)\<lparr>r_esp := esp\<rparr>, mem := write32 (mem s) esp v\<rparr>)"

definition drop_stack :: "u32 \<Rightarrow> 'a desc_st_scheme \<Rightarrow> 'a desc_st_scheme" where
  "drop_stack n s = s\<lparr>cpu := (cpu s)\<lparr>r_esp := r_esp (cpu s) + n\<rparr>\<rparr>"

definition stack_word :: "u32 \<Rightarrow> 'a desc_st_scheme \<Rightarrow> u32" where
  "stack_word n s = read32 (mem s) (r_esp (cpu s) + n)"

text \<open>\<^verbatim>\<open>pusha\<close> pushes the stack pointer it found; \<^verbatim>\<open>popa\<close> skips it.\<close>

definition pusha :: "'a desc_st_scheme \<Rightarrow> 'a desc_st_scheme" where
  "pusha s =
     (let c = cpu s
      in push32 (r_edi c) (push32 (r_esi c) (push32 (r_ebp c) (push32 (r_esp c)
           (push32 (r_ebx c) (push32 (r_edx c) (push32 (r_ecx c) (push32 (r_eax c) s))))))))"

definition popa :: "'a desc_st_scheme \<Rightarrow> 'a desc_st_scheme" where
  "popa s = drop_stack 32 (s\<lparr>cpu := (cpu s)\<lparr>r_edi := stack_word 0 s, r_esi := stack_word 4 s,
     r_ebp := stack_word 8 s, r_ebx := stack_word 16 s, r_edx := stack_word 20 s,
     r_ecx := stack_word 24 s, r_eax := stack_word 28 s\<rparr>\<rparr>)"

definition load_data_segments :: "u32 \<Rightarrow> 'a desc_st_scheme \<Rightarrow> 'a desc_st_scheme" where
  "load_data_segments sel s = s\<lparr>cpu := (cpu s)\<lparr>r_ds := sel, r_es := sel, r_fs := sel, r_gs := sel\<rparr>\<rparr>"

section \<open>The frame\<close>

text \<open>The structure \<^verbatim>\<open>registers_t\<close> of \<^verbatim>\<open>panic.c\<close>, which is not the one of \<^verbatim>\<open>process.h\<close>.\<close>

record trap_frame =
  f_ds :: u32
  f_edi :: u32
  f_esi :: u32
  f_ebp :: u32
  f_esp :: u32
  f_ebx :: u32
  f_edx :: u32
  f_ecx :: u32
  f_eax :: u32
  f_int_no :: u32
  f_err_code :: u32
  f_eip :: u32
  f_cs :: u32
  f_eflags :: u32
  f_useresp :: u32
  f_ss :: u32

definition frame_at :: "bytemem \<Rightarrow> u32 \<Rightarrow> trap_frame" where
  "frame_at m a = \<lparr>f_ds = read32 m a, f_edi = read32 m (a + 4), f_esi = read32 m (a + 8),
     f_ebp = read32 m (a + 12), f_esp = read32 m (a + 16), f_ebx = read32 m (a + 20),
     f_edx = read32 m (a + 24), f_ecx = read32 m (a + 28), f_eax = read32 m (a + 32),
     f_int_no = read32 m (a + 36), f_err_code = read32 m (a + 40), f_eip = read32 m (a + 44),
     f_cs = read32 m (a + 48), f_eflags = read32 m (a + 52), f_useresp = read32 m (a + 56),
     f_ss = read32 m (a + 60)\<rparr>"

section \<open>The panic screen\<close>

definition exception_messages :: "string list" where
  "exception_messages =
    [''Division by Zero'', ''Debug'', ''Non-Maskable Interrupt'', ''Breakpoint'', ''Overflow'',
     ''Bound Range Exceeded'', ''Invalid Opcode'', ''Device Not Available'', ''Double Fault'',
     ''Coprocessor Segment Overrun (legacy)'', ''Invalid TSS'', ''Segment Not Present'',
     ''Stack-Segment Fault'', ''General Protection Fault'', ''Page Fault'', ''Reserved'',
     ''x87 Floating-Point Exception'', ''Alignment Check'', ''Machine Check'',
     ''SIMD Floating-Point Exception'', ''Virtualization Exception''] @
    replicate 9 ''Reserved'' @ [''Security Exception'', ''Reserved'']"

definition PAGE_FAULT_PRESENT :: u32 where "PAGE_FAULT_PRESENT = 0x01"
definition PAGE_FAULT_WRITE :: u32 where "PAGE_FAULT_WRITE = 0x02"
definition PAGE_FAULT_USER :: u32 where "PAGE_FAULT_USER = 0x04"
definition PAGE_FAULT_RESERVED :: u32 where "PAGE_FAULT_RESERVED = 0x08"
definition PAGE_FAULT_FETCH :: u32 where "PAGE_FAULT_FETCH = 0x10"

definition set_color :: "vga_color \<Rightarrow> vga_color \<Rightarrow> 'a kout_scheme \<Rightarrow> 'a kout_scheme" where
  "set_color fg bg s = s\<lparr>con := console_set_color (vga_entry_color fg bg) (con s)\<rparr>"

text \<open>Interrupts off and stopped: nothing of the kernel runs after this.\<close>

definition halt_system :: "'a paging_st_scheme \<Rightarrow> 'a paging_st_scheme" where
  "halt_system s = s\<lparr>interrupt_flag := False, halted := True\<rparr>"

definition handle_page_fault :: "u32 \<Rightarrow> trap_frame \<Rightarrow> 'a kout_scheme \<Rightarrow> 'a kout_scheme" where
  "handle_page_fault cr2 regs s =
     (let error_code = f_err_code regs;
          s = kprintk (''Page Fault Details:'' @ [CHR 0x0A]) [] s;
          s = kprintk (''  Faulting Address: 0x%08X'' @ [CHR 0x0A]) [VInt cr2] s;
          s = kprintk ''  Error Code: 0x%X ('' [VInt error_code] s;
          s = (if error_code AND PAGE_FAULT_PRESENT \<noteq> 0 then kprintk ''protection violation'' [] s
               else kprintk ''page not present'' [] s);
          s = (if error_code AND PAGE_FAULT_WRITE \<noteq> 0 then kprintk '', write'' [] s
               else kprintk '', read'' [] s);
          s = (if error_code AND PAGE_FAULT_USER \<noteq> 0 then kprintk '', user mode'' [] s
               else kprintk '', kernel mode'' [] s);
          s = (if error_code AND PAGE_FAULT_RESERVED \<noteq> 0 then kprintk '', reserved bits set'' [] s else s);
          s = (if error_code AND PAGE_FAULT_FETCH \<noteq> 0 then kprintk '', instruction fetch'' [] s else s)
      in kprintk ('')'' @ [CHR 0x0A]) [] s)"

definition register_dump :: "trap_frame \<Rightarrow> 'a kout_scheme \<Rightarrow> 'a kout_scheme" where
  "register_dump regs s =
     (let s = kprintk ([CHR 0x0A] @ ''Register Dump:'' @ [CHR 0x0A]) [] s;
          s = kprintk (''  EAX: 0x%08X  EBX: 0x%08X  ECX: 0x%08X  EDX: 0x%08X'' @ [CHR 0x0A])
                [VInt (f_eax regs), VInt (f_ebx regs), VInt (f_ecx regs), VInt (f_edx regs)] s;
          s = kprintk (''  ESI: 0x%08X  EDI: 0x%08X  EBP: 0x%08X  ESP: 0x%08X'' @ [CHR 0x0A])
                [VInt (f_esi regs), VInt (f_edi regs), VInt (f_ebp regs), VInt (f_esp regs)] s;
          s = kprintk (''  EIP: 0x%08X  EFLAGS: 0x%08X'' @ [CHR 0x0A])
                [VInt (f_eip regs), VInt (f_eflags regs)] s
      in kprintk (''  CS: 0x%04X  DS: 0x%04X  SS: 0x%04X'' @ [CHR 0x0A])
           [VInt (f_cs regs AND 0xFFFF), VInt (f_ds regs AND 0xFFFF), VInt (f_ss regs AND 0xFFFF)] s)"

fun stack_trace :: "nat list \<Rightarrow> u32 \<Rightarrow> 'a memory_st_scheme \<Rightarrow> 'a memory_st_scheme" where
  "stack_trace [] stack s = s"
| "stack_trace (i # is) stack s =
     (if stack < 0x8FFFFFFF
      then stack_trace is stack
             (kprintk (''  [ESP+%02d]: 0x%08X'' @ [CHR 0x0A])
               [VInt (of_nat (i * 4)), VInt (read32 (mem s) (stack + of_nat (4 * i)))] s)
      else s)"

definition isr_handler :: "u32 \<Rightarrow> u32 \<Rightarrow> 'a paging_st_scheme \<Rightarrow> 'a paging_st_scheme" where
  "isr_handler cr2 regs_at s =
     (let regs = frame_at (mem s) regs_at;
          int_no = f_int_no regs;
          s = s\<lparr>con := console_clear (con s)\<rparr>;
          s = set_color VGA_COLOR_WHITE VGA_COLOR_RED s;
          s = kprintk (''*** KERNEL PANIC ***'' @ [CHR 0x0A] @ [CHR 0x0A]) [] s;
          s = set_color VGA_COLOR_LIGHT_RED VGA_COLOR_BLACK s;
          s = (if int_no < 32
               then
                 (let s = kprintk (''CPU Exception #%d: %s'' @ [CHR 0x0A])
                            [VInt int_no, VStr (Some (exception_messages ! unat int_no))] s;
                      s = (if f_err_code regs \<noteq> 0
                           then kprintk (''Error Code: 0x%X'' @ [CHR 0x0A]) [VInt (f_err_code regs)] s else s)
                  in if int_no = 14 then handle_page_fault cr2 regs s else s)
               else kprintk (''Unexpected Interrupt #%d'' @ [CHR 0x0A]) [VInt int_no] s);
          s = set_color VGA_COLOR_WHITE VGA_COLOR_BLACK s;
          s = register_dump regs s;
          s = kprintk ([CHR 0x0A] @ ''Stack Trace (top 8 words):'' @ [CHR 0x0A]) [] s;
          s = stack_trace [0..<8] (f_esp regs) s;
          s = set_color VGA_COLOR_LIGHT_BROWN VGA_COLOR_BLACK s;
          s = kprintk ([CHR 0x0A] @ ''System halted. Reset required.'' @ [CHR 0x0A]) [] s
      in halt_system s)"

definition kernel_panic :: "string \<Rightarrow> 'a paging_st_scheme \<Rightarrow> 'a paging_st_scheme" where
  "kernel_panic message s =
     (let s = s\<lparr>con := console_clear (con s)\<rparr>;
          s = set_color VGA_COLOR_WHITE VGA_COLOR_RED s;
          s = kprintk (''*** KERNEL PANIC ***'' @ [CHR 0x0A] @ [CHR 0x0A]) [] s;
          s = set_color VGA_COLOR_LIGHT_RED VGA_COLOR_BLACK s;
          s = kprintk (''Panic: %s'' @ [CHR 0x0A] @ [CHR 0x0A]) [VStr (Some message)] s;
          s = set_color VGA_COLOR_LIGHT_BROWN VGA_COLOR_BLACK s;
          s = kprintk (''System halted. Reset required.'' @ [CHR 0x0A]) [] s
      in halt_system s)"

section \<open>Hardware interrupts\<close>

text \<open>After a switch the acknowledgement waits until the interrupted process is resumed.\<close>

definition timer_handler :: "'a sched_st_scheme \<Rightarrow> u32 + bool \<times> 'a sched_st_scheme" where
  "timer_handler s =
     (case scheduler_tick (s\<lparr>system_ticks := system_ticks s + 1\<rparr>) of
        Inl vector \<Rightarrow> Inl vector
      | Inr (True, s) \<Rightarrow> Inr (True, s)
      | Inr (False, s) \<Rightarrow> Inr (False, pic_send_eoi 0 s))"

definition irq_handler :: "device \<Rightarrow> u32 \<Rightarrow> 'a kbd_st_scheme \<Rightarrow> u32 + bool \<times> 'a kbd_st_scheme" where
  "irq_handler dev regs_at s =
     (let int_no = f_int_no (frame_at (mem s) regs_at)
      in if int_no < 32 \<or> int_no > 47
         then Inr (False, kprintk (''[IRQ] Invalid interrupt number: %d (expected 32-47)'' @ [CHR 0x0A]) [VInt int_no] s)
         else if int_no = 32 then timer_handler s
         else if int_no = 33 then Inr (False, pic_send_eoi 1 (keyboard_handler dev s))
         else Inr (False, pic_send_eoi (ucast (int_no - 32))
                (kprintk (''[IRQ] Unhandled hardware interrupt: IRQ %d'' @ [CHR 0x0A]) [VInt (int_no - 32)] s)))"

text \<open>The stub of line \<open>number - 32\<close>, up to the call of the handler and after it.\<close>

definition irq_stub_entry :: "u32 \<Rightarrow> 'a desc_st_scheme \<Rightarrow> 'a desc_st_scheme" where
  "irq_stub_entry number s =
     (let s = s\<lparr>interrupt_flag := False\<rparr>;
          s = pusha (push32 number (push32 0 s));
          s = push32 ((r_eax (cpu s) AND 0xFFFF0000) OR (r_ds (cpu s) AND 0xFFFF)) s
      in load_data_segments 0x10 s)"

definition irq_stub_exit :: "'a desc_st_scheme \<Rightarrow> 'a desc_st_scheme" where
  "irq_stub_exit s =
     (let ds = stack_word 0 s AND 0xFFFF;
          s = load_data_segments ds (drop_stack 4 s);
          s = drop_stack 8 (popa s)
      in s\<lparr>interrupt_flag := True\<rparr>)"

definition irq_stub :: "device \<Rightarrow> u32 \<Rightarrow> 'a kbd_st_scheme \<Rightarrow> u32 + bool \<times> 'a kbd_st_scheme" where
  "irq_stub dev number s =
     (let s = irq_stub_entry number s;
          regs_at = r_esp (cpu s)
      in case irq_handler dev regs_at (push32 regs_at s) of
        Inl vector \<Rightarrow> Inl vector
      | Inr (True, s) \<Rightarrow> Inr (True, s)
      | Inr (False, s) \<Rightarrow> Inr (False, irq_stub_exit (drop_stack 4 s)))"

end
