(* ===== verification/Interrupts_Theorems.thy ===== *)
theory Interrupts_Theorems
  imports Interrupts
begin

text \<open>
The interrupt path's guarantees: the frame a stub builds is the one its handler reads, a key press
  is invisible to the code it interrupts, who is acknowledged when, and what the panic screen shows.
\<close>

section \<open>The frame on the stack\<close>

lemma apart_below:
  assumes "unat k \<le> unat e" "unat l \<le> unat e" "4 \<le> unat k" "4 \<le> unat l" "unat k + 4 \<le> unat l \<or> unat l + 4 \<le> unat k"
  shows "apart 4 (e - k) 4 (e - l)"
proof -
  have "unat (e - k) = unat e - unat k" "unat (e - l) = unat e - unat l"
    using assms by (simp_all add: unat_sub word_le_nat_alt)
  moreover have "unat e < 2 ^ 32" by (rule unat_lt32)
  ultimately show ?thesis using assms by (auto simp: apart_def)
qed

lemma apart_above:
  assumes "unat k \<le> unat e" "4 \<le> unat k" "unat e + unat l + 4 \<le> 2 ^ 32"
  shows "apart 4 (e - k) 4 (e + l)"
proof -
  have "unat (e - k) = unat e - unat k" using assms by (simp add: unat_sub word_le_nat_alt)
  moreover have "unat (e + l) = unat e + unat l" using assms by (simp add: unat_plus_no_wrap)
  ultimately show ?thesis using assms by (auto simp: apart_def)
qed

lemma irq_entry_effect:
  fixes s :: "'a desc_st_scheme"
  defines "c \<equiv> cpu s" and "e \<equiv> r_esp (cpu s)"
  shows "mem (irq_stub_entry number s) =
      write32 (write32 (write32 (write32 (write32 (write32 (write32 (write32 (write32 (write32 (write32 (mem s)
        (e - 4) 0) (e - 8) number) (e - 12) (r_eax c)) (e - 16) (r_ecx c)) (e - 20) (r_edx c)) (e - 24) (r_ebx c))
        (e - 28) (e - 8)) (e - 32) (r_ebp c)) (e - 36) (r_esi c)) (e - 40) (r_edi c))
        (e - 44) ((r_eax c AND 0xFFFF0000) OR (r_ds c AND 0xFFFF))"
    "cpu (irq_stub_entry number s) = c\<lparr>r_esp := e - 44, r_ds := 0x10, r_es := 0x10, r_fs := 0x10, r_gs := 0x10\<rparr>"
  by (simp_all add: irq_stub_entry_def pusha_def push32_def load_data_segments_def Let_def c_def e_def)

lemma above_frame:
  "(e :: u32) - 44 + 44 = e" "e - 44 + 48 = e + 4" "e - 44 + 52 = e + 8" "e - 44 + 56 = e + 12" "e - 44 + 60 = e + 16"
  by simp_all

lemma irq_entry_frame:
  fixes s :: "'a desc_st_scheme"
  assumes e: "64 \<le> unat (r_esp (cpu s))" "unat (r_esp (cpu s)) + 64 \<le> 2 ^ 32"
  defines "c \<equiv> cpu s" and "e \<equiv> r_esp (cpu s)"
  shows "frame_at (mem (irq_stub_entry number s)) (e - 44) =
    \<lparr>f_ds = (r_eax c AND 0xFFFF0000) OR (r_ds c AND 0xFFFF), f_edi = r_edi c, f_esi = r_esi c, f_ebp = r_ebp c,
     f_esp = e - 8, f_ebx = r_ebx c, f_edx = r_edx c, f_ecx = r_ecx c, f_eax = r_eax c,
     f_int_no = number, f_err_code = 0, f_eip = read32 (mem s) e, f_cs = read32 (mem s) (e + 4),
     f_eflags = read32 (mem s) (e + 8), f_useresp = read32 (mem s) (e + 12), f_ss = read32 (mem s) (e + 16)\<rparr>"
proof -
  have b: "64 \<le> unat e" "unat e + 64 \<le> 2 ^ 32" using e by (simp_all add: e_def)
  note below = apart_below [of _ e] and above = apart_above [of _ e]
  have above0: "apart 4 (e - k) 4 e" if "unat k \<le> unat e" "4 \<le> unat k" for k
    using above [of k 0] that b by simp
  have "r_esp c = e" by (simp add: c_def e_def)
  then show ?thesis
    using b by (simp add: above_frame frame_at_def irq_entry_effect c_def [symmetric] below above above0)
qed

lemma kout_cpu [simp]:
  "mem (kprintk fmt args s) = mem s" "cpu (kprintk fmt args s) = cpu s"
  by (simp_all add: kout_defs)

lemma keyboard_frame [simp]:
  "mem (keyboard_handler dev s) = mem s" "cpu (keyboard_handler dev s) = cpu s"
  "mem (pic_send_eoi n s) = mem s" "cpu (pic_send_eoi n s) = cpu s"
proof -
  have add: "mem (keyboard_add_to_buffer c s) = mem s" "cpu (keyboard_add_to_buffer c s) = cpu s"
    for c and s :: "'a kbd_st_scheme" by (simp_all add: keyboard_add_to_buffer_def)
  have rel: "mem (key_release k s) = mem s" "cpu (key_release k s) = cpu s" "mem (function_key k s) = mem s"
    "cpu (function_key k s) = cpu s" "mem (accept_char c s) = mem s" "cpu (accept_char c s) = cpu s"
    "mem (snd (inb dev p s)) = mem s" "cpu (snd (inb dev p s)) = cpu s" for k c p and s :: "'a kbd_st_scheme"
    by (simp_all add: key_release_def function_key_def accept_char_cases add inb_def Let_def)
  show "mem (keyboard_handler dev s) = mem s" "cpu (keyboard_handler dev s) = cpu s"
    by (simp_all add: keyboard_handler_def case_prod_beta Let_def rel split: option.split)
  show "mem (pic_send_eoi n s) = mem s" "cpu (pic_send_eoi n s) = cpu s"
    by (simp_all add: pic_send_eoi_def outb_def)
qed

lemma irq_exit_effect:
  fixes s :: "'a desc_st_scheme"
  shows "cpu (irq_stub_exit s) = (cpu s)\<lparr>r_ds := stack_word 0 s AND 0xFFFF, r_es := stack_word 0 s AND 0xFFFF,
    r_fs := stack_word 0 s AND 0xFFFF, r_gs := stack_word 0 s AND 0xFFFF, r_edi := stack_word 4 s,
    r_esi := stack_word 8 s, r_ebp := stack_word 12 s, r_ebx := stack_word 20 s, r_edx := stack_word 24 s,
    r_ecx := stack_word 28 s, r_eax := stack_word 32 s, r_esp := r_esp (cpu s) + 44\<rparr>"
    "mem (irq_stub_exit s) = mem s" "interrupt_flag (irq_stub_exit s)"
  by (simp_all add: irq_stub_exit_def popa_def drop_stack_def load_data_segments_def stack_word_def Let_def add.assoc)

lemma frame_push:
  assumes "64 \<le> unat e" "unat e + 64 \<le> 2 ^ 32"
  shows "frame_at (write32 m (e - 48) v) (e - 44) = frame_at m (e - 44)"
proof -
  have "apart 4 (e - 48) 4 (e + l)" if "unat l \<le> 60" for l by (rule apart_above) (use that assms in simp_all)
  moreover have "apart 4 (e - 48) 4 (e - k)" if "4 \<le> unat k" "unat k \<le> 44" for k
    by (rule apart_below) (use that assms in simp_all)
  moreover have "apart 4 (e - 48) 4 e" by (rule apart_above [of _ _ 0, simplified]) (use assms in simp_all)
  ultimately show ?thesis by (simp add: above_frame frame_at_def)
qed

text \<open>A handler that keeps memory and registers is invisible to what it interrupts.\<close>

lemma irq_stub_returns:
  fixes s :: "'a kbd_st_scheme"
  assumes e: "64 \<le> unat (r_esp (cpu s))" "unat (r_esp (cpu s)) + 64 \<le> 2 ^ 32"
  defines "b \<equiv> r_esp (cpu s) - 44"
  assumes h: "irq_handler dev b (push32 b (irq_stub_entry number s)) = Inr (False, t)"
    and keep: "mem t = mem (push32 b (irq_stub_entry number s))" "cpu t = cpu (push32 b (irq_stub_entry number s))"
  obtains u where "irq_stub dev number s = Inr (False, u)"
    "cpu u = (cpu s)\<lparr>r_ds := r_ds (cpu s) AND 0xFFFF, r_es := r_ds (cpu s) AND 0xFFFF,
       r_fs := r_ds (cpu s) AND 0xFFFF, r_gs := r_ds (cpu s) AND 0xFFFF\<rparr>" "interrupt_flag u" "mem u = mem t"
    "same_ring t u" "io_log u = io_log t" "u = t\<lparr>cpu := cpu u, interrupt_flag := True\<rparr>"
proof
  define v where "v = drop_stack 4 t"
  define e where "e = r_esp (cpu s)"
  have b: "64 \<le> unat e" "unat e + 64 \<le> 2 ^ 32" using e by (simp_all add: e_def)
  have be: "r_esp (cpu (irq_stub_entry number s)) = b" by (simp add: irq_entry_effect b_def)
  show "irq_stub dev number s = Inr (False, irq_stub_exit v)"
    using h by (simp add: irq_stub_def Let_def be v_def)
  have m: "mem t = write32 (mem (irq_stub_entry number s)) (e - 48) b"
    using keep(1) by (simp add: push32_def be b_def Let_def e_def irq_entry_effect)
  have fr: "frame_at (mem t) b = frame_at (mem (irq_stub_entry number s)) b"
    unfolding m b_def e_def by (rule frame_push [OF e])
  have "r_esp (cpu v) = b" "mem v = mem t"
    using keep(2) be by (simp_all add: v_def drop_stack_def push32_def Let_def)
  then have "stack_word 0 v = f_ds (frame_at (mem t) b)" "stack_word 4 v = f_edi (frame_at (mem t) b)"
    "stack_word 8 v = f_esi (frame_at (mem t) b)" "stack_word 12 v = f_ebp (frame_at (mem t) b)"
    "stack_word 20 v = f_ebx (frame_at (mem t) b)" "stack_word 24 v = f_edx (frame_at (mem t) b)"
    "stack_word 28 v = f_ecx (frame_at (mem t) b)" "stack_word 32 v = f_eax (frame_at (mem t) b)"
    by (simp_all add: stack_word_def frame_at_def)
  note w = this [unfolded fr irq_entry_frame [OF e, folded b_def]]
  have "cpu v = (cpu s)\<lparr>r_esp := b, r_ds := 0x10, r_es := 0x10, r_fs := 0x10, r_gs := 0x10\<rparr>"
    using keep(2) by (simp add: v_def drop_stack_def push32_def Let_def irq_entry_effect b_def)
  then show "cpu (irq_stub_exit v) = (cpu s)\<lparr>r_ds := r_ds (cpu s) AND 0xFFFF, r_es := r_ds (cpu s) AND 0xFFFF,
       r_fs := r_ds (cpu s) AND 0xFFFF, r_gs := r_ds (cpu s) AND 0xFFFF\<rparr>"
    using w by (simp add: irq_exit_effect high_low_word b_def)
  show "interrupt_flag (irq_stub_exit v)" "mem (irq_stub_exit v) = mem t"
    by (simp_all add: irq_exit_effect v_def drop_stack_def)
  show "same_ring t (irq_stub_exit v)" "io_log (irq_stub_exit v) = io_log t"
    "irq_stub_exit v = t\<lparr>cpu := cpu (irq_stub_exit v), interrupt_flag := True\<rparr>"
    by (simp_all add: same_ring_def irq_stub_exit_def popa_def drop_stack_def load_data_segments_def v_def Let_def)
qed

section \<open>Port traffic\<close>

lemma io_log_sched [simp]:
  "io_log (kprintk fmt args s) = io_log s" "io_log (upd_process i f s) = io_log s"
  "io_log (scheduler_add_process p s) = io_log s" "io_log (scheduler_remove_process p s) = io_log s"
  "io_log (snd (scheduler_schedule s)) = io_log s" "io_log (log_switch old new s) = io_log s"
proof -
  show k: "io_log (kprintk fmt args s) = io_log s" "io_log (upd_process i f s) = io_log s"
    for fmt args i f and s :: "'b sched_st_scheme"
    by (simp_all add: kout_defs upd_process_def)
  show "io_log (scheduler_add_process p s) = io_log s"
    by (simp add: scheduler_add_process_def Let_def k split: option.split)
  show r: "io_log (scheduler_remove_process p s) = io_log s" for p and s :: "'a sched_st_scheme"
    by (simp add: scheduler_remove_process_def Let_def k split: option.split)
  show "io_log (snd (scheduler_schedule s)) = io_log s"
    by (simp add: scheduler_schedule_def Let_def k r split: option.split)
  show "io_log (log_switch old new s) = io_log s" by (simp add: log_switch_def Let_def k)
qed

lemma io_log_switch: "context_switch old new s = Inr t \<Longrightarrow> io_log t = io_log s"
proof -
  have "io_log (save_context old new s) = io_log s" by (simp add: save_context_def Let_def upd_process_def)
  then show "context_switch old new s = Inr t \<Longrightarrow> io_log t = io_log s"
    by (auto simp: context_switch_def load_context_def Let_def split: if_splits)
qed

lemma io_log_tick:
  assumes "scheduler_tick s = Inr (b, t)" shows "io_log t = io_log s"
proof -
  have sw: "io_log v = io_log u" if "switch_to old new u = Inr (c, v)" for old new c and u v :: "'a sched_st_scheme"
    using that io_log_switch by (fastforce simp: switch_to_def Let_def tss_set_kernel_stack_def map_sum_def split: sum.splits)
  show ?thesis
    using assms sw
    by (auto simp: scheduler_tick_def Let_def case_prod_beta split: option.splits if_splits)
qed

lemma io_log_keyboard: "\<exists>sc. io_log (keyboard_handler dev s) = io_log s @ [In KB_DATA_PORT sc]"
proof -
  have add: "io_log (keyboard_add_to_buffer c s) = io_log s" for c and s :: "'a kbd_st_scheme"
    by (simp add: keyboard_add_to_buffer_def)
  have rel: "io_log (key_release k s) = io_log s" "io_log (function_key k s) = io_log s"
    "io_log (accept_char c s) = io_log s" for k c and s :: "'a kbd_st_scheme"
    by (simp_all add: key_release_def function_key_def accept_char_cases add)
  show ?thesis
    by (simp add: keyboard_handler_def inb_def case_prod_beta Let_def rel split: option.split)
qed

text \<open>What a line's number asks to be sent to the two controllers.\<close>

definition acknowledgement :: "u32 \<Rightarrow> (u16 \<times> u8) list" where
  "acknowledgement n = (if n < 32 \<or> 47 < n then [] else if n < 40 then [(0x20, 0x20)]
     else [(0xA0, 0x20), (0x20, 0x20)])"

lemma eoi_sent:
  "sent_to {0x20, 0xA0} (io_log (pic_send_eoi n s)) = sent_to {0x20, 0xA0} (io_log s) @
     (if 8 \<le> n then [(0xA0, 0x20), (0x20, 0x20)] else [(0x20, 0x20)])"
  by (simp add: pic_send_eoi_def outb_def PIC1_COMMAND_def PIC2_COMMAND_def)

lemma line_number:
  assumes "32 \<le> (n :: u32)" "n \<le> 47"
  shows "8 \<le> (ucast (n - 32) :: u8) \<longleftrightarrow> 40 \<le> n"
proof -
  have d: "unat (n - 32) = unat n - 32" using assms by (simp add: unat_sub word_le_nat_alt)
  have "unat (n - 32) < 256" using assms d by (simp add: word_le_nat_alt)
  then have "unat (ucast (n - 32) :: u8) = unat n - 32"
    using d by (simp add: unsigned_ucast_eq take_bit_nat_eq_self)
  then show ?thesis using assms by (auto simp: word_le_nat_alt)
qed

section \<open>What the panic screen shows\<close>

text \<open>A format none of whose percent signs begins a conversion: it prints as it stands.\<close>

definition conversion :: "char \<Rightarrow> bool" where "conversion f \<longleftrightarrow> f \<in> set ''scduxXp%''"

fun plain :: "string \<Rightarrow> bool" where
  "plain [] = True"
| "plain [c] = (c \<noteq> CHR ''%'')"
| "plain (c # f # cs) = (if c = CHR ''%'' then \<not> conversion f \<and> plain cs else plain (f # cs))"

lemma directive_plain: "\<not> conversion f \<Longrightarrow> directive f args = Some (''%'' @ [f], args)"
  by (simp add: directive_def conversion_def)

lemma render_plain: "plain fmt \<Longrightarrow> render fmt args = Some fmt"
  by (induction fmt arbitrary: args rule: plain.induct) (simp_all add: directive_plain split: if_splits)

lemma con_kprintk: "con (kprintk fmt args s) = snd (the (printk fmt args (con s)))"
  by (simp add: kout_defs)

lemma con_same: "con s = con t \<Longrightarrow> con (kprintk fmt args s) = con (kprintk fmt args t)"
  by (simp add: con_kprintk)

lemma con_plain: "plain fmt \<Longrightarrow> con s = con t \<Longrightarrow> con (kprintk fmt args s) = con (kprintk fmt args' t)"
  by (simp add: con_kprintk printk_render render_plain)

lemma con_set_color: "con s = con t \<Longrightarrow> con (set_color fg bg s) = con (set_color fg bg t)"
  by (simp add: set_color_def)

lemma con_if: "con s = con t \<Longrightarrow> con s' = con t' \<Longrightarrow> con (if b then s else s') = con (if b then t else t')"
  by simp

lemma plain_dump:
  "plain (''  EAX: 0x%08X  EBX: 0x%08X  ECX: 0x%08X  EDX: 0x%08X'' @ [CHR 0x0A])"
  "plain (''  ESI: 0x%08X  EDI: 0x%08X  EBP: 0x%08X  ESP: 0x%08X'' @ [CHR 0x0A])"
  "plain (''  EIP: 0x%08X  EFLAGS: 0x%08X'' @ [CHR 0x0A])"
  "plain (''  CS: 0x%04X  DS: 0x%04X  SS: 0x%04X'' @ [CHR 0x0A])"
  "plain (''  [ESP+%02d]: 0x%08X'' @ [CHR 0x0A])"
  "plain (''  Faulting Address: 0x%08X'' @ [CHR 0x0A])"
  by code_simp+

lemmas con_dump = plain_dump [THEN con_plain]

lemma con_register_dump: "con s = con t \<Longrightarrow> con (register_dump r s) = con (register_dump r' t)"
  unfolding register_dump_def Let_def by (intro con_dump con_same)

lemma con_stack_trace:
  "con s = con t \<Longrightarrow> a < 0x8FFFFFFF \<longleftrightarrow> b < 0x8FFFFFFF \<Longrightarrow> con (stack_trace is a s) = con (stack_trace is b t)"
proof (induction "is" arbitrary: s t)
  case (Cons i "is")
  show ?case
  proof (cases "a < 0x8FFFFFFF")
    case True
    have "con (kprintk (''  [ESP+%02d]: 0x%08X'' @ [CHR 0x0A]) args s) =
      con (kprintk (''  [ESP+%02d]: 0x%08X'' @ [CHR 0x0A]) args' t)" for args args'
      by (rule con_dump(5) [OF Cons.prems(1)])
    from Cons.IH [OF this Cons.prems(2)] True Cons.prems(2) show ?thesis by (simp del: append.simps)
  qed (use Cons.prems in simp)
qed simp

lemma con_page_fault:
  assumes "con s = con t" "f_err_code r = f_err_code r'"
  shows "con (handle_page_fault x r s) = con (handle_page_fault y r' t)"
  unfolding handle_page_fault_def Let_def assms(2)
  by (intro con_same con_if con_dump(6) assms(1))

lemma con_halt: "con s = con t \<Longrightarrow> con (halt_system s) = con (halt_system t)"
  by (simp add: halt_system_def)

lemma con_clear: "con s = con t \<Longrightarrow> con (s\<lparr>con := console_clear (con s)\<rparr>) = con (t\<lparr>con := console_clear (con t)\<rparr>)"
  by simp

lemma con_isr_handler:
  assumes "con s = con t"
    and "f_int_no (frame_at (mem s) a) = f_int_no (frame_at (mem t) b)"
    and "f_err_code (frame_at (mem s) a) = f_err_code (frame_at (mem t) b)"
    and "f_esp (frame_at (mem s) a) < 0x8FFFFFFF \<longleftrightarrow> f_esp (frame_at (mem t) b) < 0x8FFFFFFF"
  shows "con (isr_handler x a s) = con (isr_handler y b t)"
  unfolding isr_handler_def Let_def assms(2,3)
  by (intro con_halt con_clear con_same con_if con_set_color con_register_dump con_stack_trace con_page_fault assms refl)

lemma write_below:
  assumes "48 < unat (e - a) \<or> e = a" "4 \<le> unat k" "unat k \<le> 48"
  shows "write32 m (e - k) v a = m a"
proof (rule write32_outside)
  fix j :: nat assume j: "j < 4"
  have "unat (k - of_nat j) = unat k - j" using j assms(2) by (simp add: unat_sub word_le_nat_alt)
  moreover have "e - a = k - of_nat j" if "a = e - k + of_nat j" using that by simp
  ultimately show "a \<noteq> e - k + of_nat j" using assms j by fastforce
qed

lemma irq_entry_keeps:
  "same_ring s (push32 v (irq_stub_entry n s))" "io_log (push32 v (irq_stub_entry n s)) = io_log s"
  "modifiers (push32 v (irq_stub_entry n s)) = modifiers s" "input_enabled (push32 v (irq_stub_entry n s)) = input_enabled s"
  by (simp_all add: same_ring_def irq_stub_entry_def pusha_def push32_def load_data_segments_def Let_def)

section \<open>Properties\<close>

text \<open>Fact (functional): the words the stub of a hardware interrupt pushes are the structure its C handler
  reads, field by field: the interrupted registers, the line's number, and what the processor pushed.\<close>

theorem irq_frame_layout:
  fixes s :: "'a desc_st_scheme"
  assumes "64 \<le> unat (r_esp (cpu s))" "unat (r_esp (cpu s)) + 64 \<le> 2 ^ 32"
  shows "frame_at (mem (irq_stub_entry number s)) (r_esp (cpu (irq_stub_entry number s))) =
    (let c = cpu s; e = r_esp c
     in \<lparr>f_ds = (r_eax c AND 0xFFFF0000) OR (r_ds c AND 0xFFFF), f_edi = r_edi c, f_esi = r_esi c,
       f_ebp = r_ebp c, f_esp = e - 8, f_ebx = r_ebx c, f_edx = r_edx c, f_ecx = r_ecx c, f_eax = r_eax c,
       f_int_no = number, f_err_code = 0, f_eip = read32 (mem s) e, f_cs = read32 (mem s) (e + 4),
       f_eflags = read32 (mem s) (e + 8), f_useresp = read32 (mem s) (e + 12), f_ss = read32 (mem s) (e + 16)\<rparr>)"
  using irq_entry_frame [OF assms, of number] by (simp add: irq_entry_effect Let_def)

definition at_stack :: "u32 \<Rightarrow> kbd_st" where
  "at_stack esp = boot_kbd\<lparr>cpu := (cpu boot_kbd)\<lparr>r_esp := esp, r_ebx := 7\<rparr>\<rparr>"

lemma at_stack_fields: "r_esp (cpu (at_stack esp)) = esp" "r_ebx (cpu (at_stack esp)) = 7" "kbd_rep (at_stack esp) []"
  "con (at_stack esp) = con boot_kbd"
  using boot_kbd_fields(1) by (simp_all add: at_stack_def kbd_rep_def)

theorem irq_frame_layout_witness:
  "f_ebx (frame_at (mem (irq_stub_entry 33 (at_stack 0x90000))) (r_esp (cpu (irq_stub_entry 33 (at_stack 0x90000))))) = 7 \<and>
   f_int_no (frame_at (mem (irq_stub_entry 33 (at_stack 0x90000))) (r_esp (cpu (irq_stub_entry 33 (at_stack 0x90000))))) = 33"
  using irq_frame_layout [of "at_stack 0x90000" 33] by (simp add: at_stack_fields Let_def)



text \<open>C29 (functional, error): a hardware interrupt is acknowledged once to each controller that raised it,
  with one exception: a timer tick that switches processes is not acknowledged before the switched-from
  process runs again. A process entered for the first time runs without timer interrupts.\<close>

theorem irq_acknowledges:
  assumes "irq_handler dev a s = Inr (switched, t)"
  shows "sent_to {0x20, 0xA0} (io_log t) = sent_to {0x20, 0xA0} (io_log s) @
    (if switched then [] else acknowledgement (f_int_no (frame_at (mem s) a))) \<and>
   (f_int_no (frame_at (mem s) a) = 32 \<or> \<not> switched)"
proof -
  define n where "n = f_int_no (frame_at (mem s) a)"
  consider (bad) "n < 32 \<or> 47 < n" | (timer) "n = 32" | (key) "n = 33" | (other) "32 \<le> n" "n \<le> 47" "n \<noteq> 32" "n \<noteq> 33"
    by fastforce
  then show ?thesis
  proof cases
    case bad
    then show ?thesis using assms by (auto simp: irq_handler_def Let_def n_def [symmetric] acknowledgement_def)
  next
    case timer
    then have "timer_handler s = Inr (switched, t)" using assms by (simp add: irq_handler_def Let_def n_def [symmetric])
    then obtain b u where u: "scheduler_tick (s\<lparr>system_ticks := system_ticks s + 1\<rparr>) = Inr (b, u)"
      "switched = b" "t = (if b then u else pic_send_eoi 0 u)"
      by (auto simp: timer_handler_def split: sum.splits bool.splits)
    have "io_log u = io_log s" using io_log_tick [OF u(1)] by simp
    then show ?thesis using u timer by (simp add: n_def [symmetric] acknowledgement_def eoi_sent)
  next
    case key
    obtain sc where "io_log (keyboard_handler dev s) = io_log s @ [In KB_DATA_PORT sc]" using io_log_keyboard by blast
    moreover have "\<not> 8 \<le> (1 :: u8)" by (simp add: word_le_nat_alt)
    ultimately show ?thesis using assms key
      by (auto simp: irq_handler_def Let_def n_def [symmetric] acknowledgement_def eoi_sent)
  next
    case other
    then show ?thesis using assms line_number [of n]
      by (auto simp: irq_handler_def Let_def n_def [symmetric] acknowledgement_def eoi_sent)
  qed
qed

text \<open>Fact (error): the panic screen shows neither a register nor a word of the stack nor the faulting
  address: it is the same for any two exceptions with the same number and error code. The
  conversions in its formats have a width, which \<open>printk\<close> does not interpret.\<close>

theorem panic_hides_registers:
  assumes "con s = con t"
    and "f_int_no (frame_at (mem s) a) = f_int_no (frame_at (mem t) b)"
    and "f_err_code (frame_at (mem s) a) = f_err_code (frame_at (mem t) b)"
    and "f_esp (frame_at (mem s) a) < 0x8FFFFFFF \<longleftrightarrow> f_esp (frame_at (mem t) b) < 0x8FFFFFFF"
  shows "con (isr_handler x a s) = con (isr_handler y b t) \<and> halted (isr_handler x a s) \<and>
    \<not> interrupt_flag (isr_handler x a s)"
  using con_isr_handler [OF assms] by (simp add: isr_handler_def Let_def halt_system_def)

theorem panic_hides_registers_witness:
  "con (isr_handler 0xDEAD 0x8000 boot_kbd) = con (isr_handler 0 0x8000 (at_stack 0x90000)) \<and> halted (isr_handler 0xDEAD 0x8000 boot_kbd)"
  using panic_hides_registers [where s = boot_kbd and t = "at_stack 0x90000" and a = "0x8000" and b = "0x8000"
      and x = "0xDEAD" and y = 0] by (simp add: at_stack_def)

theorem irq_acknowledges_witness:
  "\<exists>t. irq_handler (\<lambda>_ _. 0) 0x8FFD4 (irq_stub_entry 46 (at_stack 0x90000)) = Inr (False, t) \<and>
    sent_to {0x20, 0xA0} (io_log t) =
      sent_to {0x20, 0xA0} (io_log (irq_stub_entry 46 (at_stack 0x90000))) @ [(0xA0, 0x20), (0x20, 0x20)]"
proof -
  define s where "s = irq_stub_entry 46 (at_stack 0x90000)"
  have "64 \<le> unat (r_esp (cpu (at_stack 0x90000)))" "unat (r_esp (cpu (at_stack 0x90000))) + 64 \<le> 2 ^ 32"
    by (simp_all add: at_stack_fields)
  from irq_entry_frame [OF this, of 46] have n: "f_int_no (frame_at (mem s) 0x8FFD4) = 46"
    by (simp add: s_def at_stack_fields)
  then obtain t where "irq_handler (\<lambda>_ _. 0) 0x8FFD4 s = Inr (False, t)" by (simp add: irq_handler_def)
  from irq_acknowledges [OF this, unfolded n] this show ?thesis
    unfolding s_def [symmetric] by (simp add: acknowledgement_def)
qed

end
