(* ===== verification/Exceptions.thy ===== *)
theory Exceptions
  imports Interrupts_Theorems
begin

text \<open>
  Exceptions, from the processor's part through the stubs of \<^verbatim>\<open>src/kernel/idt_handlers.asm\<close> to
  \<open>isr_handler\<close>, and the helpers of \<^verbatim>\<open>include/context.h\<close> and \<^verbatim>\<open>context_switch.asm\<close> that read or write a
  single register. The property is that an exception stops the machine.
\<close>

section \<open>Reading and writing single registers\<close>

text \<open>The helpers of \<^verbatim>\<open>include/context.h\<close>, which go through the stack for the flags, and the three functions of
  \<^verbatim>\<open>context_switch.asm\<close>, which see the return address of their own call on top of the stack.\<close>

definition read_eflags :: "'a desc_st_scheme \<Rightarrow> u32 \<times> 'a desc_st_scheme" where
  "read_eflags s =
     (let s = push32 (r_eflags (cpu s)) s
      in (stack_word 0 s, drop_stack 4 s))"

definition write_eflags :: "u32 \<Rightarrow> 'a desc_st_scheme \<Rightarrow> 'a desc_st_scheme" where
  "write_eflags eflags s =
     (let s = push32 eflags s;
          flags = stack_word 0 s;
          s = drop_stack 4 s
      in s\<lparr>cpu := (cpu s)\<lparr>r_eflags := flags\<rparr>, interrupt_flag := bit flags 9\<rparr>)"

definition read_cr3 :: "'a desc_st_scheme \<Rightarrow> u32" where "read_cr3 s = cr3 s"

definition write_cr3 :: "u32 \<Rightarrow> 'a desc_st_scheme \<Rightarrow> 'a desc_st_scheme" where "write_cr3 v s = s\<lparr>cr3 := v\<rparr>"

definition read_ds :: "'a desc_st_scheme \<Rightarrow> u16" where "read_ds s = ucast (r_ds (cpu s))"
definition read_es :: "'a desc_st_scheme \<Rightarrow> u16" where "read_es s = ucast (r_es (cpu s))"
definition read_fs :: "'a desc_st_scheme \<Rightarrow> u16" where "read_fs s = ucast (r_fs (cpu s))"
definition read_gs :: "'a desc_st_scheme \<Rightarrow> u16" where "read_gs s = ucast (r_gs (cpu s))"
definition read_ss :: "'a desc_st_scheme \<Rightarrow> u16" where "read_ss s = ucast (r_ss (cpu s))"

definition read_esp :: "u32 \<Rightarrow> 'a desc_st_scheme \<Rightarrow> u32 \<times> 'a desc_st_scheme" where
  "read_esp return_at s =
     (let s = push32 return_at s
      in (r_esp (cpu s), drop_stack 4 s))"

definition read_ebp :: "u32 \<Rightarrow> 'a desc_st_scheme \<Rightarrow> u32 \<times> 'a desc_st_scheme" where
  "read_ebp return_at s =
     (let s = push32 return_at s
      in (r_ebp (cpu s), drop_stack 4 s))"

definition read_eip :: "u32 \<Rightarrow> 'a desc_st_scheme \<Rightarrow> u32 \<times> 'a desc_st_scheme" where
  "read_eip return_at s =
     (let s = push32 return_at s
      in (stack_word 0 s, drop_stack 4 s))"

lemma read_write_eflags:
  "fst (read_eflags (write_eflags v s)) = v" "fst (read_eflags s) = r_eflags (cpu s)"
  "cpu (snd (read_eflags s)) = cpu s" "fst (read_eip a s) = a" "fst (read_esp a s) = r_esp (cpu s) - 4"
  by (simp_all add: read_eflags_def write_eflags_def read_eip_def read_esp_def push32_def drop_stack_def stack_word_def Let_def)

section \<open>Through a gate\<close>

text \<open>The processor's part of an interrupt or exception: from ring 3 the stack comes from the TSS and the program's
  stack is pushed; an interrupt gate clears the interrupt flag.\<close>

definition enter_gate :: "nat \<Rightarrow> 'a desc_st_scheme \<Rightarrow> 'a desc_st_scheme" where
  "enter_gate n s =
     (let c = cpu s;
          cs = cpu_cs s;
          s = (if cs AND 3 = 3
               then push32 (r_esp c) (push32 (r_ss c)
                      (s\<lparr>cpu := c\<lparr>r_esp := esp0 (kernel_tss s), r_ss := ss0 (kernel_tss s)\<rparr>\<rparr>))
               else s);
          s = push32 (r_eip c) (push32 cs (push32 (r_eflags c) s))
      in s\<lparr>cpu := (cpu s)\<lparr>r_eip := gate_offset (idt s n), r_eflags := r_eflags c AND NOT 0x200\<rparr>,
           cpu_cs := ucast (selector (idt s n)), interrupt_flag := False\<rparr>)"

text \<open>\<^verbatim>\<open>iret\<close>. The data segments are those the stub or wrapper has just popped.\<close>

definition interrupt_return :: "'a desc_st_scheme \<Rightarrow> 'a desc_st_scheme" where
  "interrupt_return s =
     (let eip = stack_word 0 s;
          cs = stack_word 4 s AND 0xFFFF;
          flags = stack_word 8 s;
          c = (cpu s)\<lparr>r_eip := eip, r_eflags := flags\<rparr>
      in if cs AND 3 = 3
         then s\<lparr>cpu := c\<lparr>r_esp := stack_word 12 s, r_ss := stack_word 16 s AND 0xFFFF\<rparr>, cpu_cs := cs,
                interrupt_flag := bit flags 9\<rparr>
         else s\<lparr>cpu := c\<lparr>r_esp := r_esp c + 12\<rparr>, cpu_cs := cs, interrupt_flag := bit flags 9\<rparr>)"

section \<open>Exceptions\<close>

text \<open>The stubs \<^verbatim>\<open>isr0\<close> to \<^verbatim>\<open>isr31\<close>: those of \<open>error_code_vectors\<close> find an error code on the stack, the others push a
  zero in its place. \<open>isr_handler\<close> does not return, so that nothing of the stub follows its call.\<close>

definition error_code_vectors :: "u32 list" where
  "error_code_vectors = [8, 10, 11, 12, 13, 14, 17, 30]"

definition isr_stub_entry :: "u32 \<Rightarrow> 'a desc_st_scheme \<Rightarrow> 'a desc_st_scheme" where
  "isr_stub_entry number s =
     (let s = s\<lparr>interrupt_flag := False\<rparr>;
          s = (if number \<in> set error_code_vectors then s else push32 0 s);
          s = pusha (push32 number s);
          s = push32 ((r_eax (cpu s) AND 0xFFFF0000) OR (r_ds (cpu s) AND 0xFFFF)) s
      in load_data_segments 0x10 s)"

definition isr_stub :: "u32 \<Rightarrow> u32 \<Rightarrow> 'a desc_st_scheme \<Rightarrow> 'a desc_st_scheme" where
  "isr_stub cr2 number s =
     (let s = isr_stub_entry number s;
          regs_at = r_esp (cpu s)
      in isr_handler cr2 regs_at (push32 regs_at s))"

text \<open>An exception where \<open>s\<close> is the state at the faulting instruction. \<open>stub\<close> gives the addresses of the stubs;
  None: the gate is absent or leads elsewhere.\<close>

definition exception :: "(nat \<Rightarrow> u32) \<Rightarrow> u32 \<Rightarrow> nat \<Rightarrow> u32 \<Rightarrow> 'a desc_st_scheme \<Rightarrow> 'a desc_st_scheme option" where
  "exception stub cr2 n error_code s =
     (if int_target 0 n s \<noteq> Some (stub n) then None
      else
        (let s = enter_gate n s;
             s = (if of_nat n \<in> set error_code_vectors then push32 error_code s else s)
         in Some (isr_stub cr2 (of_nat n) s)))"

lemma isr_entry_irq:
  "number \<notin> set error_code_vectors \<Longrightarrow> isr_stub_entry number s = irq_stub_entry number s"
  "number \<in> set error_code_vectors \<Longrightarrow> r_esp (cpu (isr_stub_entry number s)) = r_esp (cpu s) - 40"
  by (simp_all add: isr_stub_entry_def irq_stub_entry_def pusha_def push32_def load_data_segments_def Let_def)

lemma esp_push: "r_esp (cpu (push32 v s)) = r_esp (cpu s) - 4" "mem (push32 v s) = write32 (mem s) (r_esp (cpu s) - 4) v"
  by (simp_all add: push32_def Let_def)

lemma isr_entry_after_push:
  fixes s :: "'a desc_st_scheme"
  assumes "number \<in> set error_code_vectors"
  defines "e \<equiv> r_esp (cpu s)" and "c \<equiv> cpu s"
  shows "r_esp (cpu (isr_stub_entry number (push32 v s))) = e - 44"
    "mem (isr_stub_entry number (push32 v s)) =
      write32 (write32 (write32 (write32 (write32 (write32 (write32 (write32 (write32 (write32 (write32 (mem s)
        (e - 4) v) (e - 8) number) (e - 12) (r_eax c)) (e - 16) (r_ecx c)) (e - 20) (r_edx c)) (e - 24) (r_ebx c))
        (e - 28) (e - 8)) (e - 32) (r_ebp c)) (e - 36) (r_esi c)) (e - 40) (r_edi c))
        (e - 44) ((r_eax c AND 0xFFFF0000) OR (r_ds c AND 0xFFFF))"
  using assms(1) by (simp_all add: isr_stub_entry_def pusha_def push32_def load_data_segments_def Let_def e_def c_def)

text \<open>The two words of the frame that tell exceptions apart, as the handler reads them.\<close>

lemma isr_frame_words:
  fixes s :: "'a desc_st_scheme" and number v :: u32
  assumes e: "64 \<le> unat (r_esp (cpu s))"
  defines "t \<equiv> isr_stub_entry number (if number \<in> set error_code_vectors then push32 v s else s)"
  defines "u \<equiv> push32 (r_esp (cpu t)) t"
  shows "r_esp (cpu t) = r_esp (cpu s) - 44" "f_int_no (frame_at (mem u) (r_esp (cpu t))) = number"
    "f_err_code (frame_at (mem u) (r_esp (cpu t))) = (if number \<in> set error_code_vectors then v else 0)"
proof -
  define b where "b = r_esp (cpu s)"
  have m: "r_esp (cpu t) = b - 44" "mem t =
      write32 (write32 (write32 (write32 (write32 (write32 (write32 (write32 (write32 (write32 (write32 (mem s)
        (b - 4) (if number \<in> set error_code_vectors then v else 0)) (b - 8) number) (b - 12) (r_eax (cpu s))) (b - 16) (r_ecx (cpu s)))
        (b - 20) (r_edx (cpu s))) (b - 24) (r_ebx (cpu s))) (b - 28) (b - 8)) (b - 32) (r_ebp (cpu s))) (b - 36) (r_esi (cpu s)))
        (b - 40) (r_edi (cpu s))) (b - 44) ((r_eax (cpu s) AND 0xFFFF0000) OR (r_ds (cpu s) AND 0xFFFF))"
    by (cases "number \<in> set error_code_vectors"; simp add: t_def b_def isr_entry_irq(1) irq_entry_effect isr_entry_after_push)+
  then show "r_esp (cpu t) = r_esp (cpu s) - 44" by (simp add: b_def)
  have k: "b - 44 - 4 = b - 48" "b - 44 + 36 = b - 8" "b - 44 + 40 = b - 4" by simp_all
  have l: "64 \<le> unat b" using e by (simp add: b_def)
  show "f_int_no (frame_at (mem u) (r_esp (cpu t))) = number"
    "f_err_code (frame_at (mem u) (r_esp (cpu t))) = (if number \<in> set error_code_vectors then v else 0)"
    using l by (simp_all add: u_def esp_push m frame_at_def k apart_below)
qed

text \<open>Where the processor's frame ends.\<close>

lemma enter_gate_esp:
  "r_esp (cpu (enter_gate n s)) = (if cpu_cs s AND 3 = 3 then esp0 (kernel_tss s) - 20 else r_esp (cpu s) - 12)"
  by (simp add: enter_gate_def push32_def Let_def)

lemma isr_handler_halts: "halted (isr_handler cr2 a s)" "\<not> interrupt_flag (isr_handler cr2 a s)"
  by (simp_all add: isr_handler_def halt_system_def Let_def)

section \<open>Properties\<close>

text \<open>C37 (safety): an exception, in the kernel or in a program, whose gate is that of its stub stops the machine with
  interrupts off; the handler is entered with the number of the exception and the error code the processor gave, or zero
  where it gives none.\<close>

theorem exception_halts:
  fixes s :: "'a desc_st_scheme"
  assumes gate: "int_target 0 n s = Some (stub n)" and n: "n < 32"
    and room: "84 \<le> unat (if cpu_cs s AND 3 = 3 then esp0 (kernel_tss s) else r_esp (cpu s))"
  shows "\<exists>t a. exception stub cr2 n code s = Some (isr_handler cr2 a t) \<and>
    f_int_no (frame_at (mem t) a) = of_nat n \<and>
    f_err_code (frame_at (mem t) a) = (if n \<in> {8, 10, 11, 12, 13, 14, 17, 30} then code else 0) \<and>
    halted (isr_handler cr2 a t) \<and> \<not> interrupt_flag (isr_handler cr2 a t)"
proof -
  define v where "v = enter_gate n s"
  define w where "w = (if (of_nat n :: u32) \<in> set error_code_vectors then push32 code v else v)"
  define t where "t = isr_stub_entry (of_nat n) w"
  have "64 \<le> unat (r_esp (cpu v))"
    using room by (auto simp: v_def enter_gate_esp unat_sub word_le_nat_alt split: if_splits)
  note f = isr_frame_words [OF this, of "of_nat n" code, folded w_def, folded t_def]
  have "(of_nat n :: u32) \<in> set error_code_vectors \<longleftrightarrow> n \<in> {8, 10, 11, 12, 13, 14, 17, 30}"
    using n by (auto simp: error_code_vectors_def word_unat_eq_iff unat_of_nat)
  moreover have "exception stub cr2 n code s = Some (isr_handler cr2 (r_esp (cpu t)) (push32 (r_esp (cpu t)) t))"
    using gate by (simp add: exception_def isr_stub_def Let_def v_def [symmetric] w_def [symmetric] t_def [symmetric])
  ultimately show ?thesis using f isr_handler_halts by metis
qed

definition with_gates :: kbd_st where
  "with_gates = (at_stack 0x90000)\<lparr>idt := idt (idt_init of_nat (at_stack 0x90000)), cpu_cs := 8\<rparr>"

theorem exception_halts_witness:
  "\<exists>t a. exception of_nat 0 13 0x18 with_gates = Some (isr_handler 0 a t) \<and>
    f_int_no (frame_at (mem t) a) = 13 \<and> f_err_code (frame_at (mem t) a) = 0x18 \<and> halted (isr_handler 0 a t)"
proof -
  have "int_target 0 13 (idt_init of_nat (at_stack 0x90000)) = Some (of_nat 13)"
    by (rule idt_init_targets(2)) simp
  then have g: "int_target 0 13 with_gates = Some (of_nat 13)" by (simp add: int_target_def with_gates_def split: if_splits)
  have "84 \<le> unat (if cpu_cs with_gates AND 3 = 3 then esp0 (kernel_tss with_gates) else r_esp (cpu with_gates))"
    by (simp add: with_gates_def at_stack_fields)
  from exception_halts [where stub = of_nat and n = 13 and s = with_gates and ?cr2.0 = 0 and code = "0x18", OF g _ this] show ?thesis by auto
qed

end
