(* ===== verification/Syscall.thy ===== *)
theory Syscall
  imports Interrupts_Theorems
begin

text \<open>
  System calls: the dispatcher and the calls of \<^verbatim>\<open>src/kernel/syscall.c\<close> and the wrapper of
  \<^verbatim>\<open>syscall_handler.asm\<close> that interrupt 0x80 enters. The dispatcher gets the address of a
  structure \<^verbatim>\<open>registers_t\<close> of \<^verbatim>\<open>process.h\<close> and reads it there.
\<close>

section \<open>The calls\<close>

definition SYSCALL_EXIT :: u32 where "SYSCALL_EXIT = 1"
definition SYSCALL_WRITE :: u32 where "SYSCALL_WRITE = 2"
definition SYSCALL_READ :: u32 where "SYSCALL_READ = 3"
definition SYSCALL_YIELD :: u32 where "SYSCALL_YIELD = 4"

lemmas syscall_numbers = SYSCALL_EXIT_def SYSCALL_WRITE_def SYSCALL_READ_def SYSCALL_YIELD_def

definition sys_exit :: "u32 \<Rightarrow> 'a process_st_scheme \<Rightarrow> u32 \<times> 'a process_st_scheme" where
  "sys_exit status s =
     (case current_process s of
        None \<Rightarrow> (0xFFFFFFFF, s)
      | Some c \<Rightarrow>
          (let s = kprintk (''[SYSCALL] Process %d (%s) exiting with status %d'' @ [CHR 0x0A])
                     [VInt (p_pid (process_table s c)), VStr (Some (cstr (p_name (process_table s c)))), VInt status] s
           in (0, process_exit status s)))"

text \<open>A \<^verbatim>\<open>char\<close> is signed and promoted to \<^verbatim>\<open>int\<close> when it is passed to \<open>printk\<close>.\<close>

fun write_loop :: "nat \<Rightarrow> u32 \<Rightarrow> u32 \<Rightarrow> 'a memory_st_scheme \<Rightarrow> 'a memory_st_scheme" where
  "write_loop 0 buf i s = s"
| "write_loop (Suc n) buf i s =
     (if mem s (buf + i) = 0 then s
      else write_loop n buf (i + 1) (kprintk ''%c'' [VInt (scast (mem s (buf + i)))] s))"

definition sys_write :: "u32 \<Rightarrow> u32 \<Rightarrow> u32 \<Rightarrow> 'a memory_st_scheme \<Rightarrow> u32 \<times> 'a memory_st_scheme" where
  "sys_write fd buf len s =
     (if buf = 0 \<or> len = 0 then (0, s)
      else if fd \<noteq> 1 \<and> fd \<noteq> 2 then (0xFFFFFFFF, s)
      else (len, write_loop (unat len) buf 0 s))"

definition sys_read :: "u32 \<Rightarrow> u32 \<Rightarrow> u32 \<Rightarrow> 'a \<Rightarrow> u32 \<times> 'a" where
  "sys_read fd buf len s = (0xFFFFFFFF, s)"

definition sys_yield :: "'a sched_st_scheme \<Rightarrow> u32 + bool \<times> 'a sched_st_scheme" where
  "sys_yield s = (if scheduler_is_enabled s then scheduler_yield s else Inr (False, s))"

section \<open>Dispatch\<close>

text \<open>\<open>set_result\<close> is the last statement of the dispatcher. Where \<open>sys_yield\<close> switches away, it runs
  only when the calling process is resumed.\<close>

definition set_result :: "u32 \<Rightarrow> u32 \<Rightarrow> 'a memory_st_scheme \<Rightarrow> 'a memory_st_scheme" where
  "set_result regs_at result s = s\<lparr>mem := write32 (mem s) regs_at result\<rparr>"

definition syscall_handler :: "u32 \<Rightarrow> 'a sched_st_scheme \<Rightarrow> u32 + bool \<times> 'a sched_st_scheme" where
  "syscall_handler regs_at s =
     (let syscall_num = read32 (mem s) regs_at;
          arg1 = read32 (mem s) (regs_at + 4);
          arg2 = read32 (mem s) (regs_at + 8);
          arg3 = read32 (mem s) (regs_at + 12);
          s = kprintk (''[SYSCALL] num=%d (EAX=0x%x) arg1=0x%x arg2=0x%x arg3=0x%x'' @ [CHR 0x0A])
                [VInt syscall_num, VInt (read32 (mem s) regs_at), VInt arg1, VInt arg2, VInt arg3] s;
          done = (\<lambda>(result, s). Inr (False, set_result regs_at result s))
      in if syscall_num = SYSCALL_EXIT then done (sys_exit arg1 s)
         else if syscall_num = SYSCALL_WRITE then done (sys_write arg1 arg2 arg3 s)
         else if syscall_num = SYSCALL_READ then done (sys_read arg1 arg2 arg3 s)
         else if syscall_num = SYSCALL_YIELD
         then (case sys_yield s of
                 Inl vector \<Rightarrow> Inl vector
               | Inr (True, s) \<Rightarrow> Inr (True, s)
               | Inr (False, s) \<Rightarrow> done (0, s))
         else done (0xFFFFFFFF, kwarn ''Unknown syscall: %d'' [VInt syscall_num] s))"

section \<open>The wrapper\<close>

definition syscall_entry :: "'a desc_st_scheme \<Rightarrow> 'a desc_st_scheme" where
  "syscall_entry s =
     (let c = cpu s;
          s = push32 (r_gs c AND 0xFFFF) (push32 (r_fs c AND 0xFFFF)
                (push32 (r_es c AND 0xFFFF) (push32 (r_ds c AND 0xFFFF) s)))
      in load_data_segments 0x10 (pusha s))"

definition syscall_leave :: "'a desc_st_scheme \<Rightarrow> 'a desc_st_scheme" where
  "syscall_leave s =
     (let s = popa s
      in drop_stack 16 (s\<lparr>cpu := (cpu s)\<lparr>r_gs := stack_word 0 s AND 0xFFFF, r_fs := stack_word 4 s AND 0xFFFF,
           r_es := stack_word 8 s AND 0xFFFF, r_ds := stack_word 12 s AND 0xFFFF\<rparr>\<rparr>))"

definition syscall_wrapper :: "'a sched_st_scheme \<Rightarrow> u32 + bool \<times> 'a sched_st_scheme" where
  "syscall_wrapper s =
     (let s = syscall_entry s;
          regs_at = r_esp (cpu s)
      in case syscall_handler regs_at (push32 regs_at s) of
        Inl vector \<Rightarrow> Inl vector
      | Inr (True, s) \<Rightarrow> Inr (True, s)
      | Inr (False, s) \<Rightarrow> Inr (False, syscall_leave (drop_stack 4 s)))"

definition syscall_init :: "u32 \<Rightarrow> 'a desc_st_scheme \<Rightarrow> 'a desc_st_scheme" where
  "syscall_init wrapper_at s =
     (let s = kinfo ''Initializing system call interface'' [] s;
          s = idt_set_gate 0x80 wrapper_at 0x08 0xEE s;
          s = kprintk (''  Syscall interrupt: INT 0x80'' @ [CHR 0x0A]) [] s;
          s = kprintk (''  Available syscalls:'' @ [CHR 0x0A]) [] s;
          s = kprintk (''    1 - exit(status)'' @ [CHR 0x0A]) [] s;
          s = kprintk (''    2 - write(fd, buf, len)'' @ [CHR 0x0A]) [] s;
          s = kprintk (''    3 - read(fd, buf, len)'' @ [CHR 0x0A]) [] s;
          s = kprintk (''    4 - yield()'' @ [CHR 0x0A]) [] s
      in kprintk (''  [OK] System calls ready'' @ [CHR 0x0A]) [] s)"

end
