(* ===== verification/Usermode.thy ===== *)
theory Usermode
  imports Syscall
begin

text \<open>
  User mode, \<^verbatim>\<open>src/kernel/usermode.c\<close>: the copy of a test program into the memory of a process
  and the frame from which the first switch to it enters ring 3. The addresses the linker
  gives the functions and programs are the fields of \<open>user_code\<close>.
\<close>

record user_code =
  user_mode_test_1 :: u32
  user_mode_test_2 :: u32
  user_mode_test_1_asm :: u32
  user_mode_test_2_asm :: u32
  user_mode_test_2_asm_end :: u32

definition get_current_privilege_level :: "'a desc_st_scheme \<Rightarrow> u32" where
  "get_current_privilege_level s = cpu_cs s AND 0x3"

fun copy_loop :: "nat \<Rightarrow> u32 \<Rightarrow> u32 \<Rightarrow> u32 \<Rightarrow> bytemem \<Rightarrow> bytemem" where
  "copy_loop 0 dst src i m = m"
| "copy_loop (Suc n) dst src i m = copy_loop n dst src (i + 1) (m(dst + i := m (src + i)))"

definition copy_to_user_memory :: "u32 \<Rightarrow> u32 \<Rightarrow> u32 \<Rightarrow> 'a memory_st_scheme \<Rightarrow> u32 \<times> 'a memory_st_scheme" where
  "copy_to_user_memory func_start func_end user_base s =
     (let size = func_end - func_start;
          s = kprintk (''    Copying %d bytes from 0x%x to 0x%x'' @ [CHR 0x0A])
                [VInt size, VInt func_start, VInt user_base] s
      in (user_base, s\<lparr>mem := copy_loop (unat size) user_base func_start 0 (mem s)\<rparr>))"

text \<open>The five words \<^verbatim>\<open>iret\<close> pops, written downwards from the end of the kernel stack.\<close>

definition iret_frame :: "u32 \<Rightarrow> u32 \<Rightarrow> u32 \<Rightarrow> bytemem \<Rightarrow> bytemem" where
  "iret_frame kstack entry user_stack_top m =
     write32 (write32 (write32 (write32 (write32 m (kstack - 4) 0x23) (kstack - 8) user_stack_top)
       (kstack - 12) 0x202) (kstack - 16) 0x1B) (kstack - 20) entry"

definition process_setup_user_mode ::
    "user_code \<Rightarrow> nat option \<Rightarrow> u32 \<Rightarrow> 'a process_st_scheme \<Rightarrow> 'a process_st_scheme" where
  "process_setup_user_mode code process entry_point s =
     (case process of
        None \<Rightarrow> kerror ''Invalid process or entry point for user mode setup'' [] s
      | Some i \<Rightarrow>
          if entry_point = 0 then kerror ''Invalid process or entry point for user mode setup'' [] s
          else
            (let user_base = 0x00400000 + p_pid (process_table s i) * 0x100000;
                 user_stack_base = user_base + 0x80000;
                 user_stack_top = user_stack_base + 0x4000
             in case (if entry_point = user_mode_test_1 code
                      then Some (user_mode_test_1_asm code, user_mode_test_2_asm code)
                      else if entry_point = user_mode_test_2 code
                      then Some (user_mode_test_2_asm code, user_mode_test_2_asm_end code)
                      else None) of
                  None \<Rightarrow> kerror ''Unknown user mode entry point: 0x%x'' [VInt entry_point] s
                | Some (func_start, func_end) \<Rightarrow>
                    (let (user_entry, s) = copy_to_user_memory func_start func_end user_base s;
                         kstack = p_kernel_stack (process_table s i) + 4096;
                         s = s\<lparr>mem := iret_frame kstack user_entry user_stack_top (mem s)\<rparr>;
                         s = upd_process i (\<lambda>p. p\<lparr>p_registers := (p_registers p)
                               \<lparr>r_esp := kstack - 20, r_eip := user_entry,
                                r_eax := 0, r_ebx := 0, r_ecx := 0, r_edx := 0, r_esi := 0, r_edi := 0, r_ebp := 0,
                                r_ds := 0x23, r_es := 0x23, r_fs := 0x23, r_gs := 0x23, r_ss := 0x23,
                                r_eflags := 0x202\<rparr>, p_is_kernel := 0\<rparr>) s;
                         s = kprintk (''  Set up user mode for process %d (PID %d)'' @ [CHR 0x0A])
                               [VInt (p_pid (process_table s i)), VInt (p_pid (process_table s i))] s;
                         s = kprintk (''    Entry point: 0x%x -> 0x%x (copied to user memory)'' @ [CHR 0x0A])
                               [VInt entry_point, VInt user_entry] s;
                         s = kprintk (''    User stack: 0x%x - 0x%x'' @ [CHR 0x0A])
                               [VInt user_stack_base, VInt user_stack_top] s
                     in kprintk (''    Kernel stack: 0x%x'' @ [CHR 0x0A])
                          [VInt (p_kernel_stack (process_table s i))] s)))"

definition usermode_init :: "'a desc_st_scheme \<Rightarrow> 'a desc_st_scheme" where
  "usermode_init s =
     (let s = kinfo ''Initializing user mode (ring 3) support'' [] s;
          cpl = get_current_privilege_level s;
          s = kprintk (''  Current privilege level: %d (ring %d)'' @ [CHR 0x0A]) [VInt cpl, VInt cpl] s;
          s = (if cpl \<noteq> 0 then kwarn ''Not running in kernel mode!'' [] s else s);
          s = kprintk (''  User code segment: 0x1B (GDT entry 3 | RPL 3)'' @ [CHR 0x0A]) [] s;
          s = kprintk (''  User data segment: 0x23 (GDT entry 4 | RPL 3)'' @ [CHR 0x0A]) [] s
      in kprintk (''  [OK] User mode ready'' @ [CHR 0x0A]) [] s)"

end
