(* ===== verification/Usermode_Theorems.thy ===== *)
theory Usermode_Theorems
  imports Usermode
begin

text \<open>
System calls and user mode: what \<open>sys_write\<close> prints, which gate ring 3 may use, how the wrapper's
  frame and the dispatcher's structure disagree, and how a process enters ring 3.
\<close>

section \<open>Writing\<close>

lemma signed_char: "char_of (unat (scast (b :: u8) :: u32)) = (char_of (unat b) :: char)"
proof -
  have "(ucast (scast b :: u32) :: u8) = b" by (rule bit_word_eqI) (auto simp: bit_simps)
  then have "unat (ucast (scast b :: u32) :: u8) = unat b" by simp
  then have "unat (scast b :: u32) mod 256 = unat b"
    by (simp add: unsigned_ucast_eq take_bit_eq_mod)
  then show ?thesis by (metis char_of_mod_256)
qed

lemma con_print_char: "kprintk ''%c'' [VInt w] s = s\<lparr>con := console_putchar (char_of (unat w)) (con s)\<rparr>"
  by (simp add: kprintk_def printk_def)

lemma write_loop_bytes:
  "write_loop n buf i s = s\<lparr>con := console_write (map (\<lambda>b. char_of (unat b))
     (takeWhile (\<lambda>b. b \<noteq> 0) (map (\<lambda>k. mem s (buf + i + of_nat k)) [0..<n]))) (con s)\<rparr>"
proof (induction n arbitrary: i s)
  case (Suc n)
  have "map (\<lambda>k. mem s (buf + i + of_nat k)) [0..<Suc n] =
      mem s (buf + i) # map (\<lambda>k. mem s (buf + (i + 1) + of_nat k)) [0..<n]"
    by (subst map_upt_Suc) (simp add: algebra_simps)
  then show ?case using Suc by (simp add: con_print_char signed_char)
qed simp

section \<open>The frame of a system call\<close>

lemma syscall_entry_effect:
  fixes s :: "'a desc_st_scheme"
  defines "c \<equiv> cpu s" and "e \<equiv> r_esp (cpu s)"
  shows "mem (syscall_entry s) =
      write32 (write32 (write32 (write32 (write32 (write32 (write32 (write32 (write32 (write32 (write32 (write32 (mem s)
        (e - 4) (r_ds c AND 0xFFFF)) (e - 8) (r_es c AND 0xFFFF)) (e - 12) (r_fs c AND 0xFFFF)) (e - 16) (r_gs c AND 0xFFFF))
        (e - 20) (r_eax c)) (e - 24) (r_ecx c)) (e - 28) (r_edx c)) (e - 32) (r_ebx c))
        (e - 36) (e - 16)) (e - 40) (r_ebp c)) (e - 44) (r_esi c)) (e - 48) (r_edi c)"
    "cpu (syscall_entry s) = c\<lparr>r_esp := e - 48, r_ds := 0x10, r_es := 0x10, r_fs := 0x10, r_gs := 0x10\<rparr>"
  by (simp_all add: syscall_entry_def pusha_def push32_def load_data_segments_def Let_def c_def e_def)

lemma below_frame:
  "(e :: u32) - 48 + 4 = e - 44" "e - 48 + 8 = e - 40" "e - 48 + 12 = e - 36" "e - 48 + 16 = e - 32"
  "e - 48 + 20 = e - 28" "e - 48 + 24 = e - 24" "e - 48 + 28 = e - 20" "e - 48 + 32 = e - 16"
  "e - 48 + 36 = e - 12" "e - 48 + 40 = e - 8" "e - 48 + 44 = e - 4"
  by simp_all

lemma syscall_entry_words:
  fixes s :: "'a desc_st_scheme" and v :: u32
  assumes e: "64 \<le> unat (r_esp (cpu s))"
  defines "e \<equiv> r_esp (cpu s)" and "m \<equiv> write32 (mem (syscall_entry s)) (r_esp (cpu s) - 52) v"
  shows "read32 m (e - 48) = r_edi (cpu s)" "read32 m (e - 44) = r_esi (cpu s)" "read32 m (e - 40) = r_ebp (cpu s)"
    "read32 m (e - 36) = e - 16" "read32 m (e - 32) = r_ebx (cpu s)" "read32 m (e - 28) = r_edx (cpu s)"
    "read32 m (e - 24) = r_ecx (cpu s)" "read32 m (e - 20) = r_eax (cpu s)"
    "read32 m (e - 16) = r_gs (cpu s) AND 0xFFFF" "read32 m (e - 12) = r_fs (cpu s) AND 0xFFFF"
    "read32 m (e - 8) = r_es (cpu s) AND 0xFFFF" "read32 m (e - 4) = r_ds (cpu s) AND 0xFFFF"
proof -
  have b: "64 \<le> unat e" using e by (simp add: e_def)
  note below = apart_below [of _ e]
  show "read32 m (e - 48) = r_edi (cpu s)" "read32 m (e - 44) = r_esi (cpu s)" "read32 m (e - 40) = r_ebp (cpu s)"
    "read32 m (e - 36) = e - 16" "read32 m (e - 32) = r_ebx (cpu s)" "read32 m (e - 28) = r_edx (cpu s)"
    "read32 m (e - 24) = r_ecx (cpu s)" "read32 m (e - 20) = r_eax (cpu s)"
    "read32 m (e - 16) = r_gs (cpu s) AND 0xFFFF" "read32 m (e - 12) = r_fs (cpu s) AND 0xFFFF"
    "read32 m (e - 8) = r_es (cpu s) AND 0xFFFF" "read32 m (e - 4) = r_ds (cpu s) AND 0xFFFF"
    unfolding m_def syscall_entry_effect e_def [symmetric] using b by (simp_all add: below)
qed

text \<open>What the wrapper does on its way out, where the dispatcher has changed one word of the frame.\<close>

lemma syscall_leave_effect:
  fixes s :: "'a desc_st_scheme"
  shows "cpu (syscall_leave s) = (cpu s)\<lparr>r_edi := stack_word 0 s, r_esi := stack_word 4 s, r_ebp := stack_word 8 s,
    r_ebx := stack_word 16 s, r_edx := stack_word 20 s, r_ecx := stack_word 24 s, r_eax := stack_word 28 s,
    r_gs := stack_word 32 s AND 0xFFFF, r_fs := stack_word 36 s AND 0xFFFF, r_es := stack_word 40 s AND 0xFFFF,
    r_ds := stack_word 44 s AND 0xFFFF, r_esp := r_esp (cpu s) + 48\<rparr>"
  by (simp add: syscall_leave_def popa_def drop_stack_def stack_word_def Let_def add.assoc)

lemma unknown_syscall:
  fixes s :: "'a sched_st_scheme"
  assumes e: "64 \<le> unat (r_esp (cpu s))" and n: "r_edi (cpu s) \<notin> {1, 2, 3, 4}"
  shows "\<exists>u. syscall_wrapper s = Inr (False, u) \<and>
    cpu u = (cpu s)\<lparr>r_edi := 0xFFFFFFFF, r_ds := r_ds (cpu s) AND 0xFFFF, r_es := r_es (cpu s) AND 0xFFFF,
      r_fs := r_fs (cpu s) AND 0xFFFF, r_gs := r_gs (cpu s) AND 0xFFFF\<rparr>"
proof -
  define e where "e = r_esp (cpu s)"
  define v where "v = push32 (e - 48) (syscall_entry s)"
  have b: "64 \<le> unat e" using assms(1) by (simp add: e_def)
  have m: "mem v = write32 (mem (syscall_entry s)) (e - 52) (e - 48)"
    and c: "cpu v = (cpu s)\<lparr>r_esp := e - 52, r_ds := 0x10, r_es := 0x10, r_fs := 0x10, r_gs := 0x10\<rparr>"
    by (simp_all add: v_def push32_def syscall_entry_effect Let_def e_def)
  note w = syscall_entry_words [OF e, of "e - 48", folded e_def, folded m]
  obtain t where t: "syscall_handler (e - 48) v = Inr (False, t)" "mem t = write32 (mem v) (e - 48) 0xFFFFFFFF" "cpu t = cpu v"
    using n by (simp add: syscall_handler_def Let_def below_frame w syscall_numbers set_result_def kout_defs)
  have x: "read32 (mem t) (e - k) = read32 (mem v) (e - k)" if "4 \<le> unat k" "unat k \<le> 44" for k
  proof -
    have "apart 4 (e - 48) 4 (e - k)" by (rule apart_below) (use that b in simp_all)
    then show ?thesis by (simp add: t(2))
  qed
  define d where "d = drop_stack 4 t"
  have d: "r_esp (cpu d) = e - 48" "mem d = mem t" "cpu d = (cpu v)\<lparr>r_esp := e - 48\<rparr>"
    by (simp_all add: d_def drop_stack_def t(3) c)
  have "syscall_wrapper s = Inr (False, syscall_leave d)"
    using t(1) by (simp add: syscall_wrapper_def Let_def syscall_entry_effect e_def [symmetric] v_def d_def)
  moreover have "cpu (syscall_leave d) = (cpu s)\<lparr>r_edi := 0xFFFFFFFF, r_ds := r_ds (cpu s) AND 0xFFFF, r_es := r_es (cpu s) AND 0xFFFF,
      r_fs := r_fs (cpu s) AND 0xFFFF, r_gs := r_gs (cpu s) AND 0xFFFF\<rparr>"
    by (simp add: syscall_leave_effect stack_word_def d below_frame x w c) (simp add: t(2) e_def)
  ultimately show ?thesis by blast
qed

section \<open>Entering user mode\<close>

lemma copy_loop_memcpy: "copy_loop n dst src i m = memcpy_loop (dst + i) (src + i) n m"
  by (induction n dst src i m rule: copy_loop.induct) (simp_all add: add.assoc del: fun_upd_apply)

lemma apart_part:
  assumes "apart n a l b" "unat o' + 4 \<le> n"
  shows "apart l b 4 (a + o')"
proof -
  have "unat (a + o') = unat a + unat o'" using assms by (subst unat_plus_no_wrap) (auto simp: apart_def)
  then show ?thesis using assms by (auto simp: apart_def)
qed

lemma copy_apart:
  assumes "apart n dst n src" "n < 2 ^ 32"
  shows "j < n \<Longrightarrow> copy_loop n dst src 0 m (dst + of_nat j) = m (src + of_nat j)"
    "apart n dst l b \<Longrightarrow> j < l \<Longrightarrow> copy_loop n dst src 0 m (b + of_nat j) = m (b + of_nat j)"
proof -
  have far: "n \<le> unat (dst - src)"
  proof (cases "n = 0")
    case False
    show ?thesis
    proof (rule ccontr)
      assume "\<not> n \<le> unat (dst - src)"
      then have "dst + of_nat 0 \<noteq> src + of_nat (unat (dst - src))"
        by (intro apart_neq [OF assms(1)]) (use False in auto)
      then show False by simp
    qed
  qed simp
  note c = memcpy_loop_bytes [OF assms(2), of dst src m]
  show "copy_loop n dst src 0 m (dst + of_nat j) = m (src + of_nat j)" if "j < n"
    using c [of "dst + of_nat j"] far that assms(2) by (simp add: copy_loop_memcpy)
  show "copy_loop n dst src 0 m (b + of_nat j) = m (b + of_nat j)" if "apart n dst l b" "j < l"
  proof -
    have "\<not> unat (b + of_nat j - dst) < n"
    proof
      assume "unat (b + of_nat j - dst) < n"
      from apart_neq [OF that(1) this that(2)] show False by simp
    qed
    then show ?thesis using c [of "b + of_nat j"] far by (simp add: copy_loop_memcpy)
  qed
qed

definition user_program :: "user_code \<Rightarrow> u32 \<Rightarrow> (u32 \<times> u32) option" where
  "user_program code entry_point =
     (if entry_point = 0 then None
      else if entry_point = user_mode_test_1 code then Some (user_mode_test_1_asm code, user_mode_test_2_asm code)
      else if entry_point = user_mode_test_2 code then Some (user_mode_test_2_asm code, user_mode_test_2_asm_end code)
      else None)"

lemma setup_user_mode:
  fixes s :: "'a process_st_scheme" and i :: nat
  assumes "user_program code entry_point = Some (a, b)"
  defines "base \<equiv> 0x00400000 + p_pid (process_table s i) * 0x100000"
    and "k \<equiv> p_kernel_stack (process_table s i) + 4096"
    and "t \<equiv> process_setup_user_mode code (Some i) entry_point s"
  shows "mem t = iret_frame k base (base + 0x84000) (copy_loop (unat (b - a)) base a 0 (mem s))"
    "p_registers (process_table t i) = (p_registers (process_table s i))\<lparr>r_esp := k - 20, r_eip := base,
       r_eax := 0, r_ebx := 0, r_ecx := 0, r_edx := 0, r_esi := 0, r_edi := 0, r_ebp := 0,
       r_ds := 0x23, r_es := 0x23, r_fs := 0x23, r_gs := 0x23, r_ss := 0x23, r_eflags := 0x202\<rparr>"
    "p_is_kernel (process_table t i) = 0"
proof -
  have out: "mem (kprintk fmt args u) = mem u" "process_table (kprintk fmt args u) = process_table u"
    for fmt args and u :: "'a process_st_scheme" by (simp_all add: kout_defs)
  have e: "entry_point \<noteq> 0" using assms(1) by (auto simp: user_program_def)
  have prog: "(if entry_point = user_mode_test_1 code then Some (user_mode_test_1_asm code, user_mode_test_2_asm code)
      else if entry_point = user_mode_test_2 code then Some (user_mode_test_2_asm code, user_mode_test_2_asm_end code)
      else None) = Some (a, b)" using assms(1) e by (simp add: user_program_def)
  show "mem t = iret_frame k base (base + 0x84000) (copy_loop (unat (b - a)) base a 0 (mem s))"
    "p_registers (process_table t i) = (p_registers (process_table s i))\<lparr>r_esp := k - 20, r_eip := base,
       r_eax := 0, r_ebx := 0, r_ecx := 0, r_edx := 0, r_esi := 0, r_edi := 0, r_ebp := 0,
       r_ds := 0x23, r_es := 0x23, r_fs := 0x23, r_gs := 0x23, r_ss := 0x23, r_eflags := 0x202\<rparr>"
    "p_is_kernel (process_table t i) = 0"
    unfolding t_def base_def k_def process_setup_user_mode_def option.case Let_def prog
    by (simp_all add: e copy_to_user_memory_def Let_def upd_process_def out)
qed

lemma iret_frame_words:
  assumes "20 \<le> unat k"
  shows "read32 (iret_frame k v w m) (k - 20) = v" "read32 (iret_frame k v w m) (k - 16) = 0x1B"
    "read32 (iret_frame k v w m) (k - 12) = 0x202" "read32 (iret_frame k v w m) (k - 8) = w"
    "read32 (iret_frame k v w m) (k - 4) = 0x23"
  using assms by (simp_all add: iret_frame_def apart_below)

lemma iret_frame_outside:
  assumes "20 \<le> unat k" "apart l b 20 (k - 20)" "j < l"
  shows "iret_frame k v w m (b + of_nat j) = m (b + of_nat j)"
proof -
  have ne: "b + of_nat j \<noteq> k - 20 + of_nat h" if "h < 20" for h :: nat
    using apart_neq [OF assms(2,3) that] .
  have w: "b + of_nat j \<noteq> k - 4 + of_nat h" "b + of_nat j \<noteq> k - 8 + of_nat h" "b + of_nat j \<noteq> k - 12 + of_nat h"
    "b + of_nat j \<noteq> k - 16 + of_nat h" "b + of_nat j \<noteq> k - 20 + of_nat h" if "h < 4" for h :: nat
    using that ne [of "16 + h"] ne [of "12 + h"] ne [of "8 + h"] ne [of "4 + h"] ne [of h]
    by (simp_all add: algebra_simps)
  show ?thesis
    by (simp only: iret_frame_def write32_outside [OF w(1)] write32_outside [OF w(2)] write32_outside [OF w(3)]
        write32_outside [OF w(4)] write32_outside [OF w(5)])
qed

section \<open>The gates\<close>

lemma syscall_targets:
  "n < 256 \<Longrightarrow> int_target 3 n (syscall_init wrapper_at (idt_init stub s)) = (if n = 0x80 then Some wrapper_at else None)"
proof -
  assume n: "n < 256"
  define u where "u = kinfo ''Initializing system call interface'' [] (idt_init stub s)"
  have i: "idt (syscall_init wrapper_at (idt_init stub s)) = idt (idt_set_gate 0x80 wrapper_at 0x08 0xEE u)"
    and l: "idtr (syscall_init wrapper_at (idt_init stub s)) = idtr (idt_init stub s)"
    by (simp_all add: syscall_init_def Let_def u_def idt_set_gate_def) (simp add: kout_defs)
  show ?thesis
  proof (cases "n = 0x80")
    case True
    have "gate_offset (idt (idt_set_gate 0x80 wrapper_at 0x08 0xEE u) 0x80) = wrapper_at"
      using idt_gate_decode [of "0x80"] by simp
    then show ?thesis using True
      by (simp add: int_target_def i gate_present_def gate_dpl_def) (simp add: idt_set_gate_def bit_iff_odd)
  next
    case False
    then have "idt (syscall_init wrapper_at (idt_init stub s)) n = idt (idt_init stub s) n"
      by (simp add: i idt_set_gate_def u_def)
    then have "int_target 3 n (syscall_init wrapper_at (idt_init stub s)) = int_target 3 n (idt_init stub s)"
      by (simp add: int_target_def)
    then show ?thesis using idt_init_targets(1) [OF n] False by simp
  qed
qed

section \<open>Properties\<close>

text \<open>Fact (functional, error): \<open>sys_write\<close> prints the bytes at the address it is given, up to the first zero or the
  given length, whatever memory that address lies in, and returns the length; a null pointer or
  no length gives 0, another descriptor than 1 and 2 gives -1, both without output.\<close>

theorem sys_write_prints:
  "sys_write fd buf len s =
    (if buf = 0 \<or> len = 0 then (0, s)
     else if fd \<noteq> 1 \<and> fd \<noteq> 2 then (0xFFFFFFFF, s)
     else (len, s\<lparr>con := console_write (map (\<lambda>b. char_of (unat b))
       (takeWhile (\<lambda>b. b \<noteq> 0) (map (\<lambda>k. mem s (buf + of_nat k)) [0..<unat len]))) (con s)\<rparr>))"
  by (simp add: sys_write_def write_loop_bytes)

text \<open>C31 (error): the wrapper pushes the general registers with \<^verbatim>\<open>pushad\<close>, whose order is not that of the
  structure the dispatcher reads: the call's number is taken from EDI. Unless EDI happens to hold
  the number of a call, the program's EAX is ignored and comes back unchanged, and the error
  code -1 goes to EDI.\<close>

theorem syscall_reads_edi:
  fixes s :: "'a sched_st_scheme"
  assumes "64 \<le> unat (r_esp (cpu s))" and "r_edi (cpu s) \<notin> {SYSCALL_EXIT, SYSCALL_WRITE, SYSCALL_READ, SYSCALL_YIELD}"
  shows "\<exists>u. syscall_wrapper s = Inr (False, u) \<and> r_eax (cpu u) = r_eax (cpu s) \<and> r_edi (cpu u) = 0xFFFFFFFF \<and>
    r_ebx (cpu u) = r_ebx (cpu s) \<and> r_ecx (cpu u) = r_ecx (cpu s) \<and> r_edx (cpu u) = r_edx (cpu s) \<and>
    r_esp (cpu u) = r_esp (cpu s)"
  using unknown_syscall [OF assms(1)] assms(2) by (auto simp: syscall_numbers)

theorem syscall_reads_edi_witness:
  "\<exists>u. syscall_wrapper ((at_stack 0x90000)\<lparr>cpu := (cpu (at_stack 0x90000))\<lparr>r_eax := SYSCALL_WRITE, r_edi := 0\<rparr>\<rparr>) = Inr (False, u) \<and>
    r_eax (cpu u) = SYSCALL_WRITE \<and> r_edi (cpu u) = 0xFFFFFFFF"
  using syscall_reads_edi [where s = "(at_stack 0x90000)\<lparr>cpu := (cpu (at_stack 0x90000))\<lparr>r_eax := SYSCALL_WRITE, r_edi := 0\<rparr>\<rparr>"]
  by (auto simp: at_stack_fields syscall_numbers)

text \<open>C30 (safety): once system calls are set up, interrupt 0x80 is the one software interrupt that ring 3
  may raise, and it enters the wrapper.\<close>

theorem syscall_gate_only:
  "n < 256 \<Longrightarrow> int_target 3 n (syscall_init wrapper_at (idt_init stub s)) = (if n = 0x80 then Some wrapper_at else None)"
  by (rule syscall_targets)

theorem syscall_gate_only_witness:
  "int_target 3 0x80 (syscall_init 0x101000 (idt_init of_nat boot_desc)) = Some 0x101000"
  using syscall_gate_only [of "0x80" "0x101000" of_nat boot_desc] by simp

text \<open>Fact (functional): the first switch to a process that was set up for user mode enters ring 3 at the copy of
  its program, with the process's own stack, interrupts on, every general register zero and no data
  segment (the kernel's, loaded on the way, are taken away by the change of ring).\<close>

theorem user_mode_entered:
  fixes s :: "'a desc_st_scheme"
  assumes prog: "user_program code entry_point = Some (a, b)" and "old \<noteq> i"
  defines "base \<equiv> 0x00400000 + p_pid (process_table s i) * 0x100000"
    and "k \<equiv> p_kernel_stack (process_table s i) + 4096" and "n \<equiv> unat (b - a)"
    and "t \<equiv> process_setup_user_mode code (Some i) entry_point s"
  assumes stack: "20 \<le> unat k" and free: "apart 20 (k - 20) 4 (r_esp (cpu s) - 4)"
    and area: "apart n base n a" "apart n base 20 (k - 20)" "apart n base 4 (r_esp (cpu s) - 4)"
  shows "\<exists>u. context_switch old i t = Inr u \<and> cpu_cs u = 0x1B \<and>
    cpu u = \<lparr>r_eax = 0, r_ebx = 0, r_ecx = 0, r_edx = 0, r_esi = 0, r_edi = 0, r_ebp = 0, r_esp = base + 0x84000,
      r_ds = 0, r_es = 0, r_fs = 0, r_gs = 0, r_ss = 0x23, r_eip = base, r_eflags = 0x202,
      r_cr3 = r_cr3 (p_registers (process_table s i))\<rparr> \<and>
    (\<forall>j < n. mem u (base + of_nat j) = mem s (a + of_nat j))"
proof -
  note ready = setup_user_mode [OF prog, where s = s and i = i, folded base_def k_def t_def n_def]
  have out: "cpu (kprintk f g v) = cpu v" "cpu (kerror f g v) = cpu v" for f g and v :: "'a desc_st_scheme"
    by (simp_all add: kout_defs)
  have c: "cpu t = cpu s"
    by (simp add: t_def process_setup_user_mode_def copy_to_user_memory_def Let_def out upd_process_def split: option.split)
  define e where "e = r_esp (cpu s)"
  have "mem (save_context old i t) = write32 (mem t) (e - 4) ((r_eflags (cpu s) AND NOT 0x8D5) OR add_flags e 4)"
    by (simp add: save_context_def Let_def upd_process_def c e_def)
  then obtain x where mv: "mem (save_context old i t) = write32 (mem t) (e - 4) x" by blast
  define w where "w = base + 0x84000"
  define m where "m = copy_loop n base a 0 (mem s)"
  have fr: "read32 (mem (save_context old i t)) (k - 20 + o') = read32 (iret_frame k base w m) (k - 20 + o')"
    if "unat o' + 4 \<le> 20" for o'
    using apart_part [OF free that] by (simp add: mv ready(1) w_def m_def e_def)
  have words: "read32 (mem (save_context old i t)) (k - 20) = base" "read32 (mem (save_context old i t)) (k - 20 + 4) = 0x1B"
    "read32 (mem (save_context old i t)) (k - 20 + 8) = 0x202" "read32 (mem (save_context old i t)) (k - 20 + 12) = w"
    "read32 (mem (save_context old i t)) (k - 20 + 16) = 0x23"
    using fr [of 0] fr [of 4] fr [of 8] fr [of 12] fr [of 16] iret_frame_words [OF stack, of base w m] by simp_all
  have regs: "p_registers (process_table (save_context old i t) i) = (p_registers (process_table s i))
     \<lparr>r_esp := k - 20, r_eip := base,
       r_eax := 0, r_ebx := 0, r_ecx := 0, r_edx := 0, r_esi := 0, r_edi := 0, r_ebp := 0,
       r_ds := 0x23, r_es := 0x23, r_fs := 0x23, r_gs := 0x23, r_ss := 0x23, r_eflags := 0x202\<rparr>"
    using save_other [OF assms(2), of t] ready(2) by simp
  obtain u where u: "context_switch old i t = Inr u" "cpu_cs u = 0x1B" "mem u = mem (save_context old i t)"
    "cpu u = \<lparr>r_eax = 0, r_ebx = 0, r_ecx = 0, r_edx = 0, r_esi = 0, r_edi = 0, r_ebp = 0, r_esp = w,
      r_ds = 0, r_es = 0, r_fs = 0, r_gs = 0, r_ss = 0x23, r_eip = base, r_eflags = 0x202,
      r_cr3 = r_cr3 (p_registers (process_table s i))\<rparr>"
    using words by (simp add: context_switch_def load_context_def Let_def regs)
  have "mem u (base + of_nat j) = mem s (a + of_nat j)" if "j < n" for j
  proof -
    have "n < 2 ^ 32" unfolding n_def by (rule unat_lt32)
    then have "m (base + of_nat j) = mem s (a + of_nat j)"
      unfolding m_def by (rule copy_apart(1) [OF area(1) _ that])
    moreover have "iret_frame k base w m (base + of_nat j) = m (base + of_nat j)"
      by (rule iret_frame_outside [OF stack area(2) that])
    moreover have "write32 (mem t) (e - 4) x (base + of_nat j) = mem t (base + of_nat j)"
      by (rule write32_outside) (metis apart_neq area(3) e_def that)
    ultimately show ?thesis using u(3) by (simp add: mv ready(1) w_def m_def)
  qed
  then show ?thesis using u w_def by blast
qed

definition demo_code :: user_code where
  "demo_code = \<lparr>user_mode_test_1 = 0x101000, user_mode_test_2 = 0x101100, user_mode_test_1_asm = 0x102000,
     user_mode_test_2_asm = 0x102080, user_mode_test_2_asm_end = 0x102100\<rparr>"

theorem user_mode_entered_witness:
  "\<exists>(s :: kbd_st) u. context_switch 0 1 (process_setup_user_mode demo_code (Some 1) 0x101000 s) = Inr u \<and>
    cpu_cs u = 0x1B \<and> r_eip (cpu u) = 0x500000 \<and> r_esp (cpu u) = 0x584000 \<and> mem u 0x500000 = mem s 0x102000"
proof -
  define s where "s = upd_process 1 (\<lambda>p. p\<lparr>p_pid := 1, p_kernel_stack := 0x110000\<rparr>) (at_stack 0x90000)"
  have f: "p_pid (process_table s 1) = 1" "p_kernel_stack (process_table s 1) = 0x110000" "r_esp (cpu s) = 0x90000"
    by (simp_all add: s_def upd_process_def at_stack_fields)
  have prog: "user_program demo_code 0x101000 = Some (0x102000, 0x102080)"
    by (simp add: user_program_def demo_code_def)
  have "\<exists>u. context_switch 0 1 (process_setup_user_mode demo_code (Some 1) 0x101000 s) = Inr u \<and> cpu_cs u = 0x1B \<and>
    cpu u = \<lparr>r_eax = 0, r_ebx = 0, r_ecx = 0, r_edx = 0, r_esi = 0, r_edi = 0, r_ebp = 0, r_esp = 0x584000,
      r_ds = 0, r_es = 0, r_fs = 0, r_gs = 0, r_ss = 0x23, r_eip = 0x500000, r_eflags = 0x202,
      r_cr3 = r_cr3 (p_registers (process_table s 1))\<rparr> \<and>
    (\<forall>j < 128. mem u (0x500000 + of_nat j) = mem s (0x102000 + of_nat j))"
    using user_mode_entered [OF prog, of 0 1 s, unfolded f] by (simp add: apart_def)
  then obtain u where u: "context_switch 0 1 (process_setup_user_mode demo_code (Some 1) 0x101000 s) = Inr u"
    "cpu_cs u = 0x1B" "r_eip (cpu u) = 0x500000" "r_esp (cpu u) = 0x584000"
    "\<forall>j < 128. mem u (0x500000 + of_nat j) = mem s (0x102000 + of_nat j)" by auto
  have "mem u 0x500000 = mem s 0x102000" using u(5) [rule_format, of 0] by simp
  with u show ?thesis by blast
qed

end
