(* ===== verification/User_Programs.thy ===== *)
theory User_Programs
  imports Usermode_Theorems Exceptions
begin

text \<open>
  The programs of the user: the wrappers of \<^verbatim>\<open>include/userlib.h\<close> and the two test programs of
  \<^verbatim>\<open>src/kernel/user_test_code.asm\<close>, run in ring 3 as far as their registers, their stack and interrupt
  0x80 go, with the processor's part of that interrupt. Since the kernel takes the number of a call from EDI
  (see \<open>Usermode_Theorems\<close>), no call of a program is answered; the lemmas follow an unanswered call
  from ring 3 and back, and the properties say what becomes of the programs.
\<close>

section \<open>Interrupt 0x80 from ring 3\<close>

text \<open>The processor's part: the privilege of the gate is checked and the gate entered.\<close>

definition software_interrupt :: "nat \<Rightarrow> 'a desc_st_scheme \<Rightarrow> u32 + 'a desc_st_scheme" where
  "software_interrupt n s =
     (let cpl = unat (cpu_cs s AND 3)
      in case int_target cpl n s of
        None \<Rightarrow> Inl (if gate_dpl (idt s n) < cpl then 13 else 11)
      | Some offset \<Rightarrow> Inr (enter_gate n s))"

text \<open>\<^verbatim>\<open>int $0x80\<close> of a program. None: the gate leads to other code than the wrapper's at \<open>wrapper_at\<close>.\<close>

type_synonym 'a outcome = "(u32 + bool \<times> 'a) option"

definition int_0x80 :: "u32 \<Rightarrow> 'a sched_st_scheme \<Rightarrow> 'a sched_st_scheme outcome" where
  "int_0x80 wrapper_at s =
     (case software_interrupt 0x80 s of
        Inl vector \<Rightarrow> Some (Inl vector)
      | Inr s \<Rightarrow>
          if r_eip (cpu s) \<noteq> wrapper_at then None
          else Some (case syscall_wrapper s of
                 Inl vector \<Rightarrow> Inl vector
               | Inr (True, s) \<Rightarrow> Inr (True, s)
               | Inr (False, s) \<Rightarrow> Inr (False, interrupt_return s)))"

section \<open>The wrappers for programs\<close>

text \<open>\<^verbatim>\<open>userlib.h\<close>: the operands are in registers the wrapper does not name, of which the state says nothing. A
  wrapper's result is the program's EAX where it returns.\<close>

definition set_regs :: "u32 \<Rightarrow> u32 \<Rightarrow> u32 \<Rightarrow> u32 \<Rightarrow> 'a desc_st_scheme \<Rightarrow> 'a desc_st_scheme" where
  "set_regs a b c d s = s\<lparr>cpu := (cpu s)\<lparr>r_eax := a, r_ebx := b, r_ecx := c, r_edx := d\<rparr>\<rparr>"

definition user_exit :: "u32 \<Rightarrow> u32 \<Rightarrow> 'a sched_st_scheme \<Rightarrow> 'a sched_st_scheme outcome" where
  "user_exit wrapper_at status s = int_0x80 wrapper_at (s\<lparr>cpu := (cpu s)\<lparr>r_eax := 1, r_ebx := status\<rparr>\<rparr>)"

definition user_write :: "u32 \<Rightarrow> u32 \<Rightarrow> u32 \<Rightarrow> u32 \<Rightarrow> 'a sched_st_scheme \<Rightarrow> 'a sched_st_scheme outcome" where
  "user_write wrapper_at fd buf len s = int_0x80 wrapper_at (set_regs 2 fd buf len s)"

definition user_read :: "u32 \<Rightarrow> u32 \<Rightarrow> u32 \<Rightarrow> u32 \<Rightarrow> 'a sched_st_scheme \<Rightarrow> 'a sched_st_scheme outcome" where
  "user_read wrapper_at fd buf len s = int_0x80 wrapper_at (set_regs 3 fd buf len s)"

definition user_yield :: "u32 \<Rightarrow> 'a sched_st_scheme \<Rightarrow> 'a sched_st_scheme outcome" where
  "user_yield wrapper_at s = int_0x80 wrapper_at (s\<lparr>cpu := (cpu s)\<lparr>r_eax := 4\<rparr>\<rparr>)"

partial_function (option) user_strlen_loop :: "bytemem \<Rightarrow> u32 \<Rightarrow> u32 \<Rightarrow> u32 option" where
  "user_strlen_loop m str len = (if m (str + len) \<noteq> 0 then user_strlen_loop m str (len + 1) else Some len)"

definition user_strlen :: "u32 \<Rightarrow> 'a memory_st_scheme \<Rightarrow> u32 option" where
  "user_strlen str s = user_strlen_loop (mem s) str 0"

definition user_print :: "u32 \<Rightarrow> u32 \<Rightarrow> 'a sched_st_scheme \<Rightarrow> 'a sched_st_scheme outcome" where
  "user_print wrapper_at str s =
     (case user_strlen str s of None \<Rightarrow> None | Some len \<Rightarrow> user_write wrapper_at 1 str len s)"

section \<open>The test programs\<close>

text \<open>\<^verbatim>\<open>user_mode_test_1_asm\<close> and \<^verbatim>\<open>user_mode_test_2_asm\<close>, which differ in one word of the message they push. A
  program is run as the sequence of its instructions; the arithmetic flags and the position in the code are not
  kept in the registers. The message is pushed from its end.\<close>

definition user_test_start :: "u32 \<Rightarrow> u32 \<Rightarrow> 'a sched_st_scheme \<Rightarrow> 'a sched_st_scheme outcome" where
  "user_test_start wrapper_at digit s =
     (let s = s\<lparr>cpu := (cpu s)\<lparr>r_edi := 0\<rparr>\<rparr>;
          s = push32 0x0A6E7572 s;
          s = push32 0x20676E69 s;
          s = push32 0x6E6E7572 s;
          s = push32 digit s;
          s = push32 0x65636F72 s;
          s = push32 0x70207265 s;
          s = push32 0x73552020 s;
          s = s\<lparr>cpu := (cpu s)\<lparr>r_ecx := r_esp (cpu s) + 2, r_edx := 23, r_eax := 2, r_ebx := 1\<rparr>\<rparr>
      in case int_0x80 wrapper_at s of
           Some (Inr (False, s)) \<Rightarrow> Some (Inr (False, drop_stack 28 s))
         | r \<Rightarrow> r)"

text \<open>One round of the loop up to its last comparison; \<open>user_test_more\<close> is that comparison.\<close>

definition user_test_round :: "u32 \<Rightarrow> 'a sched_st_scheme \<Rightarrow> 'a sched_st_scheme outcome" where
  "user_test_round wrapper_at s =
     (let edi = r_edi (cpu s) + 1;
          s = s\<lparr>cpu := (cpu s)\<lparr>r_edi := edi, r_eax := edi div 1000000, r_edx := edi mod 1000000, r_ecx := 1000000\<rparr>\<rparr>
      in if r_edx (cpu s) \<noteq> 0 then Some (Inr (False, s))
         else int_0x80 wrapper_at (s\<lparr>cpu := (cpu s)\<lparr>r_eax := 4\<rparr>\<rparr>))"

definition user_test_more :: "'a desc_st_scheme \<Rightarrow> bool" where
  "user_test_more s \<longleftrightarrow> r_edi (cpu s) <s 50000000"

text \<open>The end: \<^verbatim>\<open>exit\<close>, and should that return, \<^verbatim>\<open>hlt\<close>, a privileged instruction.\<close>

definition user_test_exit :: "u32 \<Rightarrow> 'a sched_st_scheme \<Rightarrow> 'a sched_st_scheme outcome" where
  "user_test_exit wrapper_at s =
     (case int_0x80 wrapper_at (s\<lparr>cpu := (cpu s)\<lparr>r_eax := 1, r_ebx := 0\<rparr>\<rparr>) of
        Some (Inr (False, s)) \<Rightarrow> Some (Inl 13)
      | r \<Rightarrow> r)"

text \<open>At most \<open>n\<close> rounds: \<open>Inr (False, s)\<close> with \<open>user_test_more s\<close> is a program still in its loop.\<close>

fun user_test_loop :: "u32 \<Rightarrow> nat \<Rightarrow> 'a sched_st_scheme \<Rightarrow> 'a sched_st_scheme outcome" where
  "user_test_loop wrapper_at 0 s = Some (Inr (False, s))"
| "user_test_loop wrapper_at (Suc n) s =
     (case user_test_round wrapper_at s of
        Some (Inr (False, s)) \<Rightarrow> if user_test_more s then user_test_loop wrapper_at n s else user_test_exit wrapper_at s
      | r \<Rightarrow> r)"

definition user_test :: "u32 \<Rightarrow> u32 \<Rightarrow> nat \<Rightarrow> 'a sched_st_scheme \<Rightarrow> 'a sched_st_scheme outcome" where
  "user_test wrapper_at digit n s =
     (case user_test_start wrapper_at digit s of
        Some (Inr (False, s)) \<Rightarrow> user_test_loop wrapper_at n s
      | r \<Rightarrow> r)"

section \<open>A system call with an unknown number\<close>

text \<open>What the dispatcher prints for it.\<close>

definition unknown_text :: "u32 \<Rightarrow> u32 \<Rightarrow> u32 \<Rightarrow> u32 \<Rightarrow> console \<Rightarrow> console" where
  "unknown_text num a1 a2 a3 c =
     printk_warn ''Unknown syscall: %d'' [VInt num]
       (snd (the (printk (''[SYSCALL] num=%d (EAX=0x%x) arg1=0x%x arg2=0x%x arg3=0x%x'' @ [CHR 0x0A])
          [VInt num, VInt num, VInt a1, VInt a2, VInt a3] c)))"

definition segments_low :: "registers_t \<Rightarrow> registers_t" where
  "segments_low c = c\<lparr>r_ds := r_ds c AND 0xFFFF, r_es := r_es c AND 0xFFFF, r_fs := r_fs c AND 0xFFFF, r_gs := r_gs c AND 0xFFFF\<rparr>"

lemma unknown_syscall_effect:
  fixes s :: "'a sched_st_scheme"
  assumes e: "64 \<le> unat (r_esp (cpu s))" and n: "r_edi (cpu s) \<notin> {1, 2, 3, 4}"
  defines "c \<equiv> cpu s" and "e \<equiv> r_esp (cpu s)"
  shows "\<exists>m. syscall_wrapper s = Inr (False, s\<lparr>con := unknown_text (r_edi c) (r_esi c) (r_ebp c) (e - 16) (con s), mem := m,
      cpu := (segments_low c)\<lparr>r_edi := 0xFFFFFFFF\<rparr>\<rparr>) \<and>
    (\<forall>k. unat e + unat k + 4 \<le> 2 ^ 32 \<longrightarrow> read32 m (e + k) = read32 (mem s) (e + k))"
proof -
  define v where "v = push32 (e - 48) (syscall_entry s)"
  have b: "64 \<le> unat e" using assms(1) by (simp add: e_def)
  have vs: "v = s\<lparr>mem := write32 (mem (syscall_entry s)) (e - 52) (e - 48),
      cpu := c\<lparr>r_esp := e - 52, r_ds := 0x10, r_es := 0x10, r_fs := 0x10, r_gs := 0x10\<rparr>\<rparr>"
    by (simp add: v_def c_def syscall_entry_def push32_def pusha_def load_data_segments_def Let_def e_def)
  then have m: "mem v = write32 (mem (syscall_entry s)) (e - 52) (e - 48)" by simp
  note w = syscall_entry_words [OF e, of "e - 48", folded e_def, folded m, folded c_def]
  define t where "t = v\<lparr>con := unknown_text (r_edi c) (r_esi c) (r_ebp c) (e - 16) (con s), mem := write32 (mem v) (e - 48) 0xFFFFFFFF\<rparr>"
  have con: "con v = con s" by (simp add: vs)
  have t: "syscall_handler (e - 48) v = Inr (False, t)"
    using n by (simp add: syscall_handler_def Let_def below_frame w syscall_numbers set_result_def kout_defs t_def
        unknown_text_def con flip: c_def)
  have x: "read32 (mem t) (e - k) = read32 (mem v) (e - k)" if "4 \<le> unat k" "unat k \<le> 44" for k
  proof -
    have "apart 4 (e - 48) 4 (e - k)" by (rule apart_below) (use that b in simp_all)
    then show ?thesis by (simp add: t_def)
  qed
  define d where "d = drop_stack 4 t"
  have d: "r_esp (cpu d) = e - 48" "mem d = mem t" "cpu d = (cpu v)\<lparr>r_esp := e - 48\<rparr>" "read32 (mem t) (e - 48) = 0xFFFFFFFF"
    by (simp_all add: d_def drop_stack_def t_def vs)
  have fr: "syscall_leave d = d\<lparr>cpu := cpu (syscall_leave d)\<rparr>"
    by (simp add: syscall_leave_def popa_def drop_stack_def Let_def)
  have "cpu (syscall_leave d) = (segments_low c)\<lparr>r_edi := 0xFFFFFFFF\<rparr>"
    by (simp add: syscall_leave_effect stack_word_def d(1-3) below_frame x w d(4)) (simp add: vs segments_low_def e_def c_def)
  then have "syscall_leave d = s\<lparr>con := unknown_text (r_edi c) (r_esi c) (r_ebp c) (e - 16) (con s), mem := mem t,
      cpu := (segments_low c)\<lparr>r_edi := 0xFFFFFFFF\<rparr>\<rparr>"
    by (subst fr) (simp add: d_def drop_stack_def t_def vs)
  moreover have "syscall_wrapper s = Inr (False, syscall_leave d)"
    using t by (simp add: syscall_wrapper_def Let_def syscall_entry_effect e_def [symmetric] v_def d_def)
  moreover have "read32 (mem t) (e + k) = read32 (mem s) (e + k)" if "unat e + unat k + 4 \<le> 2 ^ 32" for k
  proof -
    have a: "apart 4 (e - l) 4 (e + k)" if "4 \<le> unat l" "unat l \<le> unat e" for l
      by (rule apart_above) (use that \<open>unat e + unat k + 4 \<le> 2 ^ 32\<close> in simp_all)
    show ?thesis unfolding t_def using b by (simp add: m syscall_entry_effect e_def [symmetric] a)
  qed
  ultimately show ?thesis by (intro exI [of _ "mem t"]) simp
qed

section \<open>The same from ring 3\<close>

text \<open>A program in ring 3 whose interrupt 0x80 leads to the wrapper, with room on its kernel stack.\<close>

definition user_ready :: "u32 \<Rightarrow> 'a desc_st_scheme \<Rightarrow> bool" where
  "user_ready wrapper_at s \<longleftrightarrow> cpu_cs s = 0x1B \<and> int_target 3 0x80 s = Some wrapper_at \<and> 84 \<le> unat (esp0 (kernel_tss s))"

lemma int_target_idt: "idt t = idt s \<Longrightarrow> int_target cpl n t = int_target cpl n s"
  by (simp add: int_target_def)

lemma int_target_offset: "int_target cpl n s = Some w \<Longrightarrow> gate_offset (idt s n) = w"
  by (simp add: int_target_def split: if_splits)

lemma user_ready_cong:
  "cpu_cs t = cpu_cs s \<Longrightarrow> idt t = idt s \<Longrightarrow> kernel_tss t = kernel_tss s \<Longrightarrow> user_ready w t \<longleftrightarrow> user_ready w s"
  by (simp add: user_ready_def int_target_def)

lemma user_ready_upd [simp]:
  "user_ready w (s\<lparr>con := c\<rparr>) = user_ready w s" "user_ready w (s\<lparr>mem := m\<rparr>) = user_ready w s"
  "user_ready w (s\<lparr>cpu := r\<rparr>) = user_ready w s" "user_ready w (s\<lparr>interrupt_flag := b\<rparr>) = user_ready w s"
  "user_ready w (drop_stack k s) = user_ready w s" "user_ready w (push32 v s) = user_ready w s"
  "user_ready w (set_regs x y z d s) = user_ready w s"
  by (rule user_ready_cong; simp add: drop_stack_def push32_def Let_def set_regs_def)+

lemma int_0x80_unknown:
  fixes s :: "'a sched_st_scheme"
  assumes r: "user_ready w s" and n: "r_edi (cpu s) \<notin> {1, 2, 3, 4}"
  defines "c \<equiv> cpu s" and "e \<equiv> esp0 (kernel_tss s)"
  shows "\<exists>m. int_0x80 w s = Some (Inr (False, s\<lparr>con := unknown_text (r_edi c) (r_esi c) (r_ebp c) (e - 36) (con s), mem := m,
      interrupt_flag := bit (r_eflags c) 9, cpu := (segments_low c)\<lparr>r_edi := 0xFFFFFFFF, r_ss := r_ss c AND 0xFFFF\<rparr>\<rparr>))"
proof -
  have cs: "cpu_cs s = 0x1B" and tgt: "int_target 3 0x80 s = Some w" and b: "84 \<le> unat e"
    using r by (simp_all add: user_ready_def e_def)
  define m1 where "m1 = write32 (write32 (write32 (write32 (write32 (mem s) (e - 4) (r_ss c)) (e - 8) (r_esp c)) (e - 12) (r_eflags c))
      (e - 16) 0x1B) (e - 20) (r_eip c)"
  define v where "v = s\<lparr>mem := m1, cpu := c\<lparr>r_esp := e - 20, r_ss := ss0 (kernel_tss s), r_eip := w,
      r_eflags := r_eflags c AND NOT 0x200\<rparr>, cpu_cs := ucast (selector (idt s 0x80)), interrupt_flag := False\<rparr>"
  have v: "software_interrupt 0x80 s = Inr v"
    using tgt int_target_offset [OF tgt]
    by (simp add: software_interrupt_def enter_gate_def cs Let_def push32_def v_def m1_def c_def e_def)
  have w: "read32 m1 (e - 20) = r_eip c" "read32 m1 (e - 16) = 0x1B" "read32 m1 (e - 12) = r_eflags c"
    "read32 m1 (e - 8) = r_esp c" "read32 m1 (e - 4) = r_ss c"
    using b by (simp_all add: m1_def apart_below)
  have e20: "unat (e - 20) = unat e - 20" using b by (simp add: unat_sub word_le_nat_alt)
  have f: "cpu v = c\<lparr>r_esp := e - 20, r_ss := ss0 (kernel_tss s), r_eip := w, r_eflags := r_eflags c AND NOT 0x200\<rparr>"
    "con v = con s" "mem v = m1" by (simp_all add: v_def)
  have "64 \<le> unat (r_esp (cpu v))" "r_edi (cpu v) \<notin> {1, 2, 3, 4}" using b n e20 by (simp_all add: f c_def)
  from unknown_syscall_effect [OF this] obtain m where
    m: "syscall_wrapper v = Inr (False, v\<lparr>con := unknown_text (r_edi c) (r_esi c) (r_ebp c) (e - 36) (con s), mem := m,
      cpu := (segments_low (cpu v))\<lparr>r_edi := 0xFFFFFFFF\<rparr>\<rparr>)"
    "\<forall>k. unat (e - 20) + unat k + 4 \<le> 2 ^ 32 \<longrightarrow> read32 m (e - 20 + k) = read32 m1 (e - 20 + k)"
    by (elim exE conjE) (simp add: f)
  have "read32 m (e - 20 + k) = read32 m1 (e - 20 + k)" if "unat k \<le> 16" for k
    by (rule m(2) [rule_format]) (use that e20 b unat_lt32 [of e] in simp)
  from this [of 0] this [of 4] this [of 8] this [of 12] this [of 16]
  have k: "read32 m (e - 20) = r_eip c" "read32 m (e - 16) = 0x1B" "read32 m (e - 12) = r_eflags c"
    "read32 m (e - 8) = r_esp c" "read32 m (e - 4) = r_ss c" by (simp_all add: w)
  define x where "x = unknown_text (r_edi c) (r_esi c) (r_ebp c) (e - 36) (con s)"
  define u where "u = v\<lparr>con := x, mem := m, cpu := (segments_low (cpu v))\<lparr>r_edi := 0xFFFFFFFF\<rparr>\<rparr>"
  have st: "stack_word k u = read32 m (e - 20 + k)" for k by (simp add: u_def stack_word_def f(1) segments_low_def)
  have words: "stack_word 0 u = r_eip c" "stack_word 4 u = 0x1B" "stack_word 8 u = r_eflags c" "stack_word 12 u = r_esp c"
    "stack_word 16 u = r_ss c" unfolding st by (simp_all add: k)
  have "interrupt_return u = u\<lparr>cpu := (cpu u)\<lparr>r_eip := r_eip c, r_eflags := r_eflags c, r_esp := r_esp c, r_ss := r_ss c AND 0xFFFF\<rparr>,
      cpu_cs := 0x1B, interrupt_flag := bit (r_eflags c) 9\<rparr>"
    by (simp add: interrupt_return_def words Let_def)
  also have "\<dots> = s\<lparr>con := x, mem := m, interrupt_flag := bit (r_eflags c) 9,
      cpu := (segments_low c)\<lparr>r_edi := 0xFFFFFFFF, r_ss := r_ss c AND 0xFFFF\<rparr>\<rparr>"
    using cs by (simp add: u_def v_def segments_low_def)
  finally have "int_0x80 w s = Some (Inr (False, \<dots>))"
    unfolding int_0x80_def v sum.case m(1) u_def x_def by (simp add: f(1))
  then show ?thesis unfolding x_def by blast
qed

section \<open>The loop of the test programs\<close>

text \<open>Where a program \<open>s\<close> is after some unanswered calls: in ring 3 still, EDI holding the error code, its
  process untouched, and \<open>c\<close> on the screen.\<close>

definition still_there :: "u32 \<Rightarrow> 'a sched_st_scheme \<Rightarrow> console \<Rightarrow> 'a sched_st_scheme \<Rightarrow> bool" where
  "still_there w s c u \<longleftrightarrow> user_ready w u \<and> r_edi (cpu u) = 0xFFFFFFFF \<and> r_esi (cpu u) = r_esi (cpu s) \<and>
     r_ebp (cpu u) = r_ebp (cpu s) \<and> esp0 (kernel_tss u) = esp0 (kernel_tss s) \<and> process_table u = process_table s \<and>
     current_process u = current_process s \<and> io_log u = io_log s \<and> con u = c"

text \<open>The screen after another of those calls.\<close>

definition complaint :: "'a desc_st_scheme \<Rightarrow> console \<Rightarrow> console" where
  "complaint s = unknown_text 0 (r_esi (cpu s)) (r_ebp (cpu s)) (esp0 (kernel_tss s) - 36)"

lemma call_0:
  fixes s :: "'a sched_st_scheme"
  assumes "user_ready w s" "r_edi (cpu s) = 0"
  shows "\<exists>u. int_0x80 w s = Some (Inr (False, u)) \<and> still_there w s (complaint s (con s)) u \<and> r_eax (cpu u) = r_eax (cpu s)"
proof -
  obtain m where m: "int_0x80 w s = Some (Inr (False, s\<lparr>con := complaint s (con s), mem := m, interrupt_flag := bit (r_eflags (cpu s)) 9,
      cpu := (segments_low (cpu s))\<lparr>r_edi := 0xFFFFFFFF, r_ss := r_ss (cpu s) AND 0xFFFF\<rparr>\<rparr>))"
    using int_0x80_unknown [OF assms(1)] assms(2) by (auto simp: complaint_def)
  then show ?thesis
    using assms(1) by (simp add: still_there_def segments_low_def)
qed

lemma round_again:
  fixes s :: "'a sched_st_scheme"
  assumes "still_there w s c u"
  shows "\<exists>v. user_test_round w u = Some (Inr (False, v)) \<and> still_there w s (complaint s c) v \<and> user_test_more v"
proof -
  define t where "t = u\<lparr>cpu := (cpu u)\<lparr>r_edi := 0, r_edx := 0, r_ecx := 1000000, r_eax := 4\<rparr>\<rparr>"
  have "user_ready w t" "r_edi (cpu t) = 0" using assms by (simp_all add: t_def still_there_def)
  from call_0 [OF this] obtain v where v: "int_0x80 w t = Some (Inr (False, v))" "still_there w t (complaint t (con t)) v" by blast
  have e: "r_edi (cpu u) + 1 = 0" using assms by (simp add: still_there_def)
  have "user_test_round w u = int_0x80 w t" unfolding user_test_round_def Let_def e t_def by simp
  moreover have "complaint t (con t) = complaint s c" using assms by (simp add: complaint_def t_def still_there_def)
  ultimately show ?thesis using v assms by (simp add: still_there_def t_def user_test_more_def)
qed

lemma loop_again:
  assumes "still_there w s c u"
  shows "\<exists>v. user_test_loop w n u = Some (Inr (False, v)) \<and> still_there w s ((complaint s ^^ n) c) v"
  using assms
proof (induction n arbitrary: c u)
  case 0
  then show ?case by simp
next
  case (Suc n)
  obtain v where v: "user_test_round w u = Some (Inr (False, v))" "still_there w s (complaint s c) v" "user_test_more v"
    using round_again [OF Suc.prems] by blast
  then show ?case using Suc.IH [OF v(2)] by (simp add: funpow_swap1)
qed

lemma start_unanswered:
  fixes s :: "'a sched_st_scheme"
  assumes "user_ready w s"
  shows "\<exists>u. user_test_start w digit s = Some (Inr (False, u)) \<and> still_there w s (complaint s (con s)) u"
proof -
  have "\<exists>t. user_test_start w digit s = (case int_0x80 w t of
        Some (Inr (False, s)) \<Rightarrow> Some (Inr (False, drop_stack 28 s))
      | r \<Rightarrow> r) \<and> user_ready w t \<and> r_edi (cpu t) = 0 \<and> r_esi (cpu t) = r_esi (cpu s) \<and> r_ebp (cpu t) = r_ebp (cpu s) \<and>
      kernel_tss t = kernel_tss s \<and> process_table t = process_table s \<and> current_process t = current_process s \<and> io_log t = io_log s \<and> con t = con s"
    unfolding user_test_start_def Let_def
    by (rule exI, rule conjI, rule refl) (simp add: assms push32_def Let_def)
  then obtain t where t: "user_test_start w digit s = (case int_0x80 w t of
        Some (Inr (False, s)) \<Rightarrow> Some (Inr (False, drop_stack 28 s))
      | r \<Rightarrow> r)" "user_ready w t" "r_edi (cpu t) = 0" "r_esi (cpu t) = r_esi (cpu s)" "r_ebp (cpu t) = r_ebp (cpu s)"
      "kernel_tss t = kernel_tss s" "process_table t = process_table s" "current_process t = current_process s" "io_log t = io_log s" "con t = con s"
    by (elim exE conjE)
  obtain u where u: "int_0x80 w t = Some (Inr (False, u))" "still_there w t (complaint t (con t)) u"
    using call_0 [OF t(2,3)] by blast
  then show ?thesis unfolding t(1) by (simp add: still_there_def complaint_def t(4-10)) (simp add: drop_stack_def)
qed

lemma user_test_stays:
  assumes "user_ready w s"
  shows "\<exists>u. user_test w digit n s = Some (Inr (False, u)) \<and> r_edi (cpu u) = 0xFFFFFFFF \<and> user_test_more u \<and>
    con u = (complaint s ^^ Suc n) (con s) \<and> process_table u = process_table s \<and> current_process u = current_process s \<and>
    io_log u = io_log s"
proof -
  obtain t where t: "user_test_start w digit s = Some (Inr (False, t))" "still_there w s (complaint s (con s)) t"
    using start_unanswered [OF assms] by blast
  obtain u where u: "user_test_loop w n t = Some (Inr (False, u))" "still_there w s ((complaint s ^^ n) (complaint s (con s))) u"
    using loop_again [OF t(2)] by blast
  then show ?thesis using t(1) by (simp add: user_test_def still_there_def user_test_more_def funpow_swap1)
qed

section \<open>Properties\<close>

text \<open>Fact (error): a test program neither prints its message nor ever ends: its calls are answered as unknown, and since each
  puts the error code into EDI, which is also its counter, the program is in its loop after any number of rounds, having
  caused one complaint on the screen for the message and one for every round; its process is as it was, and
  nothing was sent to a port.\<close>

theorem user_program_never_ends:
  assumes "user_ready w s"
  shows "\<exists>u. user_test w digit n s = Some (Inr (False, u)) \<and> r_edi (cpu u) = 0xFFFFFFFF \<and> user_test_more u \<and>
    con u = (complaint s ^^ Suc n) (con s) \<and> process_table u = process_table s \<and> current_process u = current_process s \<and>
    io_log u = io_log s"
  by (rule user_test_stays [OF assms])

text \<open>Fact (error): the call \<open>write\<close> of the library for programs returns 2 whatever it is asked, and writes nothing but the
  complaint, unless the compiler happened to keep the number of a call in EDI.\<close>

theorem user_write_returns_two:
  fixes s :: "'a sched_st_scheme"
  assumes "user_ready w s" "r_edi (cpu s) \<notin> {SYSCALL_EXIT, SYSCALL_WRITE, SYSCALL_READ, SYSCALL_YIELD}"
  shows "\<exists>u. user_write w fd buf len s = Some (Inr (False, u)) \<and> r_eax (cpu u) = 2 \<and>
    con u = unknown_text (r_edi (cpu s)) (r_esi (cpu s)) (r_ebp (cpu s)) (esp0 (kernel_tss s) - 36) (con s)"
proof -
  define t where "t = set_regs 2 fd buf len s"
  have "user_ready w t" "r_edi (cpu t) \<notin> {1, 2, 3, 4}"
    using assms by (simp_all add: t_def set_regs_def syscall_numbers)
  from int_0x80_unknown [OF this] show ?thesis
    by (auto simp: user_write_def t_def set_regs_def segments_low_def)
qed

definition in_ring_3 :: kbd_st where
  "in_ring_3 = (syscall_init 0x101000 (idt_init of_nat (at_stack 0x584000)))\<lparr>
     cpu := zero_registers\<lparr>r_esp := 0x584000\<rparr>, cpu_cs := 0x1B, kernel_tss := zero_tss\<lparr>esp0 := 0x90000\<rparr>\<rparr>"

lemma in_ring_3_ready: "user_ready 0x101000 in_ring_3" "r_edi (cpu in_ring_3) = 0"
proof -
  have "int_target 3 0x80 (syscall_init 0x101000 (idt_init of_nat (at_stack 0x584000))) = Some 0x101000"
    using syscall_targets [of "0x80" "0x101000" of_nat "at_stack 0x584000"] by simp
  then show "user_ready 0x101000 in_ring_3" "r_edi (cpu in_ring_3) = 0"
    by (simp_all add: in_ring_3_def user_ready_def int_target_def zero_registers_def split: if_splits)
qed

theorem user_program_never_ends_witness:
  "\<exists>u. user_test 0x101000 0x20317373 1000 in_ring_3 = Some (Inr (False, u)) \<and> user_test_more u \<and> process_table u = process_table in_ring_3"
  using user_program_never_ends [OF in_ring_3_ready(1)] by blast

theorem user_write_returns_two_witness:
  "\<exists>u. user_write 0x101000 1 0x500010 5 in_ring_3 = Some (Inr (False, u)) \<and> r_eax (cpu u) = 2"
  using user_write_returns_two [OF in_ring_3_ready(1), of 1 "0x500010" 5] by (auto simp: in_ring_3_ready(2) syscall_numbers)

end
