(* ===== verification/Shell.thy ===== *)
theory Shell
  imports Usermode_Theorems
begin

text \<open>
  The shell, \<^verbatim>\<open>src/kernel/shell.c\<close>: reading a command line, finding its command, and the
  commands. A string argument is the list of its bytes before the terminating zero, \<open>None\<close> the null
  pointer. A command's result is \<open>None\<close> where it never returns, a vector where the
  processor faults, and otherwise the state and whether the processor is on another process.
\<close>

section \<open>State, parameters and results\<close>

text \<open>\<open>paging_enabled\<close> is the static variable of \<open>cmd_paging\<close>.\<close>

record shell_st = kbd_st +
  paging_enabled :: bool

text \<open>The environment: the interrupts that end a \<^verbatim>\<open>hlt\<close>, the addresses the linker gives, and the bytes
  of an uninitialised local.\<close>

record 's shell_env =
  sh_hlt :: "'s \<Rightarrow> 's"
  sh_code :: user_code
  sh_test_process_1 :: u32
  sh_test_process_2 :: u32
  sh_cmd_paging :: u32
  sh_junk :: memory_stats_t

type_synonym 's run = "(u32 + bool \<times> 's) option"

definition returns :: "'s \<Rightarrow> 's run" where "returns s = Some (Inr (False, s))"

definition MAX_COMMAND_LENGTH :: int where "MAX_COMMAND_LENGTH = 256"

section \<open>Strings\<close>

fun strcmp :: "string \<Rightarrow> string \<Rightarrow> int" where
  "strcmp [] [] = 0"
| "strcmp [] (b # bs) = - of_char b"
| "strcmp (a # as) [] = of_char a"
| "strcmp (a # as) (b # bs) = (if a = b then strcmp as bs else of_char a - of_char b)"

fun strncmp :: "string \<Rightarrow> string \<Rightarrow> nat \<Rightarrow> int" where
  "strncmp str1 str2 0 = 0"
| "strncmp [] [] (Suc n) = 0"
| "strncmp [] (b # bs) (Suc n) = - of_char b"
| "strncmp (a # as) [] (Suc n) = of_char a"
| "strncmp (a # as) (b # bs) (Suc n) = (if a = b then strncmp as bs n else of_char a - of_char b)"

fun strchr :: "string \<Rightarrow> char \<Rightarrow> string option" where
  "strchr [] c = None"
| "strchr (a # as) c = (if a = c then Some (a # as) else strchr as c)"

section \<open>Output\<close>

text \<open>A \<open>printk\<close> of one line without arguments, and several of them.\<close>

definition kputs :: "string \<Rightarrow> 'a kout_scheme \<Rightarrow> 'a kout_scheme" where
  "kputs line = kprintk (line @ [CHR 0x0A]) []"

definition say_lines :: "string list \<Rightarrow> 'a kout_scheme \<Rightarrow> 'a kout_scheme" where
  "say_lines = fold kputs"

text \<open>The rule of box-drawing characters and the check mark, in the bytes of their UTF-8 encoding.\<close>

definition box_rule :: string where
  "box_rule = concat (replicate 59 [CHR 0xE2, CHR 0x95, CHR 0x90])"

definition check_mark :: string where "check_mark = [CHR 0xE2, CHR 0x9C, CHR 0x93]"

definition quoted :: "string \<Rightarrow> string" where "quoted w = [CHR 0x27] @ w @ [CHR 0x27]"

definition shell_init :: "'a kout_scheme \<Rightarrow> 'a kout_scheme" where
  "shell_init s =
     (let s = kprintk [CHR 0x0A] [] s;
          s = set_color VGA_COLOR_LIGHT_GREEN VGA_COLOR_BLACK s;
          s = set_color VGA_COLOR_WHITE VGA_COLOR_BLACK s;
          s = kprintk [CHR 0x0A] [] s;
          s = kinfo ''Keyboard ready - you should see characters as you type'' [] s
      in kprintk [CHR 0x0A] [] s)"

definition shell_prompt :: "'a kout_scheme \<Rightarrow> 'a kout_scheme" where
  "shell_prompt s =
     (let s = kprintk ''aether'' [] (set_color VGA_COLOR_LIGHT_CYAN VGA_COLOR_BLACK s);
          s = kprintk '':'' [] (set_color VGA_COLOR_WHITE VGA_COLOR_BLACK s);
          s = kprintk ''/'' [] (set_color VGA_COLOR_LIGHT_BLUE VGA_COLOR_BLACK s)
      in kprintk ''$ '' [] (set_color VGA_COLOR_WHITE VGA_COLOR_BLACK s))"

section \<open>The commands\<close>

definition cmd_help :: "'a kout_scheme \<Rightarrow> 'a kout_scheme" where
  "cmd_help = say_lines
     [''Available commands:'',
      ''  help     - Show this help message'',
      ''  clear    - Clear the screen'',
      ''  sysinfo  - Display system information'',
      ''  meminfo  - Display memory information'',
      ''  uptime   - Show system uptime'',
      ''  echo     - Echo text to screen'',
      ''  test     - Run various tests'',
      ''  paging   - Virtual memory control (enable/status/test)'',
      ''  ps       - Process management (list/info/current)'',
      ''  sched    - Scheduler control (start/stop/stats)'',
      ''  usermode - User mode (ring 3) control'',
      ''  exit     - Halt the system'',
      [CHR 0x0A] @ ''Function Keys:'',
      ''  F1       - System info'',
      ''  F2       - Memory info'',
      ''  F3       - Timer info'']"

definition cmd_clear :: "'a kout_scheme \<Rightarrow> 'a kout_scheme" where
  "cmd_clear s = s\<lparr>con := console_clear (con s)\<rparr>"

definition cmd_meminfo :: "memory_stats_t \<Rightarrow> 'a memory_st_scheme \<Rightarrow> 'a memory_st_scheme option" where
  "cmd_meminfo junk s = do {
     s \<leftarrow> memory_print_stats junk s;
     let s = kputs ([CHR 0x0A] @ ''Memory Test - Allocating and freeing blocks:'') s;
     (ptr1, s) \<leftarrow> kmalloc 1024 s;
     (ptr2, s) \<leftarrow> kmalloc 2048 s;
     (ptr3, s) \<leftarrow> kmalloc 512 s;
     let s = kprintk (''  Allocated: ptr1=%p (1KB), ptr2=%p (2KB), ptr3=%p (512B)'' @ [CHR 0x0A])
               [VInt ptr1, VInt ptr2, VInt ptr3] s;
     let s = kfree ptr2 s;
     let s = kputs ''  Freed ptr2'' s;
     (ptr4, s) \<leftarrow> kmalloc 1500 s;
     let s = kprintk (''  Allocated: ptr4=%p (1.5KB)'' @ [CHR 0x0A]) [VInt ptr4] s;
     let s = kfree ptr1 s;
     let s = kfree ptr3 s;
     let s = kfree ptr4 s;
     Some (kputs ''  Freed remaining blocks'' s) }"

definition cmd_sysinfo :: "'a timer_st_scheme \<Rightarrow> 'a timer_st_scheme" where
  "cmd_sysinfo s =
     (let s = say_lines
            [''System Information:'',
             ''  OS:          Aether OS v0.1.0'',
             ''  Architecture: i386 (32-bit)'',
             ''  Bootloader:  GRUB (Multiboot v1)'',
             ''  CPU Mode:    Protected Mode''] s;
          s = kprintk (''  Memory:      %u MB total'' @ [CHR 0x0A]) [VInt (memory_get_total div (1024 * 1024))] s;
          s = kputs ''  Interrupts:  Enabled (PIC initialized)'' s;
          s = kprintk (''  Timer:       PIT at %u Hz'' @ [CHR 0x0A]) [VInt (timer_get_frequency s)] s
      in kputs ''  Keyboard:    PS/2 driver active'' s)"

definition cmd_uptime :: "'a timer_st_scheme \<Rightarrow> 'a timer_st_scheme option" where
  "cmd_uptime s = do {
     uptime_sec \<leftarrow> timer_get_uptime_seconds s;
     let hours = uptime_sec div 3600;
     let minutes = (uptime_sec mod 3600) div 60;
     let seconds = uptime_sec mod 60;
     Some (kprintk (''System uptime: %u:%02u:%02u (%u seconds, %u ticks)'' @ [CHR 0x0A])
       [VInt hours, VInt minutes, VInt seconds, VInt uptime_sec, VInt (timer_get_ticks s)] s) }"

definition cmd_echo :: "string option \<Rightarrow> 'a kout_scheme \<Rightarrow> 'a kout_scheme" where
  "cmd_echo args s =
     (case args of
        Some a \<Rightarrow> kprintk (''%s'' @ [CHR 0x0A]) [VStr (Some a)] s
      | None \<Rightarrow> kprintk [CHR 0x0A] [] s)"

subsection \<open>test\<close>

fun malloc_loop :: "nat list \<Rightarrow> u32 list \<Rightarrow> 'a memory_st_scheme \<Rightarrow> (u32 list \<times> 'a memory_st_scheme) option" where
  "malloc_loop [] ptrs s = Some (ptrs, s)"
| "malloc_loop (i # is) ptrs s = do {
     (p, s) \<leftarrow> kmalloc (of_nat ((i + 1) * 100)) s;
     malloc_loop is (ptrs @ [p])
       (kprintk (''  malloc(%d bytes) = %p'' @ [CHR 0x0A]) [VInt (of_nat ((i + 1) * 100)), VInt p] s) }"

fun free_loop :: "nat list \<Rightarrow> u32 list \<Rightarrow> 'a memory_st_scheme \<Rightarrow> 'a memory_st_scheme" where
  "free_loop [] ptrs s = s"
| "free_loop (i # is) ptrs s =
     free_loop is ptrs (kprintk (''  freed %p'' @ [CHR 0x0A]) [VInt (ptrs ! i)] (kfree (ptrs ! i) s))"

definition cmd_test ::
    "('a kbd_st_scheme \<Rightarrow> 'a kbd_st_scheme) \<Rightarrow> string option \<Rightarrow> 'a kbd_st_scheme \<Rightarrow> 'a kbd_st_scheme option" where
  "cmd_test hlt args s =
     (case args of
        None \<Rightarrow> Some (say_lines
          [''Available tests:'',
           ''  test malloc  - Memory allocation test'',
           ''  test timer   - Timer functionality test'',
           ''  test keys    - Keyboard modifier test''] s)
      | Some a \<Rightarrow>
          if strcmp a ''malloc'' = 0 then do {
            let s = kputs ''Memory allocation stress test:'' s;
            (ptrs, s) \<leftarrow> malloc_loop [0..<10] [] s;
            let s = free_loop [0, 2, 4, 6, 8] ptrs s;
            let s = free_loop [1, 3, 5, 7, 9] ptrs s;
            Some (kputs ''Test completed.'' s) }
          else if strcmp a ''timer'' = 0 then do {
            let s = kputs ''Timer test - sleeping for 3 seconds...'' s;
            s \<leftarrow> timer_sleep_ms hlt 3000 s;
            Some (kputs ''Timer test completed!'' s) }
          else if strcmp a ''keys'' = 0
          then
            (let s = kputs ''Keyboard modifier test - press keys to see modifiers:'' s;
                 s = kprintk (''Current modifiers: 0x%02x'' @ [CHR 0x0A])
                       [VInt (ucast (keyboard_get_modifiers s))] s;
                 s = kputs ''(Press any key to continue)'' s
             in Some (snd (keyboard_getchar s)))
          else Some (kprintk (''Unknown test: %s'' @ [CHR 0x0A]) [VStr (Some a)] s))"

subsection \<open>paging\<close>

text \<open>A read and an instruction fetch of the processor: through the tables once paging is on.\<close>

definition mmu_address :: "u32 \<Rightarrow> 'a paging_st_scheme \<Rightarrow> u32 option" where
  "mmu_address va s = (if bit (cr0 s) 31 then mmu_walk (mem s) (cr3 s) va else Some va)"

definition paging_status :: "'a shell_st_scheme \<Rightarrow> 'a shell_st_scheme" where
  "paging_status s =
     (let s = kputs ''Virtual Memory Status:'' s;
          s = (if paging_enabled s
               then
                 (let s = kputs ''  State: ENABLED (virtual addressing active)'' s;
                      s = kprintk (''  Page Directory: %p'' @ [CHR 0x0A]) [VInt (paging_get_current_directory s)] s
                  in kputs ''  Translation: Virtual -> Physical via MMU'' s)
               else
                 (let s = kputs ''  State: DISABLED (physical addressing)'' s;
                      s = kprintk (''  Page Directory: %p (initialized but not loaded)'' @ [CHR 0x0A])
                            [VInt (paging_get_current_directory s)] s
                  in kputs ''  Translation: Direct (no paging)'' s));
          test_virt = 0x00100000;
          test_phys = paging_get_physical_address (paging_get_current_directory s) test_virt s
      in kprintk ([CHR 0x0A] @ ''  Example: Virtual 0x%08X -> Physical 0x%08X'' @ [CHR 0x0A])
           [VInt test_virt, VInt test_phys] s)"

definition paging_start ::
    "'a shell_st_scheme shell_env \<Rightarrow> 'a shell_st_scheme \<Rightarrow> 'a shell_st_scheme run" where
  "paging_start env s =
     (if paging_enabled s then returns (kputs ''Paging is already enabled!'' s)
      else do {
        let s = set_color VGA_COLOR_LIGHT_CYAN VGA_COLOR_BLACK (kprintk [CHR 0x0A] [] s);
        let s = say_lines [box_rule, ''    ENABLING VIRTUAL MEMORY (PAGING)'', box_rule] s;
        let s = set_color VGA_COLOR_WHITE VGA_COLOR_BLACK s;
        let s = say_lines
              [[CHR 0x0A] @ ''This will:'',
               ''  1. Load page directory into CR3'',
               ''  2. Set CR0.PG bit (enable paging)'',
               ''  3. Switch to virtual addressing'',
               ''''] s;
        let s = kwarn ''If you see this message after, paging works!'' [] s;
        let s = kputs ([CHR 0x0A] @ ''Enabling paging in 3 seconds...'') s;
        s \<leftarrow> timer_sleep_ms (sh_hlt env) 3000 s;
        let s = kputs ([CHR 0x0A] @ ''[1/2] Loading page directory...'') s;
        s \<leftarrow> timer_sleep_ms (sh_hlt env) 500 s;
        let s = kputs ''[2/2] Setting CR0.PG bit...'' s;
        s \<leftarrow> timer_sleep_ms (sh_hlt env) 500 s;
        let s = paging_enable s;
        if mmu_address (sh_cmd_paging env) s = None then Some (Inl 14)
        else do {
          let s = s\<lparr>paging_enabled := True\<rparr>;
          let s = set_color VGA_COLOR_LIGHT_GREEN VGA_COLOR_BLACK (kprintk [CHR 0x0A] [] s);
          let s = kputs (check_mark @ '' SUCCESS! Virtual memory is now active!'') s;
          let s = set_color VGA_COLOR_WHITE VGA_COLOR_BLACK s;
          returns (say_lines
            [[CHR 0x0A] @ ''All memory accesses now go through the MMU.'',
             ''The kernel is running in virtual address space.''] s) } })"

definition paging_test :: "'a shell_st_scheme \<Rightarrow> 'a shell_st_scheme run" where
  "paging_test s =
     (if \<not> paging_enabled s
      then returns (kputs (''Run '' @ quoted ''paging enable'' @ '' first.'')
                     (kwarn ''Paging must be enabled first!'' [] s))
      else
        (let s = say_lines
               [''Page Fault Test:'',
                ''  Attempting to access unmapped address 0x80000000...'',
                ''''] s;
             s = kwarn ''This will trigger a page fault!'' [] s;
             s = say_lines
               [''The kernel will panic and halt.'',
                [CHR 0x0A] @ ''Press any key to trigger page fault, or Ctrl+C to cancel...''] s;
             s = snd (keyboard_getchar s);
             s = kputs ([CHR 0x0A] @ ''Accessing 0x80000000...'') s
         in case mmu_address 0x80000000 s of
              None \<Rightarrow> Some (Inl 14)
            | Some pa \<Rightarrow> returns (kprintk (''ERROR: No page fault triggered! (read value: 0x%X)'' @ [CHR 0x0A])
                [VInt (read32 (mem s) pa)] s)))"

definition cmd_paging ::
    "'a shell_st_scheme shell_env \<Rightarrow> string option \<Rightarrow> 'a shell_st_scheme \<Rightarrow> 'a shell_st_scheme run" where
  "cmd_paging env args s =
     (case args of
        None \<Rightarrow> returns (say_lines
          [''Paging commands:'',
           ''  paging status  - Show paging status'',
           ''  paging enable  - Enable virtual memory'',
           ''  paging test    - Test page fault handler''] s)
      | Some a \<Rightarrow>
          if strcmp a ''status'' = 0 then returns (paging_status s)
          else if strcmp a ''enable'' = 0 then paging_start env s
          else if strcmp a ''test'' = 0 then paging_test s
          else returns (kputs (''Use '' @ quoted ''paging'' @ '' for help.'')
            (kprintk (''Unknown paging command: %s'' @ [CHR 0x0A]) [VStr (Some a)] s)))"

subsection \<open>ps\<close>

text \<open>The body of the two test processes, number \<open>n\<close>; \<open>None\<close> is the null pointer read where no process is current.
  The busy wait changes nothing.\<close>

definition test_process :: "u32 \<Rightarrow> 'a process_st_scheme \<Rightarrow> 'a process_st_scheme option" where
  "test_process n s = do {
     c \<leftarrow> process_get_current s;
     let s = kprintk (''[Process %d] Started! (PID %d)'' @ [CHR 0x0A]) [VInt n, VInt (p_pid (process_table s c))] s;
     let s = fold (\<lambda>i. kprintk (''[Process %d] Iteration %d'' @ [CHR 0x0A]) [VInt n, VInt (of_nat i)]) [0..<5] s;
     let s = kprintk (''[Process %d] Finished!'' @ [CHR 0x0A]) [VInt n] s;
     Some (process_exit 0 s) }"

text \<open>\<open>while (*args == ' ') args++\<close>, and the decimal number at the front of a string.\<close>

definition skip_blanks :: "string \<Rightarrow> string" where
  "skip_blanks = dropWhile (\<lambda>c. c = CHR '' '')"

fun parse_pid :: "string \<Rightarrow> u32 \<Rightarrow> u32" where
  "parse_pid [] pid = pid"
| "parse_pid (c # cs) pid =
     (if CHR ''0'' \<le> c \<and> c \<le> CHR ''9'' then parse_pid cs (pid * 10 + of_nat (of_char c - of_char (CHR ''0'')))
      else pid)"

definition ps_create_one :: "string \<Rightarrow> u32 \<Rightarrow> 'a sched_st_scheme \<Rightarrow> 'a sched_st_scheme" where
  "ps_create_one name entry_point s =
     (case process_create (Some name) entry_point PROCESS_PRIORITY_NORMAL s of
        (None, s) \<Rightarrow> s
      | (Some i, s) \<Rightarrow>
          scheduler_add_process (Some i)
            (kprintk (''  Created: %s (PID %d)'' @ [CHR 0x0A])
              [VStr (Some (cstr (p_name (process_table s i)))), VInt (p_pid (process_table s i))] s))"

definition cmd_ps ::
    "'s shell_env \<Rightarrow> string option \<Rightarrow> 'a sched_st_scheme \<Rightarrow> 'a sched_st_scheme" where
  "cmd_ps env args s =
     (case args of
        None \<Rightarrow> process_list_all s
      | Some a \<Rightarrow>
          (let a = skip_blanks a
           in if strcmp a ''list'' = 0 \<or> strcmp a ''l'' = 0 then process_list_all s
              else if strcmp a ''current'' = 0 \<or> strcmp a ''cur'' = 0
              then (case process_get_current s of
                      Some c \<Rightarrow> process_print_info (Some c) s
                    | None \<Rightarrow> kputs ''No current process!'' s)
              else if strncmp a ''info '' 5 = 0
              then
                (let pid = parse_pid (skip_blanks (drop 5 a)) 0
                 in case process_get_by_pid pid s of
                      Some p \<Rightarrow> process_print_info (Some p) s
                    | None \<Rightarrow> kprintk (''Process %d not found'' @ [CHR 0x0A]) [VInt pid] s)
              else if strcmp a ''create'' = 0 \<or> strcmp a ''test'' = 0
              then
                (let s = kputs ''Creating test processes...'' s;
                     s = ps_create_one ''test_proc_1'' (sh_test_process_1 env) s;
                     s = ps_create_one ''test_proc_2'' (sh_test_process_2 env) s;
                     s = kputs ''Test processes created and added to ready queue.'' s
                 in kputs (''Use '' @ quoted ''sched start'' @ '' to enable scheduling.'') s)
              else say_lines
                [''Process management commands:'',
                 ''  ps              - List all processes'',
                 ''  ps list         - List all processes'',
                 ''  ps current      - Show current process info'',
                 ''  ps info <pid>   - Show info for specific process'',
                 ''  ps create       - Create test processes''] s))"

subsection \<open>sched\<close>

definition cmd_sched :: "string option \<Rightarrow> 'a sched_st_scheme \<Rightarrow> 'a sched_st_scheme run" where
  "cmd_sched args s =
     (case args of
        None \<Rightarrow> Option.bind (scheduler_print_stats s) returns
      | Some a \<Rightarrow>
          (let a = skip_blanks a
           in if strcmp a ''stats'' = 0 \<or> strcmp a ''status'' = 0 then Option.bind (scheduler_print_stats s) returns
              else if strcmp a ''start'' = 0 \<or> strcmp a ''enable'' = 0
              then returns
                (if scheduler_is_enabled s then kwarn ''Scheduler already enabled'' [] s
                 else say_lines
                   [''Scheduler enabled! Multitasking active.'',
                    ''Processes will switch every 10 ticks (100ms).''] (scheduler_enable s))
              else if strcmp a ''stop'' = 0 \<or> strcmp a ''disable'' = 0
              then returns
                (if \<not> scheduler_is_enabled s then kwarn ''Scheduler already disabled'' [] s
                 else kputs ''Scheduler disabled.'' (scheduler_disable s))
              else if strcmp a ''yield'' = 0
              then
                (if \<not> scheduler_is_enabled s
                 then returns (kwarn (''Scheduler not enabled. Use '' @ quoted ''sched start'' @ '' first.'') [] s)
                 else
                   (case scheduler_yield (kputs ''Yielding to next process...'' s) of
                      Inl vector \<Rightarrow> Some (Inl vector)
                    | Inr (True, s) \<Rightarrow> Some (Inr (True, s))
                    | Inr (False, s) \<Rightarrow> returns (kputs ''Back from yield.'' s)))
              else if strcmp a ''test'' = 0
              then returns (say_lines
                [''Process tracking test:'',
                 ''  - Processes are created successfully'',
                 ''  - Scheduler tracks their state'',
                 ''  - Statistics are updated'',
                 [CHR 0x0A] @ ''Context switching will be implemented in Phase 5.''] s)
              else returns (say_lines
                [''Scheduler commands:'',
                 ''  sched           - Show scheduler statistics'',
                 ''  sched stats     - Show scheduler statistics'',
                 ''  sched start     - Enable scheduler & context switching'',
                 ''  sched stop      - Disable scheduler'',
                 ''  sched yield     - Yield to next ready process'',
                 ''  sched test      - Show process tracking capabilities''] s)))"

subsection \<open>usermode\<close>

definition usermode_create_one :: "user_code \<Rightarrow> string \<Rightarrow> u32 \<Rightarrow> 'a sched_st_scheme \<Rightarrow> 'a sched_st_scheme" where
  "usermode_create_one code name entry_point s =
     (case process_create (Some name) 0 PROCESS_PRIORITY_NORMAL s of
        (None, s) \<Rightarrow> s
      | (Some i, s) \<Rightarrow>
          (let s = process_setup_user_mode code (Some i) entry_point s;
               s = scheduler_add_process (Some i) s
           in kprintk (''  '' @ check_mark @ '' Created: %s (PID %d) - User Mode'' @ [CHR 0x0A])
                [VStr (Some (cstr (p_name (process_table s i)))), VInt (p_pid (process_table s i))] s))"

definition usermode_status :: "'a desc_st_scheme \<Rightarrow> 'a desc_st_scheme" where
  "usermode_status s =
     (let cpl = get_current_privilege_level s;
          s = kputs ([CHR 0x0A] @ ''=== User Mode Status ==='') s;
          s = kprintk (''Current Privilege Level: %d (Ring %d)'' @ [CHR 0x0A]) [VInt cpl, VInt cpl] s;
          s = kprintk (''Mode: %s'' @ [CHR 0x0A])
                [VStr (Some (if cpl = 0 then ''Kernel Mode'' else ''User Mode''))] s
      in say_lines
           [[CHR 0x0A] @ ''GDT Segments:'',
            ''  0x08 - Kernel Code (Ring 0)'',
            ''  0x10 - Kernel Data (Ring 0)'',
            ''  0x1B - User Code (Ring 3)'',
            ''  0x23 - User Data (Ring 3)'',
            ''  0x28 - TSS''] s)"

definition usermode_create :: "user_code \<Rightarrow> 'a sched_st_scheme \<Rightarrow> 'a sched_st_scheme" where
  "usermode_create code s =
     (let s = set_color VGA_COLOR_LIGHT_CYAN VGA_COLOR_BLACK (kprintk [CHR 0x0A] [] s);
          s = say_lines [box_rule, ''    CREATING USER MODE PROCESSES (Ring 3)'', box_rule] s;
          s = set_color VGA_COLOR_WHITE VGA_COLOR_BLACK s;
          s = say_lines
                [[CHR 0x0A] @ ''This will create processes that run in user mode (ring 3)'',
                 ''User mode processes cannot execute privileged instructions.'' @ [CHR 0x0A]] s;
          s = usermode_create_one code ''user_test_1'' (user_mode_test_1 code) s;
          s = usermode_create_one code ''user_test_2'' (user_mode_test_2 code) s;
          s = say_lines
                [[CHR 0x0A] @ ''User mode processes created!'',
                 ''Use '' @ quoted ''ps list'' @ '' to see them.'',
                 ''Use '' @ quoted ''sched start'' @ '' to run them.'',
                 ''''] s;
          s = set_color VGA_COLOR_LIGHT_GREEN VGA_COLOR_BLACK s;
          s = say_lines [box_rule, ''    Phase 5 Step 1: User Mode ACTIVE!'', box_rule] s;
          s = set_color VGA_COLOR_WHITE VGA_COLOR_BLACK s
      in kprintk [CHR 0x0A] [] s)"

definition cmd_usermode ::
    "'s shell_env \<Rightarrow> string option \<Rightarrow> 'a sched_st_scheme \<Rightarrow> 'a sched_st_scheme" where
  "cmd_usermode env args s =
     (if args = None \<or> args = Some '''' then usermode_status s
      else
        (let a = skip_blanks (the args)
         in if strcmp a ''status'' = 0
            then
              (let cpl = get_current_privilege_level s
               in kprintk (''Current Privilege Level: %d (Ring %d)'' @ [CHR 0x0A]) [VInt cpl, VInt cpl] s)
            else if strcmp a ''test'' = 0 \<or> strcmp a ''create'' = 0 then usermode_create (sh_code env) s
            else say_lines
              [''User mode commands:'',
               ''  usermode        - Show user mode status'',
               ''  usermode status - Show current privilege level'',
               ''  usermode test   - Create user mode test processes'',
               ''  usermode create - Create user mode test processes''] s))"

section \<open>The command line\<close>

text \<open>Blanks and tabs, which \<open>shell_process_command\<close> skips before the command and its arguments.\<close>

definition skip_white :: "string \<Rightarrow> string" where
  "skip_white = dropWhile (\<lambda>c. c = CHR '' '' \<or> c = CHR 0x09)"

text \<open>The test by which the source compares the command word: its length, and \<open>strncmp\<close> to the name.\<close>

definition is_command :: "string \<Rightarrow> nat \<Rightarrow> string \<Rightarrow> nat \<Rightarrow> bool" where
  "is_command command cmd_len name n \<longleftrightarrow> strncmp command name cmd_len = 0 \<and> cmd_len = n"

definition unknown_command :: "string \<Rightarrow> nat \<Rightarrow> 'a kout_scheme \<Rightarrow> 'a kout_scheme" where
  "unknown_command command cmd_len s =
     (let s = kprintk (''Unknown command: '' @ [CHR 0x27]) [] s;
          s = fold (\<lambda>i s. s\<lparr>con := console_putchar (command ! i) (con s)\<rparr>) [0..<cmd_len] s
      in kputs ([CHR 0x27] @ ''. Type '' @ quoted ''help'' @ '' for available commands.'') s)"

definition shell_exit :: "'a paging_st_scheme \<Rightarrow> 'a paging_st_scheme" where
  "shell_exit s = (kputs ''Goodbye! System will halt.'' s)\<lparr>interrupt_flag := False, halted := True\<rparr>"

definition shell_process_command ::
    "'a shell_st_scheme shell_env \<Rightarrow> string \<Rightarrow> 'a shell_st_scheme \<Rightarrow> 'a shell_st_scheme run" where
  "shell_process_command env command s =
     (let command = skip_white command
      in if command = '''' then returns s
      else
        (let args = strchr command (CHR '' '');
             cmd_len = (case args of Some a \<Rightarrow> length command - length a | None \<Rightarrow> length command);
             args = (case args of
                       Some a \<Rightarrow> if skip_white a = '''' then None else Some (skip_white a)
                     | None \<Rightarrow> None)
         in if is_command command cmd_len ''help'' 4 then returns (cmd_help s)
            else if is_command command cmd_len ''clear'' 5 then returns (cmd_clear s)
            else if is_command command cmd_len ''meminfo'' 7 then Option.bind (cmd_meminfo (sh_junk env) s) returns
            else if is_command command cmd_len ''sysinfo'' 7 then returns (cmd_sysinfo s)
            else if is_command command cmd_len ''uptime'' 6 then Option.bind (cmd_uptime s) returns
            else if is_command command cmd_len ''echo'' 4 then returns (cmd_echo args s)
            else if is_command command cmd_len ''test'' 4 then Option.bind (cmd_test (sh_hlt env) args s) returns
            else if is_command command cmd_len ''paging'' 6 then cmd_paging env args s
            else if is_command command cmd_len ''ps'' 2 then returns (cmd_ps env args s)
            else if is_command command cmd_len ''sched'' 5 then cmd_sched args s
            else if is_command command cmd_len ''usermode'' 8 then returns (cmd_usermode env args s)
            else if is_command command cmd_len ''exit'' 4 then returns (shell_exit s)
            else returns (unknown_command command cmd_len s)))"

section \<open>The loop\<close>

text \<open>One round of the loop of \<open>shell_run\<close>, on the array of the command line, and a number of rounds.
  The loop ends only where the processor halts, faults or goes to another process.\<close>

definition shell_round ::
    "'a shell_st_scheme shell_env \<Rightarrow> string \<Rightarrow> 'a shell_st_scheme \<Rightarrow>
     (string \<times> (u32 + bool \<times> 'a shell_st_scheme)) option" where
  "shell_round env command_buffer s = do {
     (command_buffer, s) \<leftarrow> console_readline (sh_hlt env) command_buffer MAX_COMMAND_LENGTH (shell_prompt s);
     r \<leftarrow> (if command_buffer ! 0 \<noteq> CHR 0x00 then shell_process_command env (cstr command_buffer) s
           else returns s);
     Some (command_buffer, r) }"

fun shell_run ::
    "nat \<Rightarrow> 'a shell_st_scheme shell_env \<Rightarrow> string \<Rightarrow> 'a shell_st_scheme \<Rightarrow> 'a shell_st_scheme run" where
  "shell_run 0 env command_buffer s = returns s"
| "shell_run (Suc n) env command_buffer s =
     (case shell_round env command_buffer s of
        None \<Rightarrow> None
      | Some (command_buffer, Inl vector) \<Rightarrow> Some (Inl vector)
      | Some (command_buffer, Inr (switched, s)) \<Rightarrow>
          if switched \<or> halted s then Some (Inr (switched, s)) else shell_run n env command_buffer s)"

end
