(* ===== verification/Shell_Theorems.thy ===== *)
theory Shell_Theorems
  imports Shell
begin

text \<open>
What the shell does: the lookup of a command, a round of its loop, the number a command reads, and
  the memory a command borrows.
\<close>

section \<open>Strings\<close>

lemma of_char_eq_int [simp]: "(of_char a :: int) = of_char b \<longleftrightarrow> a = b"
  using inj_of_char [where 'a = int] by (simp add: inj_eq)

lemma of_char_eq_0 [simp]: "(of_char a :: int) = 0 \<longleftrightarrow> a = CHR 0x00"
  using of_char_eq_int [of a "CHR 0x00"] by simp

lemma strcmp_0_iff:
  "CHR 0x00 \<notin> set as \<Longrightarrow> CHR 0x00 \<notin> set bs \<Longrightarrow> strcmp as bs = 0 \<longleftrightarrow> as = bs"
  by (induction as bs rule: strcmp.induct) auto

lemma strncmp_take:
  assumes "n \<le> length as"
  shows "strncmp as bs n = 0 \<and> n = length bs \<longleftrightarrow> take n as = bs"
  using assms
proof (induction as bs n rule: strncmp.induct)
  case (5 a as b bs n)
  then show ?case by auto
qed auto

lemma strchr_dropWhile:
  "strchr cs c = (let r = dropWhile (\<lambda>d. d \<noteq> c) cs in if r = [] then None else Some r)"
  by (induction cs) (auto simp: Let_def)

lemma dropWhile_length: "length cs - length (dropWhile P cs) = length (takeWhile P cs)"
  using takeWhile_dropWhile_id [of P cs] by (metis add_diff_cancel_right' length_append)

text \<open>The command word of a line and what follows it.\<close>

definition command_word :: "string \<Rightarrow> string" where
  "command_word line = takeWhile (\<lambda>c. c \<noteq> CHR '' '') (skip_white line)"

definition command_args :: "string \<Rightarrow> string option" where
  "command_args line =
     (let a = skip_white (dropWhile (\<lambda>c. c \<noteq> CHR '' '') (skip_white line)) in if a = '''' then None else Some a)"

definition builtins ::
    "'a shell_st_scheme shell_env \<Rightarrow> string option \<Rightarrow>
     (string \<times> ('a shell_st_scheme \<Rightarrow> 'a shell_st_scheme run)) list" where
  "builtins env args =
     [(''help'', \<lambda>s. returns (cmd_help s)),
      (''clear'', \<lambda>s. returns (cmd_clear s)),
      (''meminfo'', \<lambda>s. Option.bind (cmd_meminfo (sh_junk env) s) returns),
      (''sysinfo'', \<lambda>s. returns (cmd_sysinfo s)),
      (''uptime'', \<lambda>s. Option.bind (cmd_uptime s) returns),
      (''echo'', \<lambda>s. returns (cmd_echo args s)),
      (''test'', \<lambda>s. Option.bind (cmd_test (sh_hlt env) args s) returns),
      (''paging'', cmd_paging env args),
      (''ps'', \<lambda>s. returns (cmd_ps env args s)),
      (''sched'', cmd_sched args),
      (''usermode'', \<lambda>s. returns (cmd_usermode env args s)),
      (''exit'', \<lambda>s. returns (shell_exit s))]"

text \<open>What is printed for a word that is no command.\<close>

definition complain :: "string \<Rightarrow> 'a kout_scheme \<Rightarrow> 'a kout_scheme" where
  "complain w s =
     (let s = kprintk (''Unknown command: '' @ [CHR 0x27]) [] s;
          s = s\<lparr>con := console_write w (con s)\<rparr>
      in kputs ([CHR 0x27] @ ''. Type '' @ quoted ''help'' @ '' for available commands.'') s)"

lemma fold_putchar_take:
  "n \<le> length w \<Longrightarrow> fold (\<lambda>i s. s\<lparr>con := console_putchar (w ! i) (con s)\<rparr>) [0..<n] s =
     s\<lparr>con := console_write (take n w) (con s)\<rparr>"
proof (induction n)
  case (Suc n)
  have "console_write (xs @ [c]) t = console_putchar c (console_write xs t)" for xs c t
    by (induction xs arbitrary: t) simp_all
  with Suc show ?case by (simp add: take_Suc_conv_app_nth)
qed simp

lemma unknown_command_complain: "n \<le> length w \<Longrightarrow> unknown_command w n s = complain (take n w) s"
  by (simp add: unknown_command_def complain_def fold_putchar_take)

lemma map_of_case_step:
  "(case map_of ((k, f) # xs) w of Some g \<Rightarrow> g s | None \<Rightarrow> z) =
     (if w = k then f s else case map_of xs w of Some g \<Rightarrow> g s | None \<Rightarrow> z)"
  by simp

lemma is_command_word:
  assumes "n \<le> length c"
  shows "is_command c n ''help'' 4 \<longleftrightarrow> take n c = ''help''" "is_command c n ''clear'' 5 \<longleftrightarrow> take n c = ''clear''"
    "is_command c n ''meminfo'' 7 \<longleftrightarrow> take n c = ''meminfo''" "is_command c n ''sysinfo'' 7 \<longleftrightarrow> take n c = ''sysinfo''"
    "is_command c n ''uptime'' 6 \<longleftrightarrow> take n c = ''uptime''" "is_command c n ''echo'' 4 \<longleftrightarrow> take n c = ''echo''"
    "is_command c n ''test'' 4 \<longleftrightarrow> take n c = ''test''" "is_command c n ''paging'' 6 \<longleftrightarrow> take n c = ''paging''"
    "is_command c n ''ps'' 2 \<longleftrightarrow> take n c = ''ps''" "is_command c n ''sched'' 5 \<longleftrightarrow> take n c = ''sched''"
    "is_command c n ''usermode'' 8 \<longleftrightarrow> take n c = ''usermode''" "is_command c n ''exit'' 4 \<longleftrightarrow> take n c = ''exit''"
  unfolding is_command_def strncmp_take [OF assms, symmetric] by (simp_all add: eval_nat_numeral)

lemma skip_white_Nil: "skip_white [] = []" by (simp add: skip_white_def)

lemma process_command_dispatch:
  "shell_process_command env line s =
     (if skip_white line = '''' then returns s
      else case map_of (builtins env (command_args line)) (command_word line) of
        Some f \<Rightarrow> f s
      | None \<Rightarrow> returns (complain (command_word line) s))"
proof (cases "skip_white line = ''''")
  case True
  then show ?thesis by (simp add: shell_process_command_def)
next
  case False
  define c where "c = skip_white line"
  define n where "n = (case strchr c (CHR '' '') of Some a \<Rightarrow> length c - length a | None \<Rightarrow> length c)"
  have n: "n = length (takeWhile (\<lambda>x. x \<noteq> CHR '' '') c)"
    unfolding n_def strchr_dropWhile by (auto simp: Let_def dropWhile_length dropWhile_eq_Nil_conv takeWhile_eq_all_conv [THEN iffD2])
  have le: "n \<le> length c" unfolding n by (rule length_takeWhile_le)
  have w: "take n c = command_word line"
    unfolding n command_word_def c_def by (metis takeWhile_eq_take)
  have args: "(case strchr c (CHR '' '') of
      Some a \<Rightarrow> if skip_white a = '''' then None else Some (skip_white a) | None \<Rightarrow> None) = command_args line"
    unfolding command_args_def strchr_dropWhile c_def [symmetric] Let_def
    by (cases "dropWhile (\<lambda>d. d \<noteq> CHR '' '') c = []") (simp_all only: option.case if_True if_False simp_thms skip_white_Nil)
  have c0: "c \<noteq> []" using False by (simp add: c_def)
  show ?thesis
    unfolding shell_process_command_def Let_def c_def [symmetric] n_def [symmetric] args
    by (simp only: c0 if_False simp_thms is_command_word [OF le] unknown_command_complain [OF le] w
        builtins_def map_of_case_step map_of.simps(1) option.case)
qed

text \<open>C15 (equivalence): a command line is handled by looking its first word, up to a blank, up in the
  table of the commands; a line of white space does nothing, and a word that is no command is named in
  a complaint.\<close>

theorem shell_dispatch:
  "shell_process_command env line s =
     (if skip_white line = '''' then returns s
      else case map_of (builtins env (command_args line)) (command_word line) of
        Some f \<Rightarrow> f s
      | None \<Rightarrow> returns (complain (command_word line) s))"
  by (rule process_command_dispatch)

text \<open>The number at the front of a string.\<close>

abbreviation is_digit :: "char \<Rightarrow> bool" where "is_digit c \<equiv> CHR ''0'' \<le> c \<and> c \<le> CHR ''9''"

lemma parse_pid_digits:
  assumes "\<And>c. c \<in> set ds \<Longrightarrow> is_digit c" "rest = [] \<or> \<not> is_digit (hd rest)"
  shows "parse_pid (ds @ rest) (of_nat v) = of_nat (foldl (\<lambda>v c. v * 10 + (of_char c - 48)) v ds)"
  using assms(1)
proof (induction ds arbitrary: v)
  case Nil
  then show ?case using assms(2) by (cases rest) auto
next
  case (Cons c ds)
  have "parse_pid ((c # ds) @ rest) (of_nat v) = parse_pid (ds @ rest) (of_nat (v * 10 + (of_char c - 48)))"
    using Cons.prems [of c] by simp
  also have "\<dots> = of_nat (foldl (\<lambda>v c. v * 10 + (of_char c - 48)) (v * 10 + (of_char c - 48)) ds)"
    by (rule Cons.IH) (use Cons.prems in simp)
  finally show ?case by simp
qed

lemma decimal_digit:
  assumes "d < 10"
  shows "is_digit (digit_char 97 (int d))" "of_char (digit_char 97 (int d)) - 48 = d"
proof -
  have "digit_char 97 (int d) = char_of (d + 48)"
    using assms char_of_nat [of "d + 48"] by (simp add: digit_char_def)
  then show "is_digit (digit_char 97 (int d))" "of_char (digit_char 97 (int d)) - 48 = d"
    using assms by (simp_all add: less_eq_char_def)
qed

lemma utoa_spec_value:
  "foldl (\<lambda>v c. v * 10 + (of_char c - 48)) 0 (utoa_spec 10 97 n) = n \<and> (\<forall>c \<in> set (utoa_spec 10 97 n). is_digit c)"
proof (cases "n = 0")
  case True
  then show ?thesis by (simp add: utoa_spec_def)
next
  case False
  have less: "d < 10" if "d \<in> set (udigits 10 n)" for d using udigits_less [OF that] .
  have "foldr (\<lambda>c v. v * 10 + (of_char c - 48)) (map (\<lambda>d. digit_char 97 (int d)) ds) 0 =
      foldr (\<lambda>d v. v * 10 + d) ds 0" if "\<And>d. d \<in> set ds \<Longrightarrow> d < 10" for ds
    using that by (induction ds) (simp_all add: decimal_digit(2))
  from this [OF less] show ?thesis
    using False less udigits_value [of 10 n]
    by (auto simp: utoa_spec_def foldl_conv_foldr decimal_digit(1))
qed

text \<open>Fact (roundtrip): the number read from the argument of \<open>ps info\<close> is the one whose decimal form
  \<open>utoa\<close> writes, whatever blanks precede it and whatever follows it that is no digit.\<close>

theorem pid_roundtrip:
  assumes "utoa n 10 = Some ds" "rest = [] \<or> \<not> is_digit (hd rest)"
  shows "parse_pid (skip_blanks (replicate k (CHR '' '') @ ds @ rest)) 0 = n"
proof -
  have ds: "ds = utoa_spec 10 97 (unat n)" using assms(1) utoa_eq_spec [of 10 n] by simp
  have "ds \<noteq> []" by (auto simp: ds utoa_spec_def udigits_eq_Nil unat_eq_zero)
  then obtain c cs where c: "ds = c # cs" by (cases ds) auto
  then have "is_digit c" using utoa_spec_value [of "unat n"] by (simp add: ds)
  then have "c \<noteq> CHR '' ''" by (auto simp: less_eq_char_def)
  then have "skip_blanks (replicate k (CHR '' '') @ ds @ rest) = ds @ rest"
    unfolding skip_blanks_def c(1) by (induction k) auto
  then show ?thesis
    using parse_pid_digits [of ds rest 0] utoa_spec_value [of "unat n"] assms(2) by (simp add: ds)
qed

section \<open>A round of the loop\<close>

lemma shell_prompt_con: "\<exists>c. shell_prompt s = s\<lparr>con := c\<rparr>"
  by (simp add: shell_prompt_def set_color_def kout_defs Let_def) blast

lemma kbd_rep_con [simp]: "kbd_rep (s\<lparr>con := c\<rparr>) q = kbd_rep s q"
  by (simp add: kbd_rep_def)

lemma line_of_chars: "line_of n l cs = Some (l', rest) \<Longrightarrow> set l' \<subseteq> set l \<union> set cs"
proof (induction n l cs rule: line_of.induct)
  case (1 n l cs)
  show ?case
  proof (cases "n \<le> length l \<or> cs = []")
    case True
    then show ?thesis using "1.prems" by (subst (asm) line_of.simps) (auto split: if_splits list.splits)
  next
    case False
    then obtain c cs' where cs: "cs = c # cs'" "\<not> n \<le> length l" by (cases cs) auto
    show ?thesis
      using "1.prems" "1.IH" [OF cs(2,1)]
      by (subst (asm) line_of.simps) (auto simp: cs split: if_splits dest: in_set_butlastD)
  qed
qed

lemma cstr_line:
  assumes "take (length l + 1) buf = l @ [CHR 0x00]" "CHR 0x00 \<notin> set l"
  shows "cstr buf = l" "buf ! 0 = CHR 0x00 \<longleftrightarrow> l = []"
proof -
  have b: "buf = l @ CHR 0x00 # drop (length l + 1) buf"
    using assms(1) append_take_drop_id [of "length l + 1" buf] by simp
  show "cstr buf = l" unfolding cstr_def by (subst b, subst takeWhile_append2) (use assms(2) in auto)
  have "buf ! 0 = (l @ [CHR 0x00]) ! 0" unfolding assms(1) [symmetric] by simp
  then show "buf ! 0 = CHR 0x00 \<longleftrightarrow> l = []" using assms(2) by (cases l) auto
qed

lemma shell_round_line:
  assumes typist: "typist future (sh_hlt env)" "\<And>c. future (s\<lparr>con := c\<rparr>) = future s"
    and buf: "256 \<le> length buf"
    and input: "kbd_rep s q" "\<forall>c \<in> set (q @ future s). typed c" "line_of 255 [] (q @ future s) = Some (l, rest)"
    and keeps: "\<forall>s. P s \<longrightarrow> P (sh_hlt env s)" "\<forall>s. P s \<longrightarrow> P (snd (keyboard_getchar s))" "\<And>c. P (s\<lparr>con := c\<rparr>)"
  shows "\<exists>buf' s' q'. shell_round env buf s =
      map_option (Pair buf') (if l = [] then returns s' else shell_process_command env l s') \<and>
    length buf' = length buf \<and> kbd_rep s' q' \<and> rest = q' @ future s' \<and> P s'"
proof -
  obtain c where c: "shell_prompt s = s\<lparr>con := c\<rparr>" using shell_prompt_con by blast
  obtain buf' s' q' where r: "console_readline (sh_hlt env) buf 256 (s\<lparr>con := c\<rparr>) = Some (buf', s')"
    "length buf' = length buf" "take (length l + 1) buf' = l @ [CHR 0x00]" "kbd_rep s' q'" "rest = q' @ future s'"
    using readline_loop_line [OF typist(1), of 255 256 buf "s\<lparr>con := c\<rparr>" q "[]" l rest buf] buf input typist(2)
    by (auto simp: console_readline_def)
  have "P s'" using readline_loop_keeps [OF r(1) [unfolded console_readline_def], of P] keeps by simp
  have "CHR 0x00 \<notin> set l"
    using line_of_chars [OF input(3)] input(2) typed_not_nul by fastforce
  note l = cstr_line [OF r(3) this]
  have "shell_round env buf s =
      map_option (Pair buf') (if l = [] then returns s' else shell_process_command env l s')"
    using l by (auto simp: shell_round_def MAX_COMMAND_LENGTH_def c r(1) map_option_bind map_conv_bind_option returns_def comp_def)
  then show ?thesis using r(2,4,5) \<open>P s'\<close> by blast
qed

text \<open>Fact (liveness): once the input, buffered or typed while the processor halts, ends a line, a round of
  the shell runs the line as a command, or nothing if it is empty, and leaves the rest of the input.\<close>

theorem shell_round_runs_line:
  assumes typist: "typist future (sh_hlt env)" "\<And>c. future (s\<lparr>con := c\<rparr>) = future s"
    and buf: "256 \<le> length buf"
    and input: "kbd_rep s q" "\<forall>c \<in> set (q @ future s). typed c" "line_of 255 [] (q @ future s) = Some (l, rest)"
  shows "\<exists>buf' s' q'. shell_round env buf s =
      map_option (Pair buf') (if l = [] then returns s' else shell_process_command env l s') \<and>
    length buf' = length buf \<and> kbd_rep s' q' \<and> rest = q' @ future s'"
  using shell_round_line [OF assms, of "\<lambda>_. True"] by simp

section \<open>Memory borrowed and given back\<close>

text \<open>\<open>lent P m0 L s\<close>: besides the blocks \<open>P\<close>, whose bytes are those of \<open>m0\<close>, the blocks \<open>L\<close> are held.\<close>

definition lent :: "(u32 \<rightharpoonup> u32) \<Rightarrow> bytemem \<Rightarrow> (u32 \<rightharpoonup> u32) \<Rightarrow> 'a memory_st_scheme \<Rightarrow> bool" where
  "lent P m0 L s \<longleftrightarrow> held s (P ++ L) \<and> dom P \<inter> dom L = {} \<and>
     (\<forall>q m i. P q = Some m \<longrightarrow> i < unat m \<longrightarrow> mem s (q + of_nat i) = m0 (q + of_nat i))"

definition own :: "u32 \<Rightarrow> u32 \<Rightarrow> (u32 \<rightharpoonup> u32) \<Rightarrow> (u32 \<rightharpoonup> u32)" where
  "own p n L = (if p = 0 then L else L(p \<mapsto> n))"

lemma lent_start: "held s P \<Longrightarrow> lent P (mem s) Map.empty s"
  by (simp add: lent_def)

lemma lent_end: "lent P m0 Map.empty s \<Longrightarrow> held s P"
  by (simp add: lent_def)

lemma lent_con [simp]: "lent P m0 L (s\<lparr>con := c\<rparr>) = lent P m0 L s"
  by (simp add: lent_def held_def heap_inv_def heap_wf_def heap_rep_def)

lemma lent_out [simp]: "lent P m0 L (kprintk f args s) = lent P m0 L s" "lent P m0 L (kputs l s) = lent P m0 L s"
  by (simp_all add: kputs_def kprintk_def)

lemma held_null: "held s P \<Longrightarrow> P 0 = None"
  using heap_inv_range [of s P _ 0] by (force simp: held_def)

lemma lent_alloc:
  assumes "lent P m0 L s" "sane_size n"
  obtains p s' where "kmalloc n s = Some (p, s')" "lent P m0 (own p n L) s'" "p \<noteq> 0 \<Longrightarrow> L p = None"
proof -
  have h: "held s (P ++ L)" using assms(1) by (simp add: lent_def)
  obtain p s' where k: "kmalloc n s = Some (p, s')" using kheap.alloc_returns [OF h assms(2)] by blast
  have new: "p \<noteq> 0 \<Longrightarrow> P p = None \<and> L p = None"
    using kheap.alloc_fresh [OF h assms(2) k] by (auto simp: map_add_None)
  have "held s' (P ++ own p n L)"
    using kheap.alloc_null [OF h] kheap.alloc_inv [OF h assms(2) k] k h by (auto simp: own_def)
  moreover have "(P ++ L) q = Some m" if "P q = Some m" for q m
    using assms(1) that by (auto simp: lent_def map_add_Some_iff dom_def)
  then have "mem s' (q + of_nat i) = m0 (q + of_nat i)" if "P q = Some m" "i < unat m" for q m i
    using kheap.alloc_frame [OF h k, of q m i] that assms(1) by (simp add: lent_def)
  ultimately have "lent P m0 (own p n L) s'"
    using assms(1) new by (auto simp: lent_def own_def)
  then show ?thesis using that k new by blast
qed

lemma lent_free:
  assumes "lent P m0 L s" "p = 0 \<or> L p \<noteq> None"
  shows "lent P m0 (L(p := None)) (kfree p s)"
proof (cases "p = 0")
  case True
  have "L 0 = None" using held_null [of s "P ++ L"] assms(1) by (simp add: lent_def map_add_None)
  then show ?thesis using True assms(1) by (simp add: kfree_def fun_upd_idem)
next
  case False
  have h: "held s (P ++ L)" and d: "dom P \<inter> dom L = {}" using assms(1) by (simp_all add: lent_def)
  have p: "(P ++ L) p \<noteq> None" "P p = None" using False assms(2) d by (auto simp: map_add_None)
  have "(P ++ L)(p := None) = P ++ (L(p := None))" using p(2) by (auto simp: map_add_def)
  then have "held (kfree p s) (P ++ (L(p := None)))" using kheap.free_inv [OF h p(1)] by simp
  moreover have "(P ++ L) q = Some m" if "P q = Some m" for q m
    using d that by (auto simp: map_add_Some_iff dom_def)
  then have "mem (kfree p s) (q + of_nat i) = m0 (q + of_nat i)" if "P q = Some m" "i < unat m" for q m i
    using kheap.free_frame [OF h p(1), of q m i] that assms(1) p(2)
    by (cases "q = p") (simp_all add: lent_def)
  ultimately show ?thesis using d by (auto simp: lent_def)
qed

lemma print_stats_returns:
  assumes "held s P"
  shows "\<exists>c. memory_print_stats junk s = Some (s\<lparr>con := c\<rparr>)"
proof -
  obtain bs where bs: "heap_rep s bs" "blen bs = 0x400000"
    using assms by (auto simp: held_def heap_inv_def heap_wf_def)
  have "(of_nat (16 * length bs + free_bytes bs + used_bytes bs) :: u32) \<noteq> 0"
    unfolding blen_account [symmetric] bs(2) by simp
  then show ?thesis
    unfolding memory_print_stats_def memory_get_stats_counts [OF bs(1)] by (auto simp: kout_defs)
qed

text \<open>Fact (functional): the command \<open>meminfo\<close> returns, frees all it allocates, and changes no byte of a
  block that somebody holds, whether or not its allocations succeed.\<close>

theorem meminfo_gives_back:
  assumes "held s P"
  shows "\<exists>s'. cmd_meminfo junk s = Some s' \<and> held s' P \<and>
    (\<forall>q m i. P q = Some m \<longrightarrow> i < unat m \<longrightarrow> mem s' (q + of_nat i) = mem s (q + of_nat i))"
proof -
  obtain c where c: "memory_print_stats junk s = Some (s\<lparr>con := c\<rparr>)" using print_stats_returns [OF assms] by blast
  define s0 where "s0 = kputs ([CHR 0x0A] @ ''Memory Test - Allocating and freeing blocks:'') (s\<lparr>con := c\<rparr>)"
  have sane: "sane_size 1024" "sane_size 2048" "sane_size 512" "sane_size 1500" by (simp_all add: sane_size_def)
  have "lent P (mem s) Map.empty s0" using lent_start [OF assms] by (simp add: s0_def)
  then obtain p1 s1 where 1: "kmalloc 1024 s0 = Some (p1, s1)" "lent P (mem s) (own p1 1024 Map.empty) s1"
    using lent_alloc [OF _ sane(1)] by metis
  obtain p2 s2 where 2: "kmalloc 2048 s1 = Some (p2, s2)" "lent P (mem s) (own p2 2048 (own p1 1024 Map.empty)) s2"
    "p2 \<noteq> 0 \<Longrightarrow> own p1 1024 Map.empty p2 = None" using lent_alloc [OF 1(2) sane(2)] by metis
  obtain p3 s3 where 3: "kmalloc 512 s2 = Some (p3, s3)"
    "lent P (mem s) (own p3 512 (own p2 2048 (own p1 1024 Map.empty))) s3"
    "p3 \<noteq> 0 \<Longrightarrow> own p2 2048 (own p1 1024 Map.empty) p3 = None" using lent_alloc [OF 2(2) sane(3)] by metis
  define s4 where "s4 = kputs ''  Freed ptr2'' (kfree p2
    (kprintk (''  Allocated: ptr1=%p (1KB), ptr2=%p (2KB), ptr3=%p (512B)'' @ [CHR 0x0A]) [VInt p1, VInt p2, VInt p3] s3))"
  have "lent P (mem s) ((own p3 512 (own p2 2048 (own p1 1024 Map.empty)))(p2 := None)) s4"
    unfolding s4_def lent_out by (rule lent_free) (use 3(2) in \<open>auto simp: own_def\<close>)
  also have "(own p3 512 (own p2 2048 (own p1 1024 Map.empty)))(p2 := None) = own p3 512 (own p1 1024 Map.empty)"
    using 2(3) 3(3) by (auto simp: own_def fun_eq_iff split: if_splits)
  finally have 4: "lent P (mem s) (own p3 512 (own p1 1024 Map.empty)) s4" .
  obtain p4 s5 where 5: "kmalloc 1500 s4 = Some (p4, s5)"
    "lent P (mem s) (own p4 1500 (own p3 512 (own p1 1024 Map.empty))) s5"
    "p4 \<noteq> 0 \<Longrightarrow> own p3 512 (own p1 1024 Map.empty) p4 = None" using lent_alloc [OF 4 sane(4)] by metis
  define s6 where "s6 = kprintk (''  Allocated: ptr4=%p (1.5KB)'' @ [CHR 0x0A]) [VInt p4] s5"
  have s6: "lent P (mem s) (own p4 1500 (own p3 512 (own p1 1024 Map.empty))) s6" using 5(2) by (simp add: s6_def)
  have "lent P (mem s) ((own p4 1500 (own p3 512 (own p1 1024 Map.empty)))(p1 := None, p3 := None, p4 := None))
      (kfree p4 (kfree p3 (kfree p1 s6)))"
    by (intro lent_free s6) (use 3(3) 5(3) in \<open>auto simp: own_def split: if_splits\<close>)
  also have "(own p4 1500 (own p3 512 (own p1 1024 Map.empty)))(p1 := None, p3 := None, p4 := None) = Map.empty"
    by (auto simp: own_def fun_eq_iff)
  finally have "lent P (mem s) Map.empty (kputs ''  Freed remaining blocks'' (kfree p4 (kfree p3 (kfree p1 s6))))" by simp
  moreover have "cmd_meminfo junk s = Some (kputs ''  Freed remaining blocks'' (kfree p4 (kfree p3 (kfree p1 s6))))"
    using 1(1) 2(1) 3(1) 5(1) by (simp add: cmd_meminfo_def c s0_def s4_def s6_def Let_def)
  ultimately show ?thesis using lent_end [of P "mem s"] by (auto simp: lent_def)
qed

theorem pid_roundtrip_witness:
  "utoa 42 10 = Some ''42'' \<and> parse_pid (skip_blanks (''  '' @ ''42'' @ '' x'')) 0 = 42"
proof -
  have u: "utoa 42 10 = Some ''42''" by code_simp
  have "\<not> is_digit (hd '' x'')" by (simp add: less_eq_char_def)
  then show ?thesis
    using pid_roundtrip [OF u, of "'' x''" 2] u by (simp add: eval_nat_numeral)
qed

theorem meminfo_gives_back_witness:
  "\<exists>s'. cmd_meminfo \<lparr>total_memory = 1, used_memory = 2, free_memory = 3, allocated_blocks = 4, free_blocks = 5\<rparr> boot_memory = Some s' \<and>
    held s' Map.empty"
proof -
  have "held boot_memory Map.empty" using heap_reach_inv [OF boot_memory_rep(3)] by (simp add: held_def)
  then show ?thesis using meminfo_gives_back by blast
qed

definition boot_shell :: shell_st where
  "boot_shell = kbd_st.extend (kbd_st.truncate
     (boot_kbd\<lparr>input_buffer := ''ps'' @ [CHR 0x0A] @ nul 253, buffer_head := 3, buffer_tail := 0, buffer_count := 3\<rparr>)) \<lparr>paging_enabled = False\<rparr>"

lemma boot_shell_rep: "kbd_rep boot_shell (''ps'' @ [CHR 0x0A])"
  unfolding boot_shell_def kbd_rep_def
  by (simp add: kbd_st.extend_def kbd_st.truncate_def nul_def boot_kbd_def less_Suc_eq)

definition still_shell :: "shell_st shell_env" where
  "still_shell = \<lparr>sh_hlt = id, sh_code = demo_code, sh_test_process_1 = 0x103000, sh_test_process_2 = 0x103100,
     sh_cmd_paging = 0x104000,
     sh_junk = \<lparr>total_memory = 0, used_memory = 0, free_memory = 0, allocated_blocks = 0, free_blocks = 0\<rparr>\<rparr>"

theorem shell_round_runs_line_witness:
  "\<exists>buf' s'. shell_round still_shell (nul 256) boot_shell =
      map_option (Pair buf') (shell_process_command still_shell ''ps'' s') \<and> kbd_rep s' []"
proof -
  have ty: "typist (\<lambda>_. '''') (sh_hlt still_shell)" by (simp add: typist_def still_shell_def)
  have l: "line_of 255 [] ((''ps'' @ [CHR 0x0A]) @ '''') = Some (''ps'', '''')" by (simp add: line_of.simps)
  show ?thesis
    using shell_round_runs_line [OF ty _ _ boot_shell_rep _ l, of "nul 256"]
    by (auto simp: nul_def typed_def less_eq_char_def)
qed

end
