(* ===== verification/Paging_Boot.thy ===== *)
theory Paging_Boot
  imports Paging_Theorems
begin

text \<open>
  What \<open>paging_init\<close> makes of the heap that \<open>memory_init\<close> sets up, followed page by page: the
  directory and its tables come from \<open>kmalloc\<close>, sixteen bytes past a page boundary, and the entries
  written at the boundary run over the header of the table's own block.
\<close>

section \<open>Addresses\<close>

definition page :: "nat \<Rightarrow> nat \<Rightarrow> u32" where
  "page c k = of_nat (c * 0x400000 + k * 0x1000)"

lemma unat_page: "c < 4 \<Longrightarrow> k \<le> 1024 \<Longrightarrow> unat (page c k) = c * 0x400000 + k * 0x1000"
  unfolding page_def by (rule unat_of_nat32) simp

lemma page_next: "page c k + PAGE_SIZE = page c (Suc k)" "page c 1024 = page (Suc c) 0"
  by (simp_all add: page_def PAGE_SIZE_def algebra_simps)

lemma unat_and_mask: "unat ((x :: u32) AND mask n) = unat x mod 2 ^ n"
  by (simp only: take_bit_eq_mask [symmetric] unsigned_take_bit_eq take_bit_eq_mod [of n "unat x"])

lemma page_indices:
  assumes "c < 4" "k < 1024"
  shows "paging_directory_index (page c k) = of_nat c" "paging_table_index (page c k) = of_nat k"
    "page c k AND 0xFFFFF000 = page c k"
proof -
  have u: "unat (page c k) = c * 0x400000 + k * 0x1000" using assms by (simp add: unat_page)
  have d: "(c * 0x400000 + k * 0x1000) div 0x1000 = c * 1024 + k" "(c * 0x400000 + k * 0x1000) div 0x400000 = c"
    using assms(2) by linarith+
  show "paging_directory_index (page c k) = of_nat c"
    using assms by (simp add: word_unat_eq_iff paging_directory_index_def high_mask unat_and_mask unat_drop_bit32 u d)
  show "paging_table_index (page c k) = of_nat k"
    using assms by (simp add: word_unat_eq_iff paging_table_index_def high_mask unat_and_mask unat_drop_bit32 u d)
  show "page c k AND 0xFFFFF000 = page c k"
    unfolding high_mask by (simp add: word_unat_eq_iff unat_and_not_mask u d)
qed

lemma clear_loop_outside:
  assumes "unat p + 4096 \<le> 2 ^ 32" "apart 4096 p 4 a"
  shows "read32 (clear_loop PAGE_ENTRIES p m) a = read32 m a"
proof (rule read32_cong)
  fix j :: nat assume j: "j < 4"
  then have "unat (a + of_nat j) = unat a + j" using assms(2) by (intro unat_offset) (simp add: apart_def)
  then show "clear_loop PAGE_ENTRIES p m (a + of_nat j) = m (a + of_nat j)"
    using assms j by (auto simp: PAGE_ENTRIES_def clear_loop_bytes apart_def)
qed

section \<open>Filling a table\<close>

abbreviation kframe :: u32 where "kframe \<equiv> 0x201000"
abbreviation kdir :: u32 where "kdir \<equiv> 0x200010"

lemma pte_addr_page:
  assumes "c < 4" "k < 1024" "read32 m (entry_addr kdir (of_nat c)) = 0x201007"
  shows "pde_of m kdir (page c k) = 0x201007" "pte_addr m kdir (page c k) = entry_addr kframe (of_nat k)"
proof -
  show p: "pde_of m kdir (page c k) = 0x201007"
    using assms by (simp add: pde_of_def page_indices)
  have "paging_get_address 0x201007 = kframe" by (simp add: paging_get_address_def)
  then show "pte_addr m kdir (page c k) = entry_addr kframe (of_nat k)"
    using assms p by (simp add: pte_addr_def page_indices)
qed

text \<open>The word at \<open>a\<close> is not among the entries from the \<open>k\<close>th on.\<close>

definition spared :: "nat \<Rightarrow> u32 \<Rightarrow> bool" where
  "spared k a \<longleftrightarrow> unat a + 4 \<le> 0x201000 + 4 * k \<or> 0x202000 \<le> unat a \<and> unat a + 4 \<le> 2 ^ 32"

lemma fill_rest:
  assumes "c < 4" "1 \<le> k" "k \<le> 1024" "page (Suc c) 0 \<le> e" "read32 (mem s) (entry_addr kdir (of_nat c)) = 0x201007"
  shows "\<exists>m'. identity_loop kdir (page c k) e 7 s = identity_loop kdir (page (Suc c) 0) e 7 (s\<lparr>mem := m'\<rparr>) \<and>
    (\<forall>j. k \<le> j \<longrightarrow> j < 1024 \<longrightarrow> read32 m' (entry_addr kframe (of_nat j)) = paging_create_pte (page c j) 7) \<and>
    (\<forall>a. spared k a \<longrightarrow> read32 m' a = read32 (mem s) a)"
  using assms(2-)
proof (induction "1024 - k" arbitrary: k s)
  case 0
  then have "k = 1024" by simp
  then show ?case by (intro exI [of _ "mem s"]) (simp add: page_next(2))
next
  case (Suc n)
  then have k: "k < 1024" by simp
  define m1 where "m1 = write32 (mem s) (entry_addr kframe (of_nat k)) (paging_create_pte (page c k) 7)"
  have u: "unat (entry_addr kframe (of_nat j)) = 0x201000 + 4 * j" if "j < 1024" for j
    using that by (subst unat_entry_addr) simp_all
  have out: "read32 m1 a = read32 (mem s) a" if "spared k a" for a
    unfolding m1_def by (rule read32_write32_apart) (use that u [OF k] k in \<open>auto simp: apart_def spared_def\<close>)
  note p = pte_addr_page [OF assms(1) k Suc.prems(4)]
  have lt: "page c k < e"
  proof -
    have "unat (page (Suc c) 0) = unat (page c 1024)" by (simp add: page_next)
    then have "page c k < page (Suc c) 0"
      using assms(1) k by (simp add: word_less_nat_alt unat_page)
    then show ?thesis using Suc.prems(3) by simp
  qed
  have "paging_is_present 0x201007" by (simp add: paging_is_present_def PAGE_PRESENT_def)
  then have "paging_map_page kdir (page c k) (page c k) 7 s = Some (s\<lparr>mem := m1\<rparr>)"
    using map_page_present [of s kdir "page c k"] p by (simp add: m1_def PAGE_PRESENT_def)
  then have step: "identity_loop kdir (page c k) e 7 s = identity_loop kdir (page c (Suc k)) e 7 (s\<lparr>mem := m1\<rparr>)"
    using lt by (subst identity_loop.simps) (simp add: page_next)
  have ud: "unat (entry_addr kdir (of_nat c)) = 0x200010 + 4 * c" using assms(1) by (subst unat_entry_addr) simp_all
  have "read32 (mem (s\<lparr>mem := m1\<rparr>)) (entry_addr kdir (of_nat c)) = 0x201007"
    using out [of "entry_addr kdir (of_nat c)"] Suc.prems(1,4) ud assms(1) by (simp add: spared_def)
  moreover have n: "n = 1024 - Suc k" using Suc.hyps(2) by simp
  ultimately obtain m' where m': "identity_loop kdir (page c (Suc k)) e 7 (s\<lparr>mem := m1\<rparr>) =
      identity_loop kdir (page (Suc c) 0) e 7 (s\<lparr>mem := m1, mem := m'\<rparr>)"
    "\<And>j. Suc k \<le> j \<Longrightarrow> j < 1024 \<Longrightarrow> read32 m' (entry_addr kframe (of_nat j)) = paging_create_pte (page c j) 7"
    "\<And>a. spared (Suc k) a \<Longrightarrow> read32 m' a = read32 m1 a"
    using Suc.hyps(1) [OF n, of "s\<lparr>mem := m1\<rparr>"] Suc.prems k by auto
  have "read32 m' (entry_addr kframe (of_nat k)) = paging_create_pte (page c k) 7"
    using m'(3) [of "entry_addr kframe (of_nat k)"] u [OF k] by (simp add: m1_def spared_def)
  moreover have "j = k \<or> Suc k \<le> j" if "k \<le> j" for j using that by auto
  ultimately have "read32 m' (entry_addr kframe (of_nat j)) = paging_create_pte (page c j) 7" if "k \<le> j" "j < 1024" for j
    using m'(2) [of j] that by auto
  moreover have "read32 m' a = read32 (mem s) a"
if "spared k a" for a
    using m'(3) [of a] out [of a] that by (auto simp: spared_def)
  ultimately show ?case using step m'(1) by auto
qed

section \<open>The first page of four megabytes\<close>

text \<open>The words that decide what the next allocation finds: the first header and the four entries of the
  directory behind it.\<close>

definition low_same :: "bytemem \<Rightarrow> bytemem \<Rightarrow> bool" where
  "low_same m m' \<longleftrightarrow> (\<forall>a. 0x200000 \<le> unat a \<and> unat a + 4 \<le> 0x200020 \<longrightarrow> read32 m' a = read32 m a)"

lemma low_same_refl [simp]: "low_same m m"
  by (simp add: low_same_def)

lemma low_same_write:
  assumes "low_same m m'" "apart 4 w 0x20 0x200000"
  shows "low_same m (write32 m' w v)"
proof -
  have "apart 4 w 4 a" if "0x200000 \<le> unat a" "unat a + 4 \<le> 0x200020" for a
    using assms(2) that by (auto simp: apart_def)
  then show ?thesis using assms(1) by (simp add: low_same_def)
qed

text \<open>\<open>c\<close> entries are written; the block after the directory looks free and large.\<close>

definition ready_for :: "nat \<Rightarrow> bytemem \<Rightarrow> bool" where
  "ready_for c m \<longleftrightarrow> read32 m 0x200000 = 0x1000 \<and> read32 m 0x200004 = 0 \<and> read32 m 0x200008 = 0x201010 \<and>
     0x1010 < unat (read32 m 0x201010) \<and> read32 m 0x201014 \<noteq> 0 \<and>
     read32 m 0x201018 \<in> {0, 0x6007, 0x406007, 0x806007, 0xC06007} \<and>
     (\<forall>k < 4. read32 m (entry_addr kdir (of_nat k)) = (if k < c then 0x201007 else 0))"

lemma kmalloc_table:
  assumes "ready_for c (mem s)" "heap_initialized s" "heap_start s = 0x200000"
  shows "\<exists>m1 h. kmalloc 4096 s = Some (0x201020, s\<lparr>heap_end := h, mem := m1\<rparr>) \<and> low_same (mem s) m1"
proof -
  have r: "(4096 + 3) AND NOT 3 = (4096 :: u32)" by simp
  have find: "find_free_block 4096 s = Some 0x201010"
    unfolding find_free_block_def assms(3) using assms(1)
    by (subst find_free_loop.simps, subst find_free_loop.simps)
      (simp add: ready_for_def block_at_def read_block_def word_le_nat_alt)
  define n where "n = read32 (mem s) 0x201018"
  have n: "n \<in> {0, 0x6007, 0x406007, 0x806007, 0xC06007}" using assms(1) by (simp add: ready_for_def n_def)
  have big: "\<not> read32 (mem s) 0x201010 \<le> 0x1010" using assms(1) by (simp add: ready_for_def word_le_nat_alt)
  define m0 where "m0 = write32 (write32 (write32 (write32 (mem s) 0x202020 (read32 (mem s) 0x201010 - 0x1010)) 0x202024 1)
    0x202028 n) 0x20202C 0x201010"
  define m1 where "m1 = (if n = 0 then m0 else write32 m0 (n + 12) 0x202020)"
  define m2 where "m2 = write32 (write32 (write32 m1 0x201018 0x202020) 0x201010 0x1000) 0x201014 0"
  have m0: "read32 m0 0x201018 = n" "low_same (mem s) m0"
    by (simp_all add: m0_def n_def apart_def low_same_write)
  have "low_same (mem s) m1" using m0(2) n by (auto simp: m1_def apart_def low_same_write)
  then have "low_same (mem s) m2" by (simp add: m2_def apart_def low_same_write)
  moreover have "kmalloc 4096 s = Some (0x201020, s\<lparr>heap_end := (if n = 0 then 0x202020 else heap_end s), mem := m2\<rparr>)"
    using assms(2) big m0(1)
    by (cases "n = 0") (simp_all add: kmalloc_def r find split_block_def Let_def block_at_def read_block_def set_size_def set_is_free_def
        set_next_def set_prev_def SIZEOF_BLOCK_def n_def [symmetric] m0_def m1_def m2_def apart_def)
  ultimately show ?thesis by blast
qed

lemma table_entries_as_header:
  assumes "c < 4"
  shows "0x1010 < unat (paging_create_pte (page c 4) 7)" "paging_create_pte (page c 5) 7 \<noteq> 0"
    "paging_create_pte (page c 6) 7 \<in> {0, 0x6007, 0x406007, 0x806007, 0xC06007}"
proof -
  from assms have "c = 0 \<or> c = 1 \<or> c = 2 \<or> c = 3" by auto
  then show "0x1010 < unat (paging_create_pte (page c 4) 7)" "paging_create_pte (page c 5) 7 \<noteq> 0"
    "paging_create_pte (page c 6) 7 \<in> {0, 0x6007, 0x406007, 0x806007, 0xC06007}"
    by (elim disjE; simp add: page_def paging_create_pte_def)+
qed

lemma unat_dir_entry: "k < 4 \<Longrightarrow> unat (entry_addr kdir (of_nat k)) = 0x200010 + 4 * k"
  by (subst unat_entry_addr) simp_all

lemma first_page:
  assumes "ready_for c (mem s)" "heap_initialized s" "heap_start s = 0x200000" "c < 4"
  shows "\<exists>h m1. paging_map_page kdir (page c 0) (page c 0) 7 s = Some (s\<lparr>heap_end := h, mem := m1\<rparr>) \<and>
    read32 m1 0x200000 = 0x1000 \<and> read32 m1 0x200004 = 0 \<and> read32 m1 0x200008 = 0x201010 \<and>
    (\<forall>k < 4. read32 m1 (entry_addr kdir (of_nat k)) = (if k < Suc c then 0x201007 else 0))"
proof -
  obtain m h where k: "kmalloc 4096 s = Some (0x201020, s\<lparr>heap_end := h, mem := m\<rparr>)" "low_same (mem s) m"
    using kmalloc_table [OF assms(1-3)] by blast
  let ?e = "entry_addr kdir (of_nat c)"
  define m1 where "m1 = write32 (write32 (clear_loop PAGE_ENTRIES 0x201020 m) ?e 0x201007) 0x201020 (paging_create_pte (page c 0) 7)"
  have clear: "read32 (clear_loop PAGE_ENTRIES 0x201020 m) a = read32 (mem s) a"
    if "0x200000 \<le> unat a" "unat a + 4 \<le> 0x200020" for a
    using k(2) that by (subst clear_loop_outside) (simp_all add: apart_def low_same_def)
  have m1: "read32 m1 a = (if a = ?e then 0x201007 else read32 (mem s) a)"
    if "0x200000 \<le> unat a" "unat a + 4 \<le> 0x200020" "a = ?e \<or> apart 4 ?e 4 a" for a
    using that clear [of a] by (auto simp: m1_def apart_def)
  have absent: "\<not> paging_is_present (read32 (mem s) ?e)" using assms(1,4) by (simp add: ready_for_def)
  have v: "paging_create_pde 0x201020 (PAGE_PRESENT OR PAGE_WRITE OR 7) = 0x201007" "PAGE_PRESENT OR 7 = 7"
    by (simp_all add: paging_create_pde_def PAGE_PRESENT_def PAGE_WRITE_def)
  have i: "paging_directory_index (page c 0) = of_nat c" "paging_table_index (page c 0) = 0"
    using page_indices [OF assms(4), of 0] by simp_all
  have e0: "entry_addr 0x201020 0 = 0x201020" by (simp add: entry_addr_def)
  have "paging_map_page kdir (page c 0) (page c 0) 7 s = Some (s\<lparr>heap_end := h, mem := m1\<rparr>)"
    unfolding paging_map_page_def Let_def i m1_def using absent k(1) by (simp add: v e0)
  moreover have "read32 m1 (entry_addr kdir (of_nat j)) = (if j < Suc c then 0x201007 else 0)" if j: "j < 4" for j
  proof (cases "j = c")
    case True
    then show ?thesis using m1 [of ?e] unat_dir_entry [OF j] j by simp
  next
    case False
    define x where "x = entry_addr kdir (of_nat j)"
    have ux: "unat x = 0x200010 + 4 * j" unfolding x_def by (rule unat_dir_entry [OF j])
    have a: "apart 4 ?e 4 x"
      using False ux unat_dir_entry [OF assms(4)] j assms(4) by (auto simp: apart_def)
    then have "x \<noteq> ?e" by (auto simp: apart_def)
    then have "read32 m1 x = read32 (mem s) x" using m1 [of x] a ux j by simp
    moreover have "read32 (mem s) x = (if j < c then 0x201007 else 0)" using assms(1) j by (simp add: ready_for_def x_def)
    ultimately show ?thesis using False by (simp add: x_def [symmetric])
  qed
  moreover have "read32 m1 a = read32 (mem s) a" if "0x200000 \<le> unat a" "unat a \<le> 0x20000C" for a
    using m1 [of a] that unat_dir_entry [OF assms(4)] assms(4) by (auto simp: apart_def)
  ultimately show ?thesis
    using assms(1) by (intro exI [of _ h] exI [of _ m1] conjI) (simp_all add: ready_for_def)
qed

lemma four_megabytes:
  assumes "ready_for c (mem s)" "heap_initialized s" "heap_start s = 0x200000" "c < 4" "page (Suc c) 0 \<le> e"
  shows "\<exists>h m'. identity_loop kdir (page c 0) e 7 s = identity_loop kdir (page (Suc c) 0) e 7 (s\<lparr>heap_end := h, mem := m'\<rparr>) \<and>
    ready_for (Suc c) m' \<and>
    (\<forall>j. 1 \<le> j \<longrightarrow> j < 1024 \<longrightarrow> read32 m' (entry_addr kframe (of_nat j)) = paging_create_pte (page c j) 7)"
proof -
  obtain h m1 where f: "paging_map_page kdir (page c 0) (page c 0) 7 s = Some (s\<lparr>heap_end := h, mem := m1\<rparr>)"
    "read32 m1 0x200000 = 0x1000" "read32 m1 0x200004 = 0" "read32 m1 0x200008 = 0x201010"
    "\<And>k. k < 4 \<Longrightarrow> read32 m1 (entry_addr kdir (of_nat k)) = (if k < Suc c then 0x201007 else 0)"
    using first_page [OF assms(1-4)] by blast
  have lt: "page c 0 < e"
  proof -
    have "unat (page (Suc c) 0) = unat (page c 1024)" by (simp add: page_next)
    then have "page c 0 < page (Suc c) 0" using assms(4) by (simp add: word_less_nat_alt unat_page)
    then show ?thesis using assms(5) by simp
  qed
  obtain m' where m': "identity_loop kdir (page c 1) e 7 (s\<lparr>heap_end := h, mem := m1\<rparr>) =
      identity_loop kdir (page (Suc c) 0) e 7 (s\<lparr>heap_end := h, mem := m1, mem := m'\<rparr>)"
    "\<And>j. 1 \<le> j \<Longrightarrow> j < 1024 \<Longrightarrow> read32 m' (entry_addr kframe (of_nat j)) = paging_create_pte (page c j) 7"
    "\<And>a. spared 1 a \<Longrightarrow> read32 m' a = read32 m1 a"
    using fill_rest [OF assms(4) _ _ assms(5), of 1 "s\<lparr>heap_end := h, mem := m1\<rparr>"] f(5) [OF assms(4)] by auto
  have step: "identity_loop kdir (page c 0) e 7 s = identity_loop kdir (page c 1) e 7 (s\<lparr>heap_end := h, mem := m1\<rparr>)"
    using lt f(1) by (subst identity_loop.simps) (simp add: page_next)
  have "read32 m' (entry_addr kdir (of_nat k)) = (if k < Suc c then 0x201007 else 0)" if "k < 4" for k
    using m'(3) [of "entry_addr kdir (of_nat k)"] f(5) [OF that] unat_dir_entry [OF that] that by (simp add: spared_def)
  moreover have "read32 m' 0x200000 = 0x1000" "read32 m' 0x200004 = 0" "read32 m' 0x200008 = 0x201010"
    using f(2-4) m'(3) by (simp_all add: spared_def)
  moreover have "entry_addr kframe (of_nat 4) = 0x201010" "entry_addr kframe (of_nat 5) = 0x201014"
    "entry_addr kframe (of_nat 6) = 0x201018" by (simp_all add: entry_addr_def)
  ultimately have "ready_for (Suc c) m'"
    using m'(2) [of 4] m'(2) [of 5] m'(2) [of 6] table_entries_as_header [OF assms(4)] by (simp add: ready_for_def)
  then show ?thesis using step m'(1,2) by auto
qed

lemma sixteen_megabytes:
  assumes "ready_for 0 (mem s)" "heap_initialized s" "heap_start s = 0x200000"
  shows "\<exists>h m'. identity_loop kdir 0 0x1000000 7 s = Some (s\<lparr>heap_end := h, mem := m'\<rparr>) \<and> ready_for 4 m' \<and>
    (\<forall>j. 1 \<le> j \<longrightarrow> j < 1024 \<longrightarrow> read32 m' (entry_addr kframe (of_nat j)) = paging_create_pte (page 3 j) 7)"
proof -
  have le: "page (Suc c) 0 \<le> 0x1000000" if "c < 4" for c
  proof -
    from that have "c = 0 \<or> c = 1 \<or> c = 2 \<or> c = 3" by auto
    then show ?thesis by (elim disjE) (simp_all add: page_def)
  qed
  have "\<exists>h m'. identity_loop kdir (page 0 0) 0x1000000 7 s = identity_loop kdir (page c 0) 0x1000000 7 (s\<lparr>heap_end := h, mem := m'\<rparr>) \<and>
    ready_for c m' \<and> (c \<noteq> 0 \<longrightarrow> (\<forall>j. 1 \<le> j \<longrightarrow> j < 1024 \<longrightarrow>
      read32 m' (entry_addr kframe (of_nat j)) = paging_create_pte (page (c - 1) j) 7))" if "c \<le> 4" for c
    using that
  proof (induction c)
    case 0
    show ?case using assms(1) by (intro exI [of _ "heap_end s"] exI [of _ "mem s"]) simp
  next
    case (Suc c)
    then obtain h m where m: "identity_loop kdir (page 0 0) 0x1000000 7 s =
        identity_loop kdir (page c 0) 0x1000000 7 (s\<lparr>heap_end := h, mem := m\<rparr>)" "ready_for c m" by auto
    show ?case
      using four_megabytes [of c "s\<lparr>heap_end := h, mem := m\<rparr>" "0x1000000"] le [of c] m Suc.prems assms(2,3) by fastforce
  qed
  from this [of 4] obtain h m' where m: "identity_loop kdir (page 0 0) 0x1000000 7 s =
      identity_loop kdir (page 4 0) 0x1000000 7 (s\<lparr>heap_end := h, mem := m'\<rparr>)" "ready_for 4 m'"
    "\<And>j. 1 \<le> j \<Longrightarrow> j < 1024 \<Longrightarrow> read32 m' (entry_addr kframe (of_nat j)) = paging_create_pte (page 3 j) 7"
    by auto
  have "page 4 0 = 0x1000000" "page 0 0 = 0" by (simp_all add: page_def)
  then have "identity_loop kdir 0 0x1000000 7 s = Some (s\<lparr>heap_end := h, mem := m'\<rparr>)"
    using m(1) by simp (subst identity_loop.simps, simp)
  then show ?thesis using m(2,3) by blast
qed

section \<open>Initialisation\<close>

lemma fresh_header:
  assumes "heap_rep s [(0x3FFFF0, True)]" "heap_start s = 0x200000"
  shows "read32 (mem s) 0x200000 = 0x3FFFF0" "read32 (mem s) 0x200004 \<noteq> 0" "read32 (mem s) 0x200008 = 0"
    "heap_initialized s"
  using assms by (auto simp: heap_rep_def hdr_def rd_def word_unat_eq_iff)

lemma kmalloc_directory:
  assumes "heap_rep s [(0x3FFFF0, True)]" "heap_start s = 0x200000"
  shows "\<exists>m1. kmalloc 4096 s = Some (kdir, s\<lparr>heap_end := 0x201010, mem := m1\<rparr>) \<and>
    read32 m1 0x200000 = 0x1000 \<and> read32 m1 0x200004 = 0 \<and> read32 m1 0x200008 = 0x201010 \<and>
    read32 m1 0x201010 = 0x3FEFE0 \<and> read32 m1 0x201014 = 1 \<and> read32 m1 0x201018 = 0"
proof -
  note h = fresh_header [OF assms]
  have r: "(4096 + 3) AND NOT 3 = (4096 :: u32)" by simp
  have find: "find_free_block 4096 s = Some 0x200000"
    unfolding find_free_block_def assms(2) using h
    by (subst find_free_loop.simps) (simp add: block_at_def read_block_def)
  define m0 where "m0 = write32 (write32 (write32 (write32 (mem s) 0x201010 0x3FEFE0) 0x201014 1) 0x201018 0) 0x20101C 0x200000"
  define m1 where "m1 = write32 (write32 (write32 m0 0x200008 0x201010) 0x200000 0x1000) 0x200004 0"
  have "kmalloc 4096 s = Some (kdir, s\<lparr>heap_end := 0x201010, mem := m1\<rparr>)"
    using h by (simp add: kmalloc_def r find split_block_def Let_def block_at_def read_block_def set_size_def set_is_free_def
        set_next_def set_prev_def SIZEOF_BLOCK_def m0_def m1_def apart_def)
  then show ?thesis by (intro exI [of _ m1]) (simp add: m0_def m1_def apart_def)
qed

lemma kernel_directory_out [simp]: "kernel_directory (kprintk fmt args s) = kernel_directory s"
  by (simp add: kout_defs)

lemma ready_for_entry: "ready_for c m \<Longrightarrow> k < 4 \<Longrightarrow> read32 m (entry_addr kdir (of_nat k)) = (if k < c then 0x201007 else 0)"
  by (simp add: ready_for_def)

lemma ready_for_store:
  assumes "ready_for c m" "apart 4 w 0x20 0x200000" "apart 4 w 0x10 0x201010"
  shows "ready_for c (write32 m w v)"
proof -
  have "read32 (write32 m w v) (entry_addr kdir (of_nat k)) = read32 m (entry_addr kdir (of_nat k))" if "k < 4" for k
    using assms(2) unat_dir_entry [OF that] that by (intro read32_write32_apart) (auto simp: apart_def)
  moreover have "read32 (write32 m w v) a = read32 m a" if "a \<in> {0x200000, 0x200004, 0x200008, 0x201010, 0x201014, 0x201018}" for a
    using that assms(2,3) by (intro read32_write32_apart) (auto simp: apart_def)
  ultimately show ?thesis using assms(1) by (simp add: ready_for_def)
qed

text \<open>What is left of memory when the tables are set up.\<close>

definition tables_aliased :: "bytemem \<Rightarrow> bool" where
  "tables_aliased m \<longleftrightarrow> ready_for 4 m \<and> (\<forall>j. 1 \<le> j \<longrightarrow> j < 1024 \<longrightarrow>
     read32 m (entry_addr kframe (of_nat j)) = (if j = 0xB8 then 0xB8003 else paging_create_pte (page 3 j) 7))"

text \<open>The last mapping, of the text screen, with the four tables one: the entry is stored in the shared table.\<close>

lemma screen_mapping:
  fixes t :: "'a paging_st_scheme"
  assumes "ready_for 4 (mem t)"
  shows "paging_map_page kdir 0xB8000 0xB8000 (PAGE_PRESENT OR PAGE_WRITE) t =
    Some (t\<lparr>mem := write32 (mem t) (entry_addr kframe 0xB8) 0xB8003\<rparr>)"
proof -
  have pg: "0xB8000 = page 0 0xB8" by (simp add: page_def)
  have "read32 (mem t) (entry_addr kdir (of_nat 0)) = 0x201007" using ready_for_entry [OF assms, of 0] by simp
  note p = pte_addr_page [of 0 "0xB8", OF _ _ this]
  show ?thesis
    using map_page_present [of t kdir "0xB8000"] p unfolding pg [symmetric]
    by (simp add: paging_is_present_def PAGE_PRESENT_def PAGE_WRITE_def paging_create_pte_def)
qed

lemma screen_mapping_aliased:
  assumes r: "ready_for 4 m"
    and pte: "\<And>j. 1 \<le> j \<Longrightarrow> j < 1024 \<Longrightarrow> read32 m (entry_addr kframe (of_nat j)) = paging_create_pte (page 3 j) 7"
  shows "tables_aliased (write32 m (entry_addr kframe 0xB8) 0xB8003)"
proof -
  define m' where "m' = write32 m (entry_addr kframe 0xB8) 0xB8003"
  have e: "entry_addr kframe 0xB8 = 0x2012E0" by (simp add: entry_addr_def)
  have "ready_for 4 m'" unfolding m'_def e by (rule ready_for_store [OF r]) (simp_all add: apart_def)
  moreover have "read32 m' (entry_addr kframe (of_nat j)) = paging_create_pte (page 3 j) 7"
    if "1 \<le> j" "j < 1024" "j \<noteq> 0xB8" for j
  proof -
    have "unat (entry_addr kframe (of_nat j)) = 0x201000 + 4 * j" using that by (subst unat_entry_addr) simp_all
    then have "apart 4 (entry_addr kframe 0xB8) 4 (entry_addr kframe (of_nat j))"
      using that by (auto simp: apart_def e)
    then show ?thesis using pte [OF that(1,2)] by (simp add: m'_def)
  qed
  ultimately show ?thesis unfolding m'_def [symmetric] by (auto simp: tables_aliased_def m'_def)
qed

lemma paging_init_result:
  assumes "heap_rep s [(0x3FFFF0, True)]" "heap_start s = 0x200000"
  shows "\<exists>c h m. paging_init s = Some (s\<lparr>kernel_directory := kdir, heap_end := h, mem := m, current_directory := kdir, con := c\<rparr>) \<and>
    tables_aliased m"
proof -
  obtain c0 where c0: "kinfo ''Initializing Virtual Memory (Paging)'' [] s = s\<lparr>con := c0\<rparr>" by (simp add: kout_defs)
  have rep: "heap_rep (s\<lparr>con := c0\<rparr>) [(0x3FFFF0, True)]" using assms(1) by (simp add: heap_rep_def)
  obtain m1 where k: "kmalloc 4096 (s\<lparr>con := c0\<rparr>) = Some (kdir, s\<lparr>con := c0, heap_end := 0x201010, mem := m1\<rparr>)"
    "read32 m1 0x200000 = 0x1000" "read32 m1 0x200004 = 0" "read32 m1 0x200008 = 0x201010"
    "read32 m1 0x201010 = 0x3FEFE0" "read32 m1 0x201014 = 1" "read32 m1 0x201018 = 0"
    using kmalloc_directory [OF rep] assms(2) by auto
  define m2 where "m2 = clear_loop PAGE_ENTRIES kdir m1"
  have clear: "read32 m2 a = read32 m1 a" if "apart 4096 kdir 4 a" for a
    unfolding m2_def by (rule clear_loop_outside) (use that in simp_all)
  have zero: "read32 m2 (entry_addr kdir (of_nat k)) = 0" if "k < 4" for k
    unfolding m2_def by (rule clear_loop_word) (use unat_dir_entry [OF that] that in simp_all)
  have b: "ready_for 0 m2" using k(2-) zero by (simp add: ready_for_def clear apart_def)
  define s2 where "s2 = kprintk (''    Mapping 0x%08X -> 0x%08X (identity)'' @ [CHR 0x0A]) [VInt 0, VInt 0x1000000]
    (kprintk (''  Identity mapping first 16MB (kernel + user space)...'' @ [CHR 0x0A]) []
      (kprintk (''  Kernel page directory allocated at: %p'' @ [CHR 0x0A]) [VInt kdir]
        (s\<lparr>con := c0, heap_end := 0x201010, kernel_directory := kdir, mem := m2\<rparr>)))"
  define c2 where "c2 = con s2"
  have s2: "s2 = s\<lparr>con := c2, heap_end := 0x201010, kernel_directory := kdir, mem := m2\<rparr>"
    by (simp add: c2_def s2_def kout_defs)
  have kd: "kernel_directory s2 = kdir" by (simp add: s2)
  obtain h m3 where m3: "identity_loop kdir 0 0x1000000 7 s2 = Some (s2\<lparr>heap_end := h, mem := m3\<rparr>)" "ready_for 4 m3"
    "\<And>j. 1 \<le> j \<Longrightarrow> j < 1024 \<Longrightarrow> read32 m3 (entry_addr kframe (of_nat j)) = paging_create_pte (page 3 j) 7"
    using sixteen_megabytes [of s2] b fresh_header(4) [OF assms] assms(2) by (auto simp: s2)
  have fl: "PAGE_PRESENT OR PAGE_WRITE OR PAGE_USER = 7" "PAGE_ALIGN 0x1000000 = 0x1000000"
    by (simp_all add: PAGE_PRESENT_def PAGE_WRITE_def PAGE_USER_def PAGE_ALIGN_def PAGE_SIZE_def)
  define m4 where "m4 = write32 m3 (entry_addr kframe 0xB8) 0xB8003"
  have vga: "paging_map_page kdir 0xB8000 0xB8000 (PAGE_PRESENT OR PAGE_WRITE) t = Some (t\<lparr>mem := m4\<rparr>)"
    if "mem t = m3" for t :: "'a paging_st_scheme"
    using screen_mapping [of t] m3(2) that by (simp add: m4_def)
  have al: "tables_aliased m4" unfolding m4_def by (rule screen_mapping_aliased [OF m3(2,3)])
  have "paging_init s = Some
      (kprintk (''  [OK] Identity mapping complete'' @ [CHR 0x0A]) []
        (kprintk (''  [OK] Page tables configured'' @ [CHR 0x0A]) []
          ((kprintk (''  Mapping VGA text buffer (0xB8000)...'' @ [CHR 0x0A]) [] (s2\<lparr>heap_end := h, mem := m3\<rparr>))
            \<lparr>mem := m4, current_directory := kdir\<rparr>)))"
    unfolding paging_init_def c0 Let_def using k(1) m3(1) [unfolded s2_def] fl kd
    by (simp add: m2_def [symmetric] paging_identity_map_def vga s2_def)
  then show ?thesis using al by (simp add: s2 kout_defs) blast
qed

lemma pte_address: "paging_get_address (paging_create_pte pa 7) = pa AND 0xFFFFF000" "paging_is_present (paging_create_pte pa 7)"
  using get_address_create(1) [of pa 7] present_create [of pa 7] by (simp_all add: PAGE_PRESENT_def)

lemma table_and_offset: "va AND 0x3FFFFF = paging_table_index va * 0x1000 + paging_page_offset va"
proof -
  have m: "(0x3FFFFF :: u32) = mask 22" by (simp add: mask_eq_exp_minus_1)
  have t: "unat (paging_table_index va) = unat va div 0x1000 mod 1024"
    by (simp add: paging_table_index_def high_mask unat_and_mask unat_drop_bit32)
  have o: "unat (paging_page_offset va) = unat va mod 0x1000"
    by (simp add: paging_page_offset_def high_mask unat_and_mask)
  have "unat (paging_table_index va * 0x1000) = unat (paging_table_index va) * 0x1000"
    using index_bounds(2) [of va] by (subst unat_mult_lem [THEN iffD1]) simp_all
  then have "unat (paging_table_index va * 0x1000 + paging_page_offset va) =
      unat va div 0x1000 mod 1024 * 0x1000 + unat va mod 0x1000"
    using index_bounds(2,3) [of va] by (subst unat_plus_no_wrap) (simp_all add: t o)
  also have "\<dots> = unat va mod 0x400000"
    using mod_mult2_eq [of "unat va" "0x1000" 1024] by (simp add: mult.commute)
  also have "\<dots> = unat (va AND 0x3FFFFF)" by (simp add: m unat_and_mask)
  finally show ?thesis by (simp add: word_unat_eq_iff)
qed

lemma aliased_translation:
  assumes al: "tables_aliased (mem s)" and va: "va < 0x1000000" "0x1000 \<le> va AND 0x3FFFFF"
  shows "paging_get_physical_address kdir va s =
    (if paging_table_index va = 0xB8 then 0xB8000 + paging_page_offset va else 0xC00000 + (va AND 0x3FFFFF))"
proof -
  define c j where "c = unat (paging_directory_index va)" and "j = unat (paging_table_index va)"
  have "unat va div 0x400000 < 4" using va(1) by (simp add: word_less_nat_alt less_mult_imp_div_less)
  then have c: "c < 4" by (simp add: c_def paging_directory_index_def high_mask unat_and_mask unat_drop_bit32)
  have dj: "paging_directory_index va = of_nat c" "paging_table_index va = of_nat j" by (simp_all add: c_def j_def)
  have "paging_table_index va \<noteq> 0"
  proof
    assume "paging_table_index va = 0"
    then have "unat (va AND 0x3FFFFF) < 0x1000"
      using index_bounds(3) [of va] by (simp add: table_and_offset)
    then show False using va(2) by (simp add: word_le_nat_alt)
  qed
  then have j: "1 \<le> j" "j < 1024" using index_bounds(2) [of va] by (simp_all add: j_def Suc_le_eq unat_gt_0)
  have b: "ready_for 4 (mem s)" using al by (simp add: tables_aliased_def)
  have pde: "pde_of (mem s) kdir va = 0x201007"
    using ready_for_entry [OF b c] c by (simp add: pde_of_def dj)
  have "pte_addr (mem s) kdir va = entry_addr kframe (of_nat j)"
    unfolding pte_addr_def pde dj by (simp add: paging_get_address_def)
  then have pte: "read32 (mem s) (pte_addr (mem s) kdir va) = (if j = 0xB8 then 0xB8003 else paging_create_pte (page 3 j) 7)"
    using al j by (simp add: tables_aliased_def)
  have pg: "page 3 j = 0xC00000 + paging_table_index va * 0x1000"
    by (simp add: page_def dj)
  have j8: "j = 0xB8 \<longleftrightarrow> paging_table_index va = 0xB8" by (simp add: j_def word_unat_eq_iff)
  have pr: "paging_is_present 0x201007" "paging_is_present 0xB8003" "paging_get_address 0xB8003 = 0xB8000"
    by (simp_all add: paging_is_present_def PAGE_PRESENT_def paging_get_address_def)
  have "page 3 j AND 0xFFFFF000 = page 3 j" using page_indices(3) [of 3 j] j(2) by simp
  then show ?thesis
    unfolding get_physical_eq pde pte using pr pte_address [of "page 3 j"]
    by (simp add: j8 pg table_and_offset [of va])
qed

text \<open>C16 (error): on a new heap \<open>paging_init\<close> returns, but the four page tables it sets up are one and
  the same, because the entries it writes at the page boundary overwrite the header of the block that
  holds the table: what it reports as an identity mapping translates every address outside the first
  page of each four megabytes to the last of the four, the text buffer's page apart.\<close>

theorem paging_init_aliases_tables:
  assumes "heap_rep s [(0x3FFFF0, True)]" "heap_start s = 0x200000"
  shows "\<exists>s'. paging_init s = Some s' \<and>
    (\<forall>va. va < 0x1000000 \<longrightarrow> 0x1000 \<le> va AND 0x3FFFFF \<longrightarrow>
      paging_get_physical_address (current_directory s') va s' =
        (if paging_table_index va = 0xB8 then 0xB8000 + paging_page_offset va else 0xC00000 + (va AND 0x3FFFFF)))"
proof -
  obtain c h m where i: "paging_init s = Some (s\<lparr>kernel_directory := kdir, heap_end := h, mem := m, current_directory := kdir, con := c\<rparr>)"
    "tables_aliased m" using paging_init_result [OF assms] by blast
  let ?s = "s\<lparr>kernel_directory := kdir, heap_end := h, mem := m, current_directory := kdir, con := c\<rparr>"
  show ?thesis using i(1) aliased_translation [of ?s] i(2) by (intro exI [of _ ?s]) simp
qed

theorem paging_init_aliases_tables_witness:
  "\<exists>s'. paging_init boot_paging = Some s' \<and> paging_get_physical_address (current_directory s') 0x100000 s' = 0xD00000"
proof -
  obtain s' where s': "paging_init boot_paging = Some s'"
    "\<And>va. va < 0x1000000 \<Longrightarrow> 0x1000 \<le> va AND 0x3FFFFF \<Longrightarrow> paging_get_physical_address (current_directory s') va s' =
        (if paging_table_index va = 0xB8 then 0xB8000 + paging_page_offset va else 0xC00000 + (va AND 0x3FFFFF))"
    using paging_init_aliases_tables [OF boot_paging_rep(1,2)] by blast
  have "paging_table_index 0x100000 = 0x100" by (simp add: paging_table_index_def)
  then show ?thesis using s'(1) s'(2) [of "0x100000"] by simp
qed

text \<open>Fact (error): after \<open>paging_init\<close> the heap is lost: every allocation up to a megabyte answers the
  address of the page table in use.\<close>

theorem kmalloc_after_paging_init:
  assumes "heap_rep s [(0x3FFFF0, True)]" "heap_start s = 0x200000" "sz \<noteq> 0" "sz \<le> 0x100000"
  shows "\<exists>s' s''. paging_init s = Some s' \<and> paging_get_address (read32 (mem s') (kernel_directory s')) = 0x201000 \<and>
    kmalloc sz s' = Some (0x201020, s'')"
proof -
  obtain c h m where i: "paging_init s = Some (s\<lparr>kernel_directory := kdir, heap_end := h, mem := m, current_directory := kdir, con := c\<rparr>)"
    "tables_aliased m" using paging_init_result [OF assms(1,2)] by blast
  define s' where "s' = s\<lparr>kernel_directory := kdir, heap_end := h, mem := m, current_directory := kdir, con := c\<rparr>"
  have b: "ready_for 4 m" using i(2) by (simp add: tables_aliased_def)
  have "read32 m 0x201010 = paging_create_pte (page 3 4) 7"
    using i(2) by (auto simp: tables_aliased_def entry_addr_def dest!: conjunct2 spec [of _ 4])
  then have big: "read32 m 0x201010 = 0xC04007" by (simp add: page_def paging_create_pte_def)
  have "unat (sz + 3) = unat sz + 3" using assms(4) by (subst unat_plus_no_wrap) (simp_all add: word_le_nat_alt)
  then have r: "(sz + 3) AND NOT 3 \<le> 0x100003"
    using assms(4) div_times_less_eq_dividend [of "unat sz + 3" 4]
    by (simp add: word_le_nat_alt word_eq_mask(1) unat_and_not_mask)
  then have r: "(sz + 3) AND NOT 3 \<le> 0xC04007" by (rule order_trans) simp
  have "find_free_block ((sz + 3) AND NOT 3) s' = Some 0x201010"
    unfolding find_free_block_def using b big r assms(2)
    by (subst find_free_loop.simps, subst find_free_loop.simps)
      (simp add: s'_def ready_for_def block_at_def read_block_def)
  then have "\<exists>s''. kmalloc sz s' = Some (0x201020, s'')"
    using assms(3) fresh_header(4) [OF assms(1,2)] by (simp add: kmalloc_def SIZEOF_BLOCK_def) (simp add: s'_def)
  moreover have "paging_get_address (read32 m kdir) = 0x201000"
    using ready_for_entry [OF b, of 0] by (simp add: entry_addr_def paging_get_address_def)
  ultimately show ?thesis using i(1) by (auto simp: s'_def)
qed

text \<open>Fact (error): enabling paging with the directory of \<open>paging_init\<close> leaves the kernel unmapped: the
  processor takes the directory to start at the page boundary, where the header of its block is, and
  finds no table for the first four megabytes.\<close>

theorem paging_enable_unmaps_kernel:
  assumes "heap_rep s [(0x3FFFF0, True)]" "heap_start s = 0x200000" "va < 0x400000"
  shows "\<exists>s'. paging_init s = Some s' \<and> bit (cr0 (paging_enable s')) 31 \<and>
    mmu_walk (mem (paging_enable s')) (cr3 (paging_enable s')) va = None"
proof -
  obtain c h m where i: "paging_init s = Some (s\<lparr>kernel_directory := kdir, heap_end := h, mem := m, current_directory := kdir, con := c\<rparr>)"
    "tables_aliased m" using paging_init_result [OF assms(1,2)] by blast
  have "unat (drop_bit 22 va) = 0" using assms(3) by (simp add: unat_drop_bit32 word_less_nat_alt)
  then have "drop_bit 22 va = 0" by (simp add: unat_eq_0)
  moreover have "read32 m 0x200000 = 0x1000" using i(2) by (simp add: tables_aliased_def ready_for_def)
  ultimately have "mmu_walk m kdir va = None" by (simp add: mmu_walk_def)
  then show ?thesis
    unfolding i(1) by (simp add: paging_enable_def Let_def paging_load_directory_def paging_enable_hw_def kout_defs bit_simps)
qed

theorem kmalloc_after_paging_init_witness:
  "\<exists>s' s''. paging_init boot_paging = Some s' \<and> kmalloc 1024 s' = Some (0x201020, s'')"
  using kmalloc_after_paging_init [OF boot_paging_rep(1,2), of 1024] by auto

theorem paging_enable_unmaps_kernel_witness:
  "\<exists>s'. paging_init boot_paging = Some s' \<and> mmu_walk (mem (paging_enable s')) (cr3 (paging_enable s')) 0x100000 = None"
  using paging_enable_unmaps_kernel [OF boot_paging_rep(1,2), of "0x100000"] by auto

end
