(* ===== verification/Boot.thy ===== *)
theory Boot
  imports Shell_Theorems Paging_Boot
begin

text \<open>
  The start of the kernel, \<open>kmain\<close> of \<^verbatim>\<open>src/kernel/kernel.c\<close>: the subsystems are initialised one after
  the other, interrupts are enabled, and the shell runs. The entry code has set up a stack and cleared
  the static variables before.
\<close>

text \<open>What the boot depends on: the devices, the addresses the linker gives, the stack pointer that
  \<^verbatim>\<open>read_esp\<close> finds, and the shell's environment.\<close>

record 's boot_env =
  bt_dev :: device
  bt_stub :: "nat \<Rightarrow> u32"
  bt_syscall_wrapper :: u32
  bt_kmain :: u32
  bt_esp :: u32
  bt_shell :: "'s shell_env"

text \<open>\<open>console_clear\<close> to the end of the test of \<open>printk\<close>; a backslash is \<^verbatim>\<open>0x5C\<close>.\<close>

definition boot_banner :: "u32 \<Rightarrow> 'a kout_scheme \<Rightarrow> 'a kout_scheme" where
  "boot_banner kmain_at s =
     (let s = s\<lparr>con := console_clear (con s)\<rparr>;
          s = set_color VGA_COLOR_LIGHT_CYAN VGA_COLOR_BLACK s;
          s = say_lines
                [''    _   _   _   _   _   _   _   _  '',
                 ''  '' @ concat (replicate 8 ('' / '' @ [CHR 0x5C])) @ '' '',
                 ''  ( A )e( t )h( e )r( O )S(  ) '',
                 ''  '' @ concat (replicate 8 ('' '' @ [CHR 0x5C] @ ''_/'')) @ '' ''] s;
          s = set_color VGA_COLOR_WHITE VGA_COLOR_BLACK s;
          s = say_lines
                [[CHR 0x0A] @ ''Aether OS Kernel v0.1.0 - Booted via GRUB'',
                 ''AI-Native Operating System - Phase 0 Complete'' @ [CHR 0x0A],
                 ''printk Test Suite:''] s;
          s = kprintk (''  String: %s'' @ [CHR 0x0A]) [VStr (Some ''Hello, Aether!'')] s;
          s = kprintk (''  Character: %c'' @ [CHR 0x0A]) [VInt (of_char (CHR ''A''))] s;
          s = kprintk (''  Decimal: %d'' @ [CHR 0x0A]) [VInt (- 12345)] s;
          s = kprintk (''  Unsigned: %u'' @ [CHR 0x0A]) [VInt 4294967295] s;
          s = kprintk (''  Hex (lower): 0x%x'' @ [CHR 0x0A]) [VInt 0xDEADBEEF] s;
          s = kprintk (''  Hex (upper): 0x%X'' @ [CHR 0x0A]) [VInt 0xCAFEBABE] s;
          s = kprintk (''  Pointer: %p'' @ [CHR 0x0A]) [VInt kmain_at] s
      in kputs (''  Literal %%: 100%%'' @ [CHR 0x0A]) s)"

text \<open>The initialisations, up to the enabling of interrupts.\<close>

definition boot_subsystems :: "'s boot_env \<Rightarrow> 'a kbd_st_scheme \<Rightarrow> 'a kbd_st_scheme option" where
  "boot_subsystems env s = do {
     let s = kinfo ''Phase 1: Kernel Foundation Initialization'' [] s;
     let s = gdt_init s;
     let s = tss_init (bt_esp env) s;
     let s = idt_init (bt_stub env) s;
     let s = pic_init (bt_dev env) s;
     s \<leftarrow> timer_init (bt_dev env) 100 s;
     let s = memory_init s;
     s \<leftarrow> paging_init s;
     let s = process_init s;
     let s = scheduler_init s;
     let s = usermode_init s;
     let s = syscall_init (bt_syscall_wrapper env) s;
     s \<leftarrow> keyboard_init (bt_dev env) s;
     let s = kinfo ''Enabling hardware interrupts'' [] s;
     Some (s\<lparr>interrupt_flag := True\<rparr>) }"

definition boot_report :: "'a kout_scheme \<Rightarrow> 'a kout_scheme" where
  "boot_report s =
     (let s = say_lines
            [[CHR 0x0A] @ ''Subsystem Status:'',
             ''  [DONE] GDT - Global Descriptor Table (with TSS)'',
             ''  [DONE] TSS - Task State Segment'',
             ''  [DONE] IDT - Interrupt Descriptor Table (exceptions + IRQs)'',
             ''  [DONE] PIC - Programmable Interrupt Controller'',
             ''  [DONE] PIT - Programmable Interval Timer (100 Hz)'',
             ''  [DONE] Memory - Kernel Heap Allocator (4MB)'',
             ''  [DONE] Paging - Virtual Memory (initialized, not yet enabled)'',
             ''  [DONE] Process - PCB and Process Management'',
             ''  [DONE] Scheduler - Round-Robin Scheduling (ready)'',
             ''  [DONE] User Mode - Ring 3 execution support'',
             ''  [DONE] System Calls - INT 0x80 interface'',
             ''  [DONE] Keyboard - PS/2 Driver'',
             ''  [TODO] Paging Enable - Activate virtual memory'',
             ''  [DONE] Context Switch - Process multitasking (with TSS!)'',
             ''  [TODO] fork/exec/wait - Process lifecycle (Phase 5 Step 3)'',
             ''  [TODO] VFS - Virtual File System'',
             ''  [TODO] Drivers - Hardware Abstraction''] s;
          s = kwarn ''Sentinel AI integration hooks planned for Phase 6'' [] s;
          s = kprintk [CHR 0x0A] [] s;
          s = kinfo ''Kernel initialization complete. All subsystems ready.'' [] s;
          s = kinfo ''Phase 4 Step 4: Context Switching & Scheduler ready'' [] s;
          s = kinfo (''Type '' @ quoted ''help'' @ '' for available commands'') [] s
      in kputs ([CHR 0x0A] @ ''Waiting for hardware to settle...'') s)"

text \<open>The boot up to the shell's loop, and the kernel run for a number of command lines. The loop's buffer
  is an uninitialised array.\<close>

definition boot :: "'a shell_st_scheme boot_env \<Rightarrow> 'a shell_st_scheme \<Rightarrow> 'a shell_st_scheme option" where
  "boot env s = do {
     s \<leftarrow> boot_subsystems env (boot_banner (bt_kmain env) s);
     s \<leftarrow> timer_sleep_ms (sh_hlt (bt_shell env)) 500 (boot_report s);
     Some (shell_init s) }"

definition kmain ::
    "nat \<Rightarrow> 'a shell_st_scheme boot_env \<Rightarrow> string \<Rightarrow> 'a shell_st_scheme \<Rightarrow> 'a shell_st_scheme run" where
  "kmain rounds env command_buffer s = Option.bind (boot env s) (shell_run rounds (bt_shell env) command_buffer)"

end
