(* ===== verification/System.thy ===== *)
theory System
  imports Boot
begin

text \<open>
  The invariant that ties the process table to the scheduler, and that everything the processor can be
  interrupted by keeps: the tick and the yield, the hardware interrupts and the system calls, and the
  creation of a process.
\<close>

section \<open>The invariant\<close>

text \<open>What the process table and the scheduler keep together: the table is well-formed, the links
  through it represent a queue of READY processes, and the current process is not one of them.\<close>

definition ready_all :: "'a process_st_scheme \<Rightarrow> nat list \<Rightarrow> bool" where
  "ready_all s q \<longleftrightarrow> (\<forall>i \<in> set q. i < 256 \<and> p_state (process_table s i) = PROCESS_STATE_READY)"

definition sys :: "'a sched_st_scheme \<Rightarrow> nat list \<Rightarrow> bool" where
  "sys s q \<longleftrightarrow> process_wf s \<and> queue_rep s q \<and> ready_all s q"

definition current_not_ready :: "'a process_st_scheme \<Rightarrow> bool" where
  "current_not_ready s \<longleftrightarrow> (\<forall>c. current_process s = Some c \<longrightarrow> p_state (process_table s c) \<noteq> PROCESS_STATE_READY)"

definition system_ok :: "'a sched_st_scheme \<Rightarrow> bool" where
  "system_ok s \<longleftrightarrow> (\<exists>q. sys s q) \<and> current_not_ready s"

text \<open>The part of the state it speaks of, and what leaves that part alone.\<close>

definition same_procs :: "'a sched_st_scheme \<Rightarrow> 'a sched_st_scheme \<Rightarrow> bool" where
  "same_procs s s' \<longleftrightarrow> process_table s' = process_table s \<and> current_process s' = current_process s \<and>
     next_pid s' = next_pid s \<and> stack_allocated s' = stack_allocated s \<and> process_stacks_at s' = process_stacks_at s \<and>
     ready_queue_head s' = ready_queue_head s \<and> ready_queue_tail s' = ready_queue_tail s \<and>
     ready_queue_count s' = ready_queue_count s"

lemma same_procs_refl: "same_procs s s"
  by (simp add: same_procs_def)

lemma same_procs_rep: "same_procs s s' \<Longrightarrow> queue_rep s' q = queue_rep s q"
  by (rule queue_rep_cong) (simp_all add: same_procs_def)

lemma same_procs_wf: "same_procs s s' \<Longrightarrow> process_wf s' = process_wf s"
  by (simp add: same_procs_def process_wf_def slot_free_def)

lemma same_procs_sys: "same_procs s s' \<Longrightarrow> sys s' q = sys s q"
  using same_procs_rep [of s s'] same_procs_wf [of s s']
  by (simp add: sys_def ready_all_def) (simp add: same_procs_def)

lemma sys_upd [simp]:
  "sys (s\<lparr>con := c\<rparr>) q = sys s q" "sys (s\<lparr>io_log := l\<rparr>) q = sys s q"
  "sys (s\<lparr>system_ticks := n\<rparr>) q = sys s q" "sys (s\<lparr>timer_frequency_hz := n\<rparr>) q = sys s q"
  "sys (s\<lparr>mem := m\<rparr>) q = sys s q" "sys (s\<lparr>heap_end := n\<rparr>) q = sys s q"
  "sys (s\<lparr>cr0 := n\<rparr>) q = sys s q" "sys (s\<lparr>cr3 := n\<rparr>) q = sys s q"
  "sys (s\<lparr>interrupt_flag := b\<rparr>) q = sys s q" "sys (s\<lparr>halted := b\<rparr>) q = sys s q"
  "sys (s\<lparr>current_directory := n\<rparr>) q = sys s q" "sys (s\<lparr>kernel_directory := n\<rparr>) q = sys s q"
  "sys (s\<lparr>cpu := c'\<rparr>) q = sys s q" "sys (s\<lparr>kernel_tss := t\<rparr>) q = sys s q"
  "sys (s\<lparr>scheduler_enabled := b\<rparr>) q = sys s q"
  by (rule same_procs_sys, simp add: same_procs_def)+

lemma sys_kbd [simp]:
  "sys (s\<lparr>modifiers := m\<rparr>) q = sys s q" "sys (s\<lparr>input_buffer := b\<rparr>) q = sys s q"
  "sys (s\<lparr>buffer_head := n\<rparr>) q = sys s q" "sys (s\<lparr>buffer_tail := n\<rparr>) q = sys s q"
  "sys (s\<lparr>buffer_count := n\<rparr>) q = sys s q" "sys (s\<lparr>input_enabled := e\<rparr>) q = sys s q"
  "sys (s'\<lparr>paging_enabled := e\<rparr>) q = sys s' q"
  for s :: "'a kbd_st_scheme" and s' :: "'a shell_st_scheme"
  by (rule same_procs_sys, simp add: same_procs_def)+

lemma fold_keeps: "(\<And>x s. P (f x s) = P s) \<Longrightarrow> P (fold f xs s) = P s"
  by (induction xs arbitrary: s) simp_all

lemma sys_out [simp]:
  "sys (kprintk fmt args s) q = sys s q" "sys (kinfo fmt args s) q = sys s q"
  "sys (kwarn fmt args s) q = sys s q" "sys (kerror fmt args s) q = sys s q"
  "sys (set_color a b s) q = sys s q" "sys (kputs l s) q = sys s q"
  "sys (say_lines ls s) q = sys s q"
  by (simp_all add: kout_defs set_color_def kputs_def say_lines_def fold_keeps [where P = "\<lambda>s. sys s q"])

section \<open>The operations on processes\<close>

lemma ready_all_cong:
  "(\<And>i. i \<in> set q \<Longrightarrow> p_state (process_table s' i) = p_state (process_table s i)) \<Longrightarrow> ready_all s' q = ready_all s q"
  by (simp add: ready_all_def)

lemma with_child_links [simp]: "p_next (with_child c p) = p_next p" "p_prev (with_child c p) = p_prev p"
  by (simp_all add: with_child_def)

lemma queue_rep_tables:
  assumes "queue_rep s q" "ready_queue_head s' = ready_queue_head s" "ready_queue_tail s' = ready_queue_tail s"
    "ready_queue_count s' = ready_queue_count s"
    "\<And>i. i \<in> set q \<Longrightarrow> p_prev (process_table s' i) = p_prev (process_table s i) \<and> p_next (process_table s' i) = p_next (process_table s i)"
  shows "queue_rep s' q"
  using assms(1-4) dll_cong [of q "process_table s'" "process_table s" None None] assms(5) by (simp add: queue_rep_def)

lemma links_only_ok: "links_only p p' \<Longrightarrow> pcb_ok i p' = pcb_ok i p"
  by (cases p; cases p') (simp add: links_only_def pcb_ok_def)

lemma pcb_ok_fields [simp]:
  "pcb_ok i (p\<lparr>p_state := a\<rparr>) = pcb_ok i p" "pcb_ok i (p\<lparr>p_quantum := n\<rparr>) = pcb_ok i p"
  "pcb_ok i (p\<lparr>p_time_running := n\<rparr>) = pcb_ok i p" "pcb_ok i (p\<lparr>p_context_switches := n\<rparr>) = pcb_ok i p"
  "pcb_ok i (p\<lparr>p_registers := r\<rparr>) = pcb_ok i p" "pcb_ok i (p\<lparr>p_is_kernel := k\<rparr>) = pcb_ok i p"
  "pcb_ok i (p\<lparr>p_exit_code := n\<rparr>) = pcb_ok i p"
  by (simp_all add: pcb_ok_def)

text \<open>A change of states and links: a slot that was free stays free.\<close>

definition milder :: "process_t \<Rightarrow> process_t \<Rightarrow> bool" where
  "milder p p' \<longleftrightarrow> (\<forall>i. pcb_ok i p \<longrightarrow> pcb_ok i p') \<and> p_kernel_stack p' = p_kernel_stack p \<and>
     (p_state p = PROCESS_STATE_TERMINATED \<longrightarrow> p_state p' = PROCESS_STATE_TERMINATED)"

lemma milder_refl: "milder p p"
  by (simp add: milder_def)

lemma links_only_milder: "links_only p p' \<Longrightarrow> milder p p'"
  using links_only_fields [of p p'] links_only_ok [of p p'] by (simp add: milder_def)

lemma process_wf_milder:
  assumes "process_wf s" "\<And>j. milder (process_table s j) (process_table s' j)"
    "next_pid s' = next_pid s" "\<And>c. current_process s' = Some c \<Longrightarrow> c < 256"
    "stack_allocated s' = stack_allocated s" "process_stacks_at s' = process_stacks_at s"
  shows "process_wf s'"
  using assms unfolding process_wf_def slot_free_def milder_def by metis

lemma sys_length:
  assumes "sys s q"
  shows "length q + 1 < 2 ^ 32"
proof -
  have "set q \<subseteq> {..<256}" "distinct q" using assms by (auto simp: sys_def ready_all_def queue_rep_def)
  then have "length q \<le> 256" using card_mono [of "{..<256}" "set q"] by (simp add: distinct_card)
  then show ?thesis by simp
qed

lemma add_frame:
  "next_pid (scheduler_add_process p s) = next_pid s" "stack_allocated (scheduler_add_process p s) = stack_allocated s"
  "process_stacks_at (scheduler_add_process p s) = process_stacks_at s"
  by (simp_all add: scheduler_add_process_def Let_def split: option.split)

lemma sys_add:
  assumes s: "sys s q" and i: "i \<notin> set q" "i < 256" "p_state (process_table s i) \<noteq> PROCESS_STATE_TERMINATED"
  shows "sys (scheduler_add_process (Some i) s) (q @ [i])"
proof -
  define s' where "s' = scheduler_add_process (Some i) s"
  note a = add_process_rep [of s q i, folded s'_def]
  have rep: "queue_rep s q" and wf: "process_wf s" and rdy: "ready_all s q" using s by (simp_all add: sys_def)
  note len = sys_length [OF s]
  have other: "links_only (process_table s j) (process_table s' j)" if "j \<noteq> i" for j
    by (rule a(3) [OF rep i(1,3) len that])
  have mild: "milder (process_table s j) (process_table s' j)" for j
  proof (cases "j = i")
    case True
    then show ?thesis
      using links_only_fields [OF a(4) [OF rep i(1,3) len]] links_only_ok [OF a(4) [OF rep i(1,3) len]] i(3)
      by (simp add: milder_def)
  qed (rule links_only_milder [OF other])
  have "process_wf s'"
    by (rule process_wf_milder [OF wf mild])
      (use wf a(5) [OF rep i(1,3) len] in \<open>simp_all add: s'_def add_frame process_wf_def\<close>)
  moreover have "ready_all s' (q @ [i])"
    unfolding ready_all_def
  proof
    fix j assume "j \<in> set (q @ [i])"
    then show "j < 256 \<and> p_state (process_table s' j) = PROCESS_STATE_READY"
      using rdy i(1,2) a(2) [OF rep i(1,3) len] links_only_fields [OF other [of j]]
      by (cases "j = i") (auto simp: ready_all_def)
  qed
  ultimately show ?thesis using a(1) [OF rep i(1,3) len] by (simp add: sys_def s'_def)
qed

lemma schedule_frame:
  "next_pid (snd (scheduler_schedule s)) = next_pid s" "stack_allocated (snd (scheduler_schedule s)) = stack_allocated s"
  "process_stacks_at (snd (scheduler_schedule s)) = process_stacks_at s"
  by (simp_all add: scheduler_schedule_def scheduler_remove_process_def Let_def split: option.split)

lemma sys_schedule:
  assumes "sys s (i # q)"
  shows "fst (scheduler_schedule s) = Some i" "sys (snd (scheduler_schedule s)) q" "i < 256"
proof -
  define s' where "s' = snd (scheduler_schedule s)"
  have rep: "queue_rep s (i # q)" and wf: "process_wf s" and rdy: "ready_all s (i # q)"
    using assms by (simp_all add: sys_def)
  note c = schedule_rep [OF rep, folded s'_def]
  show "fst (scheduler_schedule s) = Some i" by (rule c)
  show "i < 256" using rdy by (simp add: ready_all_def)
  have i: "i \<notin> set q" using rep by (simp add: queue_rep_def)
  have mild: "milder (process_table s j) (process_table s' j)" for j
  proof (cases "j = i")
    case True
    then show ?thesis using links_only_fields [OF c(6)] links_only_ok [OF c(6)] rdy
      by (simp add: milder_def ready_all_def)
  qed (rule links_only_milder [OF c(5)])
  have "process_wf s'"
    by (rule process_wf_milder [OF wf mild]) (use wf c(7) in \<open>simp_all add: s'_def schedule_frame process_wf_def\<close>)
  moreover have "ready_all s' q"
    using rdy i links_only_fields [OF c(5)] by (auto simp: ready_all_def) metis
  ultimately show "sys (snd (scheduler_schedule s)) q" using c(2) by (simp add: sys_def s'_def)
qed

lemma schedule_empty: "sys s [] \<Longrightarrow> scheduler_schedule s = (Some 0, s)"
  by (simp add: sys_def queue_rep_def scheduler_schedule_def)

text \<open>A change of one process that leaves its state and links alone.\<close>

lemma sys_process:
  assumes "sys s q" "p_state (f (process_table s i)) = p_state (process_table s i)"
    "p_next (f (process_table s i)) = p_next (process_table s i)" "p_prev (f (process_table s i)) = p_prev (process_table s i)"
    "p_kernel_stack (f (process_table s i)) = p_kernel_stack (process_table s i)"
    "\<And>j. pcb_ok j (process_table s i) \<Longrightarrow> pcb_ok j (f (process_table s i))"
  shows "sys (upd_process i f s) q"
proof -
  have "process_wf (upd_process i f s)"
    by (rule process_wf_milder [of s]) (use assms in \<open>simp_all add: sys_def milder_def process_wf_def\<close>)
  moreover have "queue_rep (upd_process i f s) q" using assms by (simp add: sys_def queue_rep_upd)
  moreover have "ready_all (upd_process i f s) q" using assms by (simp add: sys_def ready_all_def)
  ultimately show ?thesis by (simp add: sys_def)
qed

section \<open>Creation\<close>

definition ready_ends :: "'a sched_st_scheme \<Rightarrow> nat option \<times> nat option \<times> u32" where
  "ready_ends s = (ready_queue_head s, ready_queue_tail s, ready_queue_count s)"

lemma ready_ends_simps [simp]:
  "ready_ends (kprintk fmt args s) = ready_ends s" "ready_ends (kerror fmt args s) = ready_ends s"
  "ready_ends (upd_process i f s) = ready_ends s" "ready_ends (s\<lparr>next_pid := n\<rparr>) = ready_ends s"
  "ready_ends (s\<lparr>stack_allocated := a\<rparr>) = ready_ends s" "ready_ends (add_child i c s) = ready_ends s"
  "ready_ends (process_free_pid p s) = ready_ends s" "ready_ends (create_pcb name pr p s) = ready_ends s"
  by (simp_all add: ready_ends_def kerror_def add_child_def process_free_pid_def create_pcb_def Let_def split: option.split)

lemma process_create_frame: "ready_ends (snd (process_create name e pr s)) = ready_ends s"
proof -
  have c: "ready_ends (create_context e p s) = ready_ends s" for p and s :: "'a sched_st_scheme"
    by (simp add: create_context_def Let_def)
  have a: "ready_ends (snd (process_allocate_pid s)) = ready_ends s"
    by (simp add: process_allocate_pid_def Let_def split: option.split)
  obtain p t where t: "process_allocate_pid s = (p, t)" by (cases "process_allocate_pid s")
  show ?thesis using a by (simp add: process_create_def t c Let_def split: option.split)
qed

lemma sys_create:
  assumes s: "sys s q" and c: "process_create name e pr s = (r, s')"
  shows "sys s' q" "r = Some i \<Longrightarrow> i \<notin> set q \<and> i < 256 \<and> p_state (process_table s' i) = PROCESS_STATE_READY"
proof -
  have wf: "process_wf s" and rep: "queue_rep s q" and rdy: "ready_all s q" using s by (simp_all add: sys_def)
  have wf': "process_wf s'" using process_create_wf [OF wf, of name e pr] c by simp
  have np: "1 \<le> unat (next_pid s)" "unat (next_pid s) \<le> 256" using wf by (simp_all add: process_wf_def)
  have "sys s' q \<and> (r = Some i \<longrightarrow> i \<notin> set q \<and> i < 256 \<and> p_state (process_table s' i) = PROCESS_STATE_READY)"
    using np
  proof (cases rule: allocate_pid_cases)
    case full
    then have "s' = kerror ''Failed to create process: no free PIDs'' [] s" "r = None"
      using process_create_full [OF full(1), of name e pr] c by simp_all
    then show ?thesis using s by simp
  next
    case (slot k)
    note f = process_create_slot [OF slot(1,3), of name e pr, unfolded c fst_conv snd_conv]
    have k: "k \<notin> set q" using rdy slot(4) by (auto simp: ready_all_def slot_free_def)
    have same: "p_prev (process_table s' j) = p_prev (process_table s j) \<and>
        p_next (process_table s' j) = p_next (process_table s j) \<and> p_state (process_table s' j) = p_state (process_table s j)"
      if "j \<noteq> k" for j
      using that by (auto simp: f(6) split: option.split)
    have "queue_rep s' q"
      by (rule queue_rep_tables [OF rep])
        (use process_create_frame [of name e pr s] c same k in \<open>simp_all add: ready_ends_def, metis\<close>)
    moreover have "ready_all s' q" using rdy same k unfolding ready_all_def by metis
    moreover have "r = Some i \<longrightarrow> i \<notin> set q \<and> i < 256 \<and> p_state (process_table s' i) = PROCESS_STATE_READY"
      using k slot(3) by (auto simp: f(1,6) fresh_pcb_def Let_def split: if_splits option.split)
    ultimately show ?thesis using wf' by (simp add: sys_def)
  qed
  then show "sys s' q" "r = Some i \<Longrightarrow> i \<notin> set q \<and> i < 256 \<and> p_state (process_table s' i) = PROCESS_STATE_READY"
    by blast+
qed

lemma sys_setup:
  assumes "sys s q"
  shows "sys (process_setup_user_mode code (Some i) e s) q"
    "p_state (process_table (process_setup_user_mode code (Some i) e s) j) = p_state (process_table s j)"
  using assms
  by (auto simp: process_setup_user_mode_def copy_to_user_memory_def Let_def intro!: sys_process split: option.split)

section \<open>Scheduling\<close>

lemma ok_same: "same_procs s s' \<Longrightarrow> system_ok s' = system_ok s"
  using same_procs_sys [of s s'] by (simp add: system_ok_def current_not_ready_def) (simp add: same_procs_def)

lemma sys_switch:
  assumes s: "sys s q" and new: "new < 256" and sw: "switch_to old new s = Inr (b, s')"
  shows "sys s' q" "current_process s' = Some new" "p_state (process_table s' j) = p_state (process_table s j)"
proof -
  have c: "sys (s\<lparr>current_process := Some new\<rparr>) q"
    using s new by (simp add: sys_def process_wf_def slot_free_def queue_rep_def ready_all_def)
  define t where "t = upd_process new (\<lambda>p. p\<lparr>p_context_switches := p_context_switches p + 1\<rparr>)
    (upd_process old (\<lambda>p. p\<lparr>p_context_switches := p_context_switches p + 1\<rparr>)
      ((tss_set_kernel_stack (p_kernel_stack (process_table s new) + 4096) s)\<lparr>current_process := Some new\<rparr>))"
  have "sys ((tss_set_kernel_stack k s)\<lparr>current_process := Some new\<rparr>) q" for k
    using c by (subst same_procs_sys [of "s\<lparr>current_process := Some new\<rparr>"])
      (simp_all add: same_procs_def tss_set_kernel_stack_def)
  then have "sys t q" unfolding t_def by (intro sys_process) simp_all
  then have sv: "sys (save_context old new t) q"
    unfolding save_context_def Let_def by (intro sys_process) simp_all
  have l: "load_context new (save_context old new t) = Inr s'"
    using sw by (cases "load_context new (save_context old new t)") (simp_all add: switch_to_def context_switch_def t_def Let_def)
  then have same: "same_procs (save_context old new t) s'"
    by (auto simp: load_context_def Let_def same_procs_def split: if_splits)
  show "sys s' q" using sv same_procs_sys [OF same] by simp
  show "current_process s' = Some new" "p_state (process_table s' j) = p_state (process_table s j)"
    using same by (simp_all add: same_procs_def save_context_def Let_def t_def tss_set_kernel_stack_def)
qed

lemma running_not_ready: "sys s q \<Longrightarrow> p_state (process_table s i) = PROCESS_STATE_RUNNING \<Longrightarrow> i \<notin> set q"
  by (auto simp: sys_def ready_all_def)

lemma sys_current: "sys s q \<Longrightarrow> current_process s = Some c \<Longrightarrow> c < 256"
  by (simp add: sys_def process_wf_def)

lemma sys_log_switch [simp]: "sys (log_switch old new s) q = sys s q"
  by (simp add: log_switch_def Let_def)

text \<open>The part the tick and the yield share: the running process goes to the end of the queue, and the
  first of the queue runs.\<close>

definition requeue :: "nat \<Rightarrow> 'a sched_st_scheme \<Rightarrow> 'a sched_st_scheme" where
  "requeue old s = (if p_state (process_table s old) = PROCESS_STATE_RUNNING then scheduler_add_process (Some old) s else s)"

lemma requeue_ok:
  assumes s: "sys s q" and old: "current_process s = Some old" and n: "ready_queue_count s > 0"
  shows "\<exists>new u q'. scheduler_schedule (requeue old s) = (Some new, u) \<and> new < 256 \<and> sys u q' \<and>
    current_process u = Some old \<and> p_state (process_table u new) = PROCESS_STATE_RUNNING"
proof -
  have "q \<noteq> []" using s n queue_rep_count [of s q] by (simp add: sys_def)
  then obtain a as where q: "q = a # as" by (cases q) auto
  have len: "length q + 1 < 2 ^ 32" by (rule sys_length [OF s])
  obtain i q' where r: "sys (requeue old s) (i # q')" "current_process (requeue old s) = Some old"
  proof (cases "p_state (process_table s old) = PROCESS_STATE_RUNNING")
    case True
    have "old \<notin> set q" by (rule running_not_ready [OF s True])
    moreover have "old < 256" by (rule sys_current [OF s old])
    ultimately show ?thesis
      using that [of a "as @ [old]"] sys_add [OF s, of old] add_process_rep(5) [of s q old] True q s old len
      by (simp add: requeue_def sys_def)
  next
    case False
    then show ?thesis using that [of a as] q s old by (simp add: requeue_def)
  qed
  have "queue_rep (requeue old s) (i # q')" using r(1) by (simp add: sys_def)
  from schedule_rep(3,7) [OF this] sys_schedule [OF r(1)] r(2)
  show ?thesis by (intro exI [of _ i] exI [of _ "snd (scheduler_schedule (requeue old s))"] exI [of _ q']) (simp add: prod_eq_iff)
qed

lemma ok_taken:
  assumes "sys u q" "current_process u = Some old" "p_state (process_table u new) = PROCESS_STATE_RUNNING" "new < 256"
    "(if new = old then Inr (False, u) else switch_to old new u) = Inr (b, s')"
  shows "system_ok s' \<and> (\<not> b \<longrightarrow> current_process s' = Some old)"
proof (cases "new = old")
  case True
  then show ?thesis using assms by (auto simp: system_ok_def current_not_ready_def)
next
  case False
  then have "switch_to old new u = Inr (b, s')" using assms(5) by simp
  from sys_switch [OF assms(1,4) this] this show ?thesis
    using assms(3) by (auto simp: system_ok_def current_not_ready_def switch_to_def Let_def map_sum_def split: sum.splits)
qed

lemma ok_yield:
  assumes ok: "system_ok s" and y: "scheduler_yield s = Inr (b, s')"
  shows "system_ok s' \<and> (\<not> b \<longrightarrow> current_process s' = current_process s)"
proof (cases "current_process s = None \<or> \<not> scheduler_enabled s \<or> \<not> ready_queue_count s > 0")
  case True
  then show ?thesis using y ok by (auto simp: scheduler_yield_def split: option.splits if_splits)
next
  case False
  then obtain old where old: "current_process s = Some old" "scheduler_enabled s" "ready_queue_count s > 0" by auto
  obtain q where q: "sys s q" using ok by (auto simp: system_ok_def)
  define t where "t = (if p_state (process_table s old) = PROCESS_STATE_RUNNING
    then upd_process old (\<lambda>p. p\<lparr>p_quantum := quantum_ticks s\<rparr>) s else s)"
  have t: "sys t q" "current_process t = Some old" "ready_queue_count t > 0"
    using q old sys_process [OF q, of "\<lambda>p. p\<lparr>p_quantum := quantum_ticks s\<rparr>" old] by (simp_all add: t_def)
  from requeue_ok [OF t] obtain new u q' where new: "scheduler_schedule (requeue old t) = (Some new, u)" "new < 256"
    "sys u q'" "current_process u = Some old" "p_state (process_table u new) = PROCESS_STATE_RUNNING" by blast
  have "(if p_state (process_table s old) = PROCESS_STATE_RUNNING
      then scheduler_add_process (Some old) (upd_process old (\<lambda>p. p\<lparr>p_quantum := quantum_ticks s\<rparr>) s) else s) = requeue old t"
    by (simp add: requeue_def t_def)
  then have "scheduler_yield s = (if new = old then Inr (False, u) else switch_to old new u)"
    using old new(1) by (simp add: scheduler_yield_def)
  with y have "(if new = old then Inr (False, u) else switch_to old new u) = Inr (b, s')" by simp
  then show ?thesis using ok_taken [OF new(3,4,5,2)] old(1) by simp
qed

lemma ok_tick:
  assumes ok: "system_ok s" and y: "scheduler_tick s = Inr (b, s')"
  shows "system_ok s' \<and> (\<not> b \<longrightarrow> current_process s' = current_process s)"
proof (cases "current_process s = None \<or> \<not> scheduler_enabled s")
  case True
  then show ?thesis using y ok by (auto simp: scheduler_tick_def split: option.splits)
next
  case False
  then obtain old where old: "current_process s = Some old" "scheduler_enabled s" by auto
  obtain q where q: "sys s q" using ok by (auto simp: system_ok_def)
  define s1 where "s1 = ticked old s"
  have s1: "sys s1 q" "current_process s1 = Some old" "p_state (process_table s1 old) \<noteq> PROCESS_STATE_READY"
    using q ok old(1) unfolding s1_def ticked_def Let_def
    by (auto intro!: sys_process simp: system_ok_def current_not_ready_def)
  have r: "sys (upd_process old (\<lambda>p. p\<lparr>p_quantum := n\<rparr>) s1) q" for n by (rule sys_process [OF s1(1)]) simp_all
  show ?thesis
  proof (cases "p_quantum (process_table s1 old) = 0 \<and> ready_queue_count s1 > 0")
    case True
    from requeue_ok [OF s1(1,2)] True obtain new u q' where new: "scheduler_schedule (requeue old s1) = (Some new, u)"
      "new < 256" "sys u q'" "current_process u = Some old" "p_state (process_table u new) = PROCESS_STATE_RUNNING" by blast
    define v where "v = log_switch old new u"
    have v: "sys v q'" "current_process v = Some old" "p_state (process_table v new) = PROCESS_STATE_RUNNING"
      using new log_switch_same(1) [of u old new, THEN same_schedD(2)] by (simp_all add: v_def)
    have "scheduler_tick s = (if new = old then Inr (False, u) else switch_to old new v)"
      using tick_unfold [OF old] True new(1) by (simp add: s1_def requeue_def v_def Let_def)
    with y have "(if new = old then Inr (False, u) else switch_to old new v) = Inr (b, s')" by simp
    then show ?thesis
      using ok_taken [OF new(3,4,5,2), of b s'] ok_taken [OF v new(2), of b s'] old(1) by (cases "new = old") simp_all
  next
    case False
    then have "s' = (if p_quantum (process_table s1 old) = 0 then upd_process old (\<lambda>p. p\<lparr>p_quantum := quantum_ticks s1\<rparr>) s1 else s1)"
      using tick_unfold [OF old] y by (auto simp: s1_def Let_def split: if_splits)
    then show ?thesis using r s1 old(1) by (auto simp: system_ok_def current_not_ready_def)
  qed
qed

section \<open>Interrupts and system calls\<close>

lemma ok_upd [simp]:
  "system_ok (s\<lparr>con := c\<rparr>) = system_ok s" "system_ok (s\<lparr>io_log := l\<rparr>) = system_ok s"
  "system_ok (s\<lparr>system_ticks := n\<rparr>) = system_ok s" "system_ok (s\<lparr>mem := m\<rparr>) = system_ok s"
  "system_ok (s\<lparr>interrupt_flag := b\<rparr>) = system_ok s" "system_ok (s\<lparr>halted := b\<rparr>) = system_ok s"
  "system_ok (s\<lparr>cpu := c'\<rparr>) = system_ok s" "system_ok (s\<lparr>scheduler_enabled := b\<rparr>) = system_ok s"
  "system_ok (kprintk fmt args s) = system_ok s" "system_ok (kinfo fmt args s) = system_ok s"
  "system_ok (kwarn fmt args s) = system_ok s" "system_ok (kerror fmt args s) = system_ok s"
  "system_ok (set_color x y s) = system_ok s" "system_ok (kputs line s) = system_ok s"
  by (rule ok_same, simp add: same_procs_def kout_defs set_color_def kputs_def)+

lemma ok_kbd [simp]:
  "system_ok (s\<lparr>modifiers := m\<rparr>) = system_ok s" "system_ok (s\<lparr>input_buffer := b\<rparr>) = system_ok s"
  "system_ok (s\<lparr>buffer_head := n\<rparr>) = system_ok s" "system_ok (s\<lparr>buffer_tail := n\<rparr>) = system_ok s"
  "system_ok (s\<lparr>buffer_count := n\<rparr>) = system_ok s" "system_ok (s'\<lparr>paging_enabled := e\<rparr>) = system_ok s'"
  for s :: "'a kbd_st_scheme" and s' :: "'a shell_st_scheme"
  by (rule ok_same, simp add: same_procs_def kout_defs set_color_def kputs_def)+

lemma ok_stack [simp]:
  "system_ok (push32 v s) = system_ok s" "system_ok (drop_stack n s) = system_ok s"
  "system_ok (pusha s) = system_ok s" "system_ok (popa s) = system_ok s"
  "system_ok (load_data_segments sel s) = system_ok s" "system_ok (outb p w s) = system_ok s"
  "system_ok (pic_send_eoi irq s) = system_ok s"
  by (simp_all add: push32_def drop_stack_def pusha_def popa_def load_data_segments_def Let_def outb_def pic_send_eoi_def)

lemma ok_getchar [simp]: "system_ok (snd (keyboard_getchar s)) = system_ok s"
  by (simp add: keyboard_getchar_def Let_def)

lemma ok_keys [simp]:
  "system_ok (key_release k s) = system_ok s" "system_ok (function_key k s) = system_ok s"
  "system_ok (accept_char c s) = system_ok s"
  by (simp_all add: key_release_def function_key_def accept_char_def keyboard_add_to_buffer_def)

lemma ok_keyboard [simp]: "system_ok (keyboard_handler dev s) = system_ok s"
proof -
  define k where "k = fst (inb dev KB_DATA_PORT s)"
  obtain l where "inb dev KB_DATA_PORT s = (k, s\<lparr>io_log := l\<rparr>)" by (simp add: inb_def k_def Let_def)
  then show ?thesis unfolding keyboard_handler_def
    by (cases "modifier_press k (modifiers s)") (simp_all add: Let_def)
qed

lemma timer_handler_cases:
  assumes "timer_handler s = Inr (b, s')"
  obtains u where "scheduler_tick (s\<lparr>system_ticks := system_ticks s + 1\<rparr>) = Inr (b, u)"
    "s' = (if b then u else pic_send_eoi 0 u)"
  using assms by (auto simp: timer_handler_def split: sum.splits prod.splits bool.splits)

lemma ok_timer: "timer_handler s = Inr (b, s') \<Longrightarrow> system_ok s \<Longrightarrow> system_ok s'"
  by (erule timer_handler_cases) (drule ok_tick [rotated], auto)

lemma ok_irq_handler: "irq_handler dev a s = Inr (b, s') \<Longrightarrow> system_ok s \<Longrightarrow> system_ok s'"
  using ok_timer [of s b s'] by (auto simp: irq_handler_def Let_def split: if_splits)

lemma ok_irq:
  assumes ok: "system_ok s" and i: "irq_stub dev number s = Inr (b, s')"
  shows "system_ok s'"
proof -
  define t where "t = irq_stub_entry number s"
  have t: "system_ok t" using ok by (simp add: t_def irq_stub_entry_def Let_def)
  have "irq_stub dev number s = (case irq_handler dev (r_esp (cpu t)) (push32 (r_esp (cpu t)) t) of
        Inl vector \<Rightarrow> Inl vector
      | Inr (True, s) \<Rightarrow> Inr (True, s)
      | Inr (False, s) \<Rightarrow> Inr (False, irq_stub_exit (drop_stack 4 s)))"
    by (simp add: irq_stub_def t_def Let_def)
  then show ?thesis
    using i t ok_irq_handler [of dev "r_esp (cpu t)" "push32 (r_esp (cpu t)) t"]
    by (auto simp: irq_stub_exit_def Let_def split: sum.splits prod.splits bool.splits)
qed

lemma ok_process_exit:
  assumes "system_ok s"
  shows "system_ok (process_exit code s)"
proof (cases "current_process s")
  case None
  then show ?thesis using assms by (simp add: process_exit_def)
next
  case (Some c)
  obtain q where q: "sys s q" using assms by (auto simp: system_ok_def)
  have c: "c \<notin> set q" "p_state (process_table s c) \<noteq> PROCESS_STATE_READY"
    using assms Some q by (auto simp: system_ok_def current_not_ready_def sys_def ready_all_def)
  define t where "t = upd_process c (\<lambda>p. p\<lparr>p_exit_code := code, p_state := PROCESS_STATE_TERMINATED\<rparr>) s"
  have "process_wf t"
    by (rule process_wf_milder [of s]) (use q Some in \<open>simp_all add: sys_def milder_def process_wf_def t_def\<close>)
  moreover have "queue_rep t q" using q by (simp add: t_def queue_rep_upd sys_def)
  moreover have "ready_all t q" using q c(1) by (auto simp: t_def ready_all_def sys_def)
  ultimately have "system_ok t" using Some by (auto simp: system_ok_def sys_def current_not_ready_def t_def)
  then show ?thesis using Some by (simp add: process_exit_def t_def Let_def)
qed

lemma ok_write_loop [simp]: "system_ok (write_loop n buf i s) = system_ok s"
  by (induction n buf i s rule: write_loop.induct) simp_all

lemma ok_sys_exit: "system_ok s \<Longrightarrow> system_ok (snd (sys_exit status s))"
  by (simp add: sys_exit_def ok_process_exit split: option.split)

lemma ok_sys_write [simp]: "system_ok (snd (sys_write fd buf len s)) = system_ok s"
  by (simp add: sys_write_def)

lemma ok_sys_yield: "sys_yield s = Inr (b, s') \<Longrightarrow> system_ok s \<Longrightarrow> system_ok s'"
  using ok_yield [of s b s'] by (auto simp: sys_yield_def split: if_splits)

lemma ok_syscall_handler:
  assumes c: "syscall_handler a s = Inr (b, s')" and ok: "system_ok s"
  shows "system_ok s'"
proof -
  define t where "t = kprintk (''[SYSCALL] num=%d (EAX=0x%x) arg1=0x%x arg2=0x%x arg3=0x%x'' @ [CHR 0x0A])
    [VInt (read32 (mem s) a), VInt (read32 (mem s) a), VInt (read32 (mem s) (a + 4)), VInt (read32 (mem s) (a + 8)),
     VInt (read32 (mem s) (a + 12))] s"
  have t: "system_ok t" using ok by (simp add: t_def)
  show ?thesis
    using c t ok_sys_exit [of t] ok_sys_yield [of t]
    unfolding syscall_handler_def Let_def t_def [symmetric]
    by (auto simp: set_result_def sys_read_def case_prod_beta split: if_splits sum.splits bool.splits)
qed

lemma ok_syscall:
  assumes ok: "system_ok s" and c: "syscall_wrapper s = Inr (b, s')"
  shows "system_ok s'"
proof -
  define t where "t = syscall_entry s"
  have t: "system_ok t" using ok by (simp add: t_def syscall_entry_def Let_def)
  have "syscall_wrapper s = (case syscall_handler (r_esp (cpu t)) (push32 (r_esp (cpu t)) t) of
        Inl vector \<Rightarrow> Inl vector
      | Inr (True, s) \<Rightarrow> Inr (True, s)
      | Inr (False, s) \<Rightarrow> Inr (False, syscall_leave (drop_stack 4 s)))"
    by (simp add: syscall_wrapper_def t_def Let_def)
  then show ?thesis
    using c t ok_syscall_handler [of "r_esp (cpu t)" "push32 (r_esp (cpu t)) t"]
    by (auto simp: syscall_leave_def Let_def split: sum.splits prod.splits bool.splits)
qed

end
