(* ===== verification/Shell_Invariant.thy ===== *)
theory Shell_Invariant
  imports System
begin

text \<open>
  The shell keeps the invariant of \<open>System\<close>: each of its commands, a round of its loop and a number of
  rounds. The commands change the processes only through \<open>process_create\<close>, the ready queue and the yield.
\<close>

section \<open>The shell\<close>

text \<open>The shell runs on process 0, the idle process.\<close>

definition shell_ok :: "'a sched_st_scheme \<Rightarrow> bool" where
  "shell_ok s \<longleftrightarrow> system_ok s \<and> current_process s = Some 0"

definition run_ok :: "'a sched_st_scheme run \<Rightarrow> bool" where
  "run_ok r \<longleftrightarrow> (case r of
     Some (Inr (switched, s)) \<Rightarrow> system_ok s \<and> (\<not> switched \<longrightarrow> shell_ok s)
   | _ \<Rightarrow> True)"

lemma run_ok_simps [simp]:
  "run_ok None" "run_ok (Some (Inl v))" "run_ok (Some (Inr (True, s))) = system_ok s" "run_ok (Some (Inr (False, s))) = shell_ok s"
  "run_ok (returns s) = shell_ok s"
  by (auto simp: run_ok_def returns_def shell_ok_def)

lemma shell_same: "same_procs s s' \<Longrightarrow> shell_ok s' = shell_ok s"
  using ok_same [of s s'] by (simp add: shell_ok_def same_procs_def)

lemma shell_upd [simp]:
  "shell_ok (s\<lparr>con := c\<rparr>) = shell_ok s" "shell_ok (s\<lparr>interrupt_flag := b\<rparr>) = shell_ok s"
  "shell_ok (s\<lparr>halted := b\<rparr>) = shell_ok s" "shell_ok (s\<lparr>mem := m\<rparr>) = shell_ok s"
  "shell_ok (s\<lparr>scheduler_enabled := b\<rparr>) = shell_ok s" "shell_ok (s\<lparr>cr0 := n\<rparr>) = shell_ok s"
  "shell_ok (s\<lparr>cr3 := n\<rparr>) = shell_ok s" "shell_ok (s\<lparr>current_directory := n\<rparr>) = shell_ok s"
  "shell_ok (s'\<lparr>paging_enabled := e\<rparr>) = shell_ok s'"
  for s' :: "'a shell_st_scheme"
  by (rule shell_same, simp add: same_procs_def)+

lemma shell_kbd [simp]:
  "shell_ok (s\<lparr>buffer_tail := n\<rparr>) = shell_ok s" "shell_ok (s\<lparr>buffer_count := n\<rparr>) = shell_ok s"
  for s :: "'a kbd_st_scheme"
  by (rule shell_same, simp add: same_procs_def)+

lemma shell_out [simp]:
  "shell_ok (kprintk fmt args s) = shell_ok s" "shell_ok (kinfo fmt args s) = shell_ok s"
  "shell_ok (kwarn fmt args s) = shell_ok s" "shell_ok (kerror fmt args s) = shell_ok s"
  "shell_ok (set_color x y s) = shell_ok s" "shell_ok (kputs line s) = shell_ok s"
  by (rule shell_same, simp add: same_procs_def kout_defs set_color_def kputs_def)+

lemma shell_lines [simp]: "shell_ok (say_lines ls s) = shell_ok s"
  by (simp add: say_lines_def fold_keeps [where P = shell_ok])

lemma shell_getchar [simp]: "shell_ok (snd (keyboard_getchar s)) = shell_ok s"
  by (simp add: keyboard_getchar_def Let_def)

text \<open>Memory: the processes are in none of the fields an allocation changes.\<close>

lemma heap_setters [simp]:
  "shell_ok (set_size a v s) = shell_ok s" "shell_ok (set_is_free a v s) = shell_ok s"
  "shell_ok (set_next a v s) = shell_ok s" "shell_ok (set_prev a v s) = shell_ok s"
  "shell_ok (s\<lparr>heap_end := a\<rparr>) = shell_ok s"
  by (rule shell_same, simp add: same_procs_def set_size_def set_is_free_def set_next_def set_prev_def)+

lemma shell_kmalloc: "kmalloc n s = Some (p, s') \<Longrightarrow> shell_ok s' = shell_ok s"
  by (auto simp: kmalloc_def split_block_def Let_def split: if_splits bind_splits)

lemma shell_kfree [simp]: "shell_ok (kfree p s) = shell_ok s"
  by (simp add: kfree_def merge_free_blocks_def merge_next_def merge_prev_def Let_def)

lemma shell_stats: "memory_print_stats junk s = Some s' \<Longrightarrow> shell_ok s' = shell_ok s"
  by (auto simp: memory_print_stats_def Let_def split: bind_splits if_splits)

lemma shell_meminfo: "cmd_meminfo junk s = Some s' \<Longrightarrow> shell_ok s' = shell_ok s"
  by (auto simp: cmd_meminfo_def Let_def shell_stats dest!: shell_kmalloc split: bind_splits)

lemma shell_malloc_loop: "malloc_loop is ps s = Some (qs, s') \<Longrightarrow> shell_ok s' = shell_ok s"
  by (induction "is" ps s rule: malloc_loop.induct) (auto dest!: shell_kmalloc split: bind_splits)

lemma shell_free_loop [simp]: "shell_ok (free_loop is ps s) = shell_ok s"
  by (induction "is" ps s rule: free_loop.induct) simp_all

text \<open>Waiting: what every interrupt keeps, a wait keeps.\<close>

lemma sleep_loop_keeps:
  assumes "timer_sleep_loop hlt target s = Some s'"
  shows "(\<forall>s. P s \<longrightarrow> P (hlt s)) \<longrightarrow> P s \<longrightarrow> P s'"
  by (rule timer_sleep_loop.raw_induct [OF _ assms]) (fastforce split: if_splits)

lemma sleep_keeps:
  assumes "\<And>s. P s \<Longrightarrow> P (hlt s)" "timer_sleep_ms hlt ms s = Some s'" "P s"
  shows "P s'"
  using assms sleep_loop_keeps [of hlt _ s s' P] by (auto simp: timer_sleep_ms_def timer_sleep_ticks_def)

lemma queue_print_keeps:
  assumes "queue_print_loop p pos s = Some s'"
  shows "shell_ok s' = shell_ok s"
  by (rule queue_print_loop.raw_induct [OF _ assms]) (fastforce split: option.splits)

section \<open>The commands\<close>

lemma shell_simple [simp]:
  "shell_ok (cmd_help s) = shell_ok s" "shell_ok (cmd_clear s) = shell_ok s" "shell_ok (cmd_sysinfo s) = shell_ok s"
  "shell_ok (cmd_echo args s) = shell_ok s" "shell_ok (shell_prompt s) = shell_ok s" "shell_ok (shell_exit t) = shell_ok t"
  "shell_ok (paging_status u) = shell_ok u" "shell_ok (process_print_info p s) = shell_ok s"
  "shell_ok (paging_enable t) = shell_ok t"
  by (simp_all add: cmd_help_def cmd_clear_def cmd_sysinfo_def cmd_echo_def shell_prompt_def shell_exit_def paging_status_def
      process_print_info_def paging_enable_def paging_enable_hw_def paging_load_directory_def Let_def split: option.split)

lemma shell_unknown [simp]: "shell_ok (unknown_command c n s) = shell_ok s"
  by (simp add: unknown_command_def Let_def fold_keeps [where P = shell_ok])

lemma shell_list_loop: "shell_ok (snd (list_loop is n s)) = shell_ok s"
  by (induction "is" n s rule: list_loop.induct) (simp_all add: Let_def)

lemma shell_list_all [simp]: "shell_ok (process_list_all s) = shell_ok s"
  by (simp add: process_list_all_def Let_def case_prod_beta shell_list_loop)

lemma shell_print_stats: "scheduler_print_stats s = Some s' \<Longrightarrow> shell_ok s' = shell_ok s"
  by (cases "current_process s"; cases "ready_queue_head s")
    (auto simp: scheduler_print_stats_def Let_def dest!: queue_print_keeps)

lemma shell_uptime: "cmd_uptime s = Some s' \<Longrightarrow> shell_ok s' = shell_ok s"
  by (auto simp: cmd_uptime_def Let_def split: bind_splits)

lemma shell_test:
  assumes hlt: "\<And>s. shell_ok s \<Longrightarrow> shell_ok (hlt s)" and s: "shell_ok s" and r: "cmd_test hlt args s = Some s'"
  shows "shell_ok s'"
proof -
  have w: "shell_ok u" if "timer_sleep_ms hlt 3000 (kputs l s) = Some u" for u l
    using sleep_keeps [of shell_ok hlt, OF hlt that] s by simp
  show ?thesis
    using s r by (auto simp: cmd_test_def Let_def dest!: shell_malloc_loop w split: option.splits if_splits bind_splits)
qed

lemma shell_paging_start:
  assumes hlt: "\<And>s. shell_ok s \<Longrightarrow> shell_ok (sh_hlt env s)" and s: "shell_ok s"
  shows "run_ok (paging_start env s)"
proof -
  have w: "shell_ok u" if "timer_sleep_ms (sh_hlt env) n t = Some u" "shell_ok t" for t u n
    using sleep_keeps [of shell_ok, OF hlt that] .
  show ?thesis
    using s by (auto simp: paging_start_def Let_def w split: bind_split)
qed

lemma shell_paging_test: "shell_ok s \<Longrightarrow> run_ok (paging_test s)"
  by (simp add: paging_test_def Let_def split: option.split)

lemma shell_paging:
  assumes "\<And>s. shell_ok s \<Longrightarrow> shell_ok (sh_hlt env s)" "shell_ok s"
  shows "run_ok (cmd_paging env args s)"
  using assms shell_paging_start [OF assms] shell_paging_test [OF assms(2)]
  by (simp add: cmd_paging_def split: option.split)

lemma shell_okD: "shell_ok s \<Longrightarrow> \<exists>q. sys s q \<and> current_process s = Some 0 \<and> p_state (process_table s 0) \<noteq> PROCESS_STATE_READY"
  by (auto simp: shell_ok_def system_ok_def current_not_ready_def)

lemma shell_okI: "sys s q \<Longrightarrow> current_process s = Some 0 \<Longrightarrow> p_state (process_table s 0) \<noteq> PROCESS_STATE_READY \<Longrightarrow> shell_ok s"
  by (auto simp: shell_ok_def system_ok_def current_not_ready_def)

text \<open>A new process is none the shell runs on, and it is not in the queue yet.\<close>

lemma create_idle:
  assumes wf: "process_wf s" and c: "process_create name e pr s = (r, s')" and cur: "current_process s = Some 0"
  shows "current_process s' = Some 0 \<and> p_state (process_table s' 0) = p_state (process_table s 0) \<and> r \<noteq> Some 0"
proof -
  have np: "1 \<le> unat (next_pid s)" "unat (next_pid s) \<le> 256" using wf by (simp_all add: process_wf_def)
  from np show ?thesis
  proof (cases rule: allocate_pid_cases)
    case full
    then show ?thesis using process_create_full [OF full(1), of name e pr] c cur by auto
  next
    case (slot k)
    note f = process_create_slot [OF slot(1,3), of name e pr, unfolded c fst_conv snd_conv]
    show ?thesis using slot(2) cur by (auto simp: f(1,2,6) split: if_splits)
  qed
qed

lemma add_current [simp]: "current_process (scheduler_add_process p s) = current_process s"
  by (simp add: scheduler_add_process_def Let_def split: option.split)

lemma add_state_other:
  "j \<noteq> i \<Longrightarrow> p_state (process_table (scheduler_add_process (Some i) s) j) = p_state (process_table s j)"
  by (simp add: scheduler_add_process_def Let_def split: option.split)

lemma setup_current [simp]: "current_process (process_setup_user_mode code p e s) = current_process s"
  by (simp add: process_setup_user_mode_def copy_to_user_memory_def Let_def split: option.split)

lemma enqueue_new:
  assumes c: "process_create name e pr s = (Some i, s1)" and s: "sys s q" and cur: "current_process s = Some 0"
    and st: "p_state (process_table s 0) \<noteq> PROCESS_STATE_READY"
    and t: "sys t q" "current_process t = current_process s1"
      "\<And>j. p_state (process_table t j) = p_state (process_table s1 j)"
  shows "sys (scheduler_add_process (Some i) t) (q @ [i])" "shell_ok (scheduler_add_process (Some i) t)"
proof -
  have i: "i \<notin> set q" "i < 256" "p_state (process_table s1 i) = PROCESS_STATE_READY"
    using sys_create(2) [OF s c refl] by simp_all
  have idle: "current_process s1 = Some 0" "p_state (process_table s1 0) \<noteq> PROCESS_STATE_READY" "i \<noteq> 0"
    using create_idle [OF _ c cur] s st by (simp_all add: sys_def)
  show a: "sys (scheduler_add_process (Some i) t) (q @ [i])" by (rule sys_add) (use t i in simp_all)
  show "shell_ok (scheduler_add_process (Some i) t)"
    by (rule shell_okI [OF a]) (use t idle in \<open>simp_all add: add_state_other\<close>)
qed

lemma create_failed:
  assumes "shell_ok s" "process_create name e pr s = (None, s1)"
  shows "shell_ok s1"
proof -
  obtain q where q: "sys s q" "current_process s = Some 0" "p_state (process_table s 0) \<noteq> PROCESS_STATE_READY"
    using shell_okD [OF assms(1)] by blast
  show ?thesis
    by (rule shell_okI [OF sys_create(1) [OF q(1) assms(2)]])
      (use create_idle [OF _ assms(2) q(2)] q in \<open>simp_all add: sys_def\<close>)
qed

lemma shell_ps_create: "shell_ok s \<Longrightarrow> shell_ok (ps_create_one name e s)"
proof -
  assume s: "shell_ok s"
  then obtain q where q: "sys s q" "current_process s = Some 0" "p_state (process_table s 0) \<noteq> PROCESS_STATE_READY"
    using shell_okD by blast
  obtain r s1 where c: "process_create (Some name) e PROCESS_PRIORITY_NORMAL s = (r, s1)" by (meson surj_pair)
  show ?thesis
  proof (cases r)
    case None
    then show ?thesis using create_failed [OF s] c by (simp add: ps_create_one_def)
  next
    case (Some i)
    then show ?thesis using c sys_create(1) [OF q(1) c]
      by (simp add: ps_create_one_def enqueue_new(2) [OF c [unfolded Some] q])
  qed
qed

lemma shell_usermode_create: "shell_ok s \<Longrightarrow> shell_ok (usermode_create_one code name e s)"
proof -
  assume s: "shell_ok s"
  then obtain q where q: "sys s q" "current_process s = Some 0" "p_state (process_table s 0) \<noteq> PROCESS_STATE_READY"
    using shell_okD by blast
  obtain r s1 where c: "process_create (Some name) 0 PROCESS_PRIORITY_NORMAL s = (r, s1)" by (meson surj_pair)
  show ?thesis
  proof (cases r)
    case None
    then show ?thesis using create_failed [OF s] c by (simp add: usermode_create_one_def)
  next
    case (Some i)
    then show ?thesis
      using c enqueue_new(2) [OF c [unfolded Some] q, of "process_setup_user_mode code (Some i) e s1"]
        sys_setup [OF sys_create(1) [OF q(1) c], of code i e]
      by (simp add: usermode_create_one_def Let_def)
  qed
qed

lemma shell_ps: "shell_ok s \<Longrightarrow> shell_ok (cmd_ps env args s)"
  by (simp add: cmd_ps_def Let_def shell_ps_create split: option.split)

lemma shell_yield:
  assumes "shell_ok s" "scheduler_yield s = Inr (b, s')"
  shows "system_ok s' \<and> (\<not> b \<longrightarrow> shell_ok s')"
  using ok_yield [OF _ assms(2)] assms(1) by (auto simp: shell_ok_def)

lemma shell_enable [simp]: "shell_ok (scheduler_enable s) = shell_ok s" "shell_ok (scheduler_disable s) = shell_ok s"
  by (simp_all add: scheduler_enable_def scheduler_disable_def)

lemma shell_sched:
  assumes s: "shell_ok s"
  shows "run_ok (cmd_sched args s)"
proof -
  have y: "run_ok (case scheduler_yield (kputs l s) of Inl v \<Rightarrow> Some (Inl v) | Inr (True, s) \<Rightarrow> Some (Inr (True, s))
      | Inr (False, s) \<Rightarrow> returns (kputs l' s))" for l l'
    using shell_yield [of "kputs l s"] s by (auto split: sum.split prod.split bool.split)
  have p: "run_ok (Option.bind (scheduler_print_stats s) returns)"
    using shell_print_stats [of s] s by (cases "scheduler_print_stats s") simp_all
  show ?thesis unfolding cmd_sched_def Let_def using s
    by (auto simp: y p split: option.split)
qed

lemma shell_usermode: "shell_ok s \<Longrightarrow> shell_ok (cmd_usermode env args s)"
  by (simp add: cmd_usermode_def usermode_status_def usermode_create_def Let_def shell_usermode_create)

lemma shell_command:
  assumes hlt: "\<And>s. shell_ok s \<Longrightarrow> shell_ok (sh_hlt env s)" and s: "shell_ok s"
  shows "run_ok (shell_process_command env line s)"
proof -
  have b: "run_ok (Option.bind r returns)" if "\<And>s'. r = Some s' \<Longrightarrow> shell_ok s'" for r :: "'a shell_st_scheme option"
    using that by (cases r) simp_all
  have t: "run_ok (Option.bind (cmd_test (sh_hlt env) args s) returns)" for args
    by (rule b, rule shell_test [OF hlt s])
  note cmds = b [OF shell_meminfo [THEN iffD2]] b [OF shell_uptime [THEN iffD2]] t
  show ?thesis
    unfolding shell_process_command_def Let_def
    by (simp add: s cmds shell_paging [OF hlt] shell_ps shell_sched shell_usermode)
qed

lemma shell_readline:
  assumes hlt: "\<And>s. shell_ok s \<Longrightarrow> shell_ok (sh_hlt env s)" and s: "shell_ok s"
    and r: "console_readline (sh_hlt env) buf n s = Some (buf', s')"
  shows "shell_ok s'"
  using readline_loop_keeps [of "sh_hlt env" n 0 buf s "(buf', s')" shell_ok] assms by (simp add: console_readline_def)

lemma shell_round_ok:
  assumes hlt: "\<And>s. shell_ok s \<Longrightarrow> shell_ok (sh_hlt env s)" and s: "shell_ok s"
    and r: "shell_round env buf s = Some (buf', r)"
  shows "run_ok (Some r)"
proof -
  obtain s1 where s1: "console_readline (sh_hlt env) buf MAX_COMMAND_LENGTH (shell_prompt s) = Some (buf', s1)"
    "(if buf' ! 0 \<noteq> CHR 0x00 then shell_process_command env (cstr buf') s1 else returns s1) = Some r"
    using r by (auto simp: shell_round_def split: bind_splits)
  have "shell_ok s1" using shell_readline [OF hlt _ s1(1)] s by simp
  with shell_command [OF hlt, where s = s1 and line = "cstr buf'"]
  have "run_ok (if buf' ! 0 \<noteq> CHR 0x00 then shell_process_command env (cstr buf') s1 else returns s1)" by simp
  then show ?thesis unfolding s1(2) .
qed

lemma shell_run_ok:
  assumes hlt: "\<And>s. shell_ok s \<Longrightarrow> shell_ok (sh_hlt env s)"
  shows "shell_ok s \<Longrightarrow> run_ok (shell_run n env buf s)"
proof (induction n arbitrary: buf s)
  case (Suc n)
  show ?case
  proof (cases "shell_round env buf s")
    case (Some r)
    obtain buf' r' where r: "r = (buf', r')" by (cases r)
    note ok = shell_round_ok [OF hlt Suc.prems Some [unfolded r]]
    show ?thesis
    proof (cases r')
      case (Inr c)
      obtain b t where "c = (b, t)" by (cases c)
      then show ?thesis using Suc.IH [of t buf'] ok Some r Inr by (cases b) auto
    qed (use Some r in simp)
  qed simp
qed simp

end
