(* ===== verification/Boot_Effects.thy ===== *)
theory Boot_Effects
  imports Shell_Invariant
begin

text \<open>
  What the initialisations of \<open>kmain\<close> write, each as an update of the fields it changes, and the state they
  leave together.
\<close>

section \<open>What each initialisation writes\<close>

lemma idt_loops: "\<exists>f. idt_clear_loop is s = s\<lparr>idt := f\<rparr>" "\<exists>f. idt_install stub cs is s = s\<lparr>idt := f\<rparr>"
proof -
  show "\<exists>f. idt_clear_loop is s = s\<lparr>idt := f\<rparr>"
  proof (induction "is" s rule: idt_clear_loop.induct)
    case (1 s)
    show ?case by (intro exI [of _ "idt s"]) simp
  next
    case (2 i "is" s)
    then show ?case by (auto simp: idt_set_gate_def)
  qed
  show "\<exists>f. idt_install stub cs is s = s\<lparr>idt := f\<rparr>"
  proof (induction stub cs "is" s rule: idt_install.induct)
    case (1 stub cs s)
    show ?case by (intro exI [of _ "idt s"]) simp
  next
    case (2 stub cs i "is" s)
    then show ?case by (auto simp: idt_set_gate_def)
  qed
qed

lemma gdt_init_shape: "\<exists>c g p r u v. gdt_init s = s\<lparr>gdt_pointer := p, gdt := g, gdtr := r, cpu := u, cpu_cs := v, con := c\<rparr>"
  by (simp add: gdt_init_def Let_def gdt_flush_def gdt_set_gate_def kout_defs) blast

lemma tss_init_shape: "\<exists>c g k r. tss_init e s = s\<lparr>kernel_tss := k, gdt := g, task_register := r, con := c\<rparr>"
  by (simp add: tss_init_def Let_def tss_flush_def gdt_set_gate_def kout_defs) blast

lemma idt_init_shape: "\<exists>c p f r. idt_init stub s = s\<lparr>idt_pointer := p, idt := f, idtr := r, con := c\<rparr>"
proof -
  define s0 where "s0 = (kprintk (''  IDT Base: 0x%X, Limit: %u bytes (%d entries)'' @ [CHR 0x0A])
    [VInt (idt_at s), VInt 2048, VInt 256] ((kinfo ''Initializing Interrupt Descriptor Table (IDT)'' [] s)
      \<lparr>idt_pointer := \<lparr>tab_limit = 8 * 256 - 1, tab_base = idt_at s\<rparr>\<rparr>))"
  obtain f where f: "idt_clear_loop [0..<256] s0 = s0\<lparr>idt := f\<rparr>" using idt_loops(1) by blast
  obtain g where g: "idt_install stub gdt_get_kernel_cs [0..<32] (s0\<lparr>idt := f\<rparr>) = s0\<lparr>idt := f\<rparr>\<lparr>idt := g\<rparr>"
    using idt_loops(2) by blast
  obtain h where h: "idt_install stub gdt_get_kernel_cs [32..<48] (s0\<lparr>idt := g\<rparr>) = s0\<lparr>idt := g\<rparr>\<lparr>idt := h\<rparr>"
    using idt_loops(2) by blast
  have "idt_init stub s = kprintk (''  [OK] IDT loaded with exception handlers (0-31) and IRQ handlers (32-47)'' @ [CHR 0x0A]) []
      (idt_flush (s0\<lparr>idt := h\<rparr>))"
    unfolding idt_init_def using f g h by (simp add: Let_def s0_def del: upt_rec_numeral)
  then show ?thesis by (simp add: s0_def idt_flush_def kout_defs) blast
qed

lemma pic_init_shape: "\<exists>c l. pic_init dev s = s\<lparr>io_log := l, con := c\<rparr>"
  by (simp add: pic_init_def Let_def inb_def outb_def io_wait_def kout_defs) blast

lemma pic_enable_shape: "\<exists>l. pic_enable_irq dev irq s = s\<lparr>io_log := l\<rparr>"
  by (simp add: pic_enable_irq_def Let_def inb_def outb_def split: prod.split) blast

lemma timer_init_shape: "\<exists>c l. timer_init dev 100 s = Some (s\<lparr>timer_frequency_hz := 100, io_log := l, con := c\<rparr>)"
proof -
  have d: "pit_divisor 100 = 11931" "PIT_FREQUENCY div 11931 = 100" by (simp_all add: pit_divisor_def PIT_FREQUENCY_def)
  obtain l where "pic_enable_irq dev 0 t = t\<lparr>io_log := l t\<rparr>" for t :: "'a timer_st_scheme"
    using pic_enable_shape by metis
  then show ?thesis
    by (simp add: timer_init_def Let_def outb_def kout_defs d) blast
qed

lemma memory_init_shape:
  "\<exists>c m. memory_init s = s\<lparr>heap_start := 0x200000, total_heap_size := 0x400000, mem := m, heap_end := 0x200000,
    heap_initialized := True, con := c\<rparr>"
  by (simp add: memory_init_def Let_def set_size_def set_is_free_def set_next_def set_prev_def kout_defs
      KERNEL_HEAP_START_def KERNEL_HEAP_SIZE_def) blast

lemma process_init_shape:
  "\<exists>c t. process_init s = s\<lparr>process_table := t, current_process := Some 0, next_pid := 1, con := c\<rparr>"
  by (simp add: process_init_def Let_def upd_process_def kout_defs) blast

lemma scheduler_init_shape:
  "\<exists>c. scheduler_init s = s\<lparr>ready_queue_head := None, ready_queue_tail := None, ready_queue_count := 0,
     scheduler_enabled := False, con := c\<rparr>"
  by (simp add: scheduler_init_def Let_def kout_defs) blast

lemma usermode_init_shape: "\<exists>c. usermode_init s = s\<lparr>con := c\<rparr>"
  by (simp add: usermode_init_def Let_def kout_defs) blast

lemma syscall_init_shape: "\<exists>c. syscall_init w s = (idt_set_gate 0x80 w 0x08 0xEE s)\<lparr>con := c\<rparr>"
  by (simp add: syscall_init_def Let_def kout_defs idt_set_gate_def) blast

lemma keyboard_init_shape:
  assumes "\<And>log. dev log KB_STATUS_PORT AND KB_STAT_OUTPUT_FULL = 0"
  shows "\<exists>c l. keyboard_init dev s = Some (s\<lparr>modifiers := 0, buffer_head := 0, buffer_tail := 0, buffer_count := 0,
    input_enabled := True, io_log := l, con := c\<rparr>)"
proof -
  have d: "drain_loop dev t = Some (t\<lparr>io_log := io_log t @ [In KB_STATUS_PORT (dev (io_log t) KB_STATUS_PORT)]\<rparr>)"
    for t :: "'b ports_scheme"
    by (subst drain_loop.simps) (simp add: inb_def Let_def assms)
  obtain l where "pic_enable_irq dev 1 t = t\<lparr>io_log := l t\<rparr>" for t :: "'a kbd_st_scheme"
    using pic_enable_shape by metis
  then show ?thesis by (simp add: keyboard_init_def d kout_defs Let_def) blast
qed

lemmas port_numbers = PIC1_COMMAND_def PIC1_DATA_def PIC2_COMMAND_def PIC2_DATA_def KB_DATA_PORT_def KB_STATUS_PORT_def
lemmas icws = ICW1_ICW4_def ICW1_INIT_def ICW4_8086_def IRQ_BASE_MASTER_def IRQ_BASE_SLAVE_def

text \<open>None of them reads a scancode, if the keyboard's buffer is empty, or acknowledges an interrupt.\<close>

definition log_counts :: "'a ports_scheme \<Rightarrow> nat \<times> nat" where
  "log_counts s = (key_reads (io_log s), irq_count (io_log s))"

lemma counts_ports:
  "(p, v) \<noteq> (PIC1_COMMAND, 0x20) \<Longrightarrow> log_counts (outb p v s) = log_counts s"
  "p \<noteq> KB_DATA_PORT \<Longrightarrow> log_counts (snd (inb dev p s)) = log_counts s"
  "log_counts (pic_enable_irq dev irq s) = log_counts s"
  by (auto simp: log_counts_def key_reads_def irq_count_def outb_def inb_def pic_enable_irq_def Let_def port_numbers)

lemma counts_upd [simp]: "log_counts (s\<lparr>con := c\<rparr>) = log_counts s"
  "log_counts (kinfo f a s) = log_counts s" "log_counts (kprintk f a s) = log_counts s"
  "log_counts (kputs l s) = log_counts s"
  by (simp_all add: log_counts_def kputs_def kout_defs)

lemma counts_pic: "log_counts (pic_init dev s) = log_counts s"
  by (simp add: pic_init_def Let_def io_wait_def case_prod_beta counts_ports port_numbers icws)

lemma counts_timer: "timer_init dev 100 s = Some t \<Longrightarrow> log_counts t = log_counts s"
proof -
  have d: "pit_divisor 100 = 11931" "PIT_FREQUENCY div 11931 = 100" by (simp_all add: pit_divisor_def PIT_FREQUENCY_def)
  have "log_counts (t\<lparr>timer_frequency_hz := f\<rparr>) = log_counts t" for f and t :: "'a timer_st_scheme" by (simp add: log_counts_def)
  then show "timer_init dev 100 s = Some t \<Longrightarrow> log_counts t = log_counts s"
    by (auto simp: timer_init_def Let_def counts_ports d port_numbers pit_consts)
qed

lemma counts_keyboard:
  assumes "\<And>log. dev log KB_STATUS_PORT AND KB_STAT_OUTPUT_FULL = 0" and "keyboard_init dev s = Some t"
  shows "log_counts t = log_counts s"
proof -
  have d: "drain_loop dev t = Some (snd (inb dev KB_STATUS_PORT t))" for t :: "'b ports_scheme"
    by (subst drain_loop.simps) (simp add: inb_def Let_def assms(1))
  have "log_counts (s\<lparr>modifiers := m, buffer_head := a, buffer_tail := b, buffer_count := c, input_enabled := e\<rparr>) = log_counts s"
    for m a b c e by (simp add: log_counts_def)
  then show ?thesis using assms(2) by (auto simp: keyboard_init_def d counts_ports port_numbers)
qed

section \<open>The whole boot\<close>

text \<open>The tables of the processor, and what the boot leaves of them: one gate is added.\<close>

definition boot_tables :: "'s boot_env \<Rightarrow> 'a desc_st_scheme \<Rightarrow> 'a desc_st_scheme" where
  "boot_tables env s = idt_init (bt_stub env) (tss_init (bt_esp env) (gdt_init s))"

definition same_tables :: "'a desc_st_scheme \<Rightarrow> 'a desc_st_scheme \<Rightarrow> bool" where
  "same_tables s s' \<longleftrightarrow> gdt s' = gdt s \<and> gdtr s' = gdtr s \<and> idtr s' = idtr s \<and> kernel_tss s' = kernel_tss s \<and>
     task_register s' = task_register s \<and> cpu s' = cpu s \<and> cpu_cs s' = cpu_cs s"

lemma boot_tables_shape:
  "\<exists>p g r u v k q f i t c. boot_tables env s = s\<lparr>gdt_pointer := p, gdt := g, gdtr := r, cpu := u, cpu_cs := v,
     kernel_tss := k, task_register := t, idt_pointer := q, idt := f, idtr := i, con := c\<rparr>"
proof -
  obtain c g p r u v where 1: "gdt_init s = s\<lparr>gdt_pointer := p, gdt := g, gdtr := r, cpu := u, cpu_cs := v, con := c\<rparr>"
    using gdt_init_shape by blast
  obtain c' g' k t where 2: "tss_init (bt_esp env) (gdt_init s) =
      (gdt_init s)\<lparr>kernel_tss := k, gdt := g', task_register := t, con := c'\<rparr>" using tss_init_shape by blast
  obtain c'' q f i where 3: "boot_tables env s = (tss_init (bt_esp env) (gdt_init s))\<lparr>idt_pointer := q, idt := f, idtr := i, con := c''\<rparr>"
    unfolding boot_tables_def using idt_init_shape by blast
  have "boot_tables env s = s\<lparr>gdt_pointer := p, gdt := g', gdtr := r, cpu := u, cpu_cs := v,
     kernel_tss := k, task_register := t, idt_pointer := q, idt := f, idtr := i, con := c''\<rparr>"
    unfolding 3 unfolding 2 unfolding 1 by simp
  then show ?thesis by blast
qed

lemma boot_subsystems_result:
  assumes idle: "\<And>log. bt_dev env log KB_STATUS_PORT AND KB_STAT_OUTPUT_FULL = 0"
  shows "\<exists>s0 u s'. boot_subsystems env s = Some s' \<and> s0 = boot_tables env (kinfo ''Phase 1: Kernel Foundation Initialization'' [] s) \<and>
    same_tables s0 s' \<and> idt s' = idt (idt_set_gate 0x80 (bt_syscall_wrapper env) 0x08 0xEE s0) \<and>
    same_procs (scheduler_init (process_init u)) s' \<and> stack_allocated u = stack_allocated s \<and>
    tables_aliased (mem s') \<and> kernel_directory s' = kdir \<and> current_directory s' = kdir \<and>
    heap_initialized s' \<and> heap_start s' = 0x200000 \<and> \<not> scheduler_enabled s' \<and>
    timer_frequency_hz s' = 100 \<and> system_ticks s' = system_ticks s \<and> interrupt_flag s' \<and> cr0 s' = cr0 s \<and>
    modifiers s' = 0 \<and> buffer_head s' = 0 \<and> buffer_tail s' = 0 \<and> buffer_count s' = 0 \<and> input_enabled s' \<and>
    input_buffer s' = input_buffer s \<and> kbd_st.more s' = kbd_st.more s \<and> halted s' = halted s \<and> log_counts s' = log_counts s"
proof -
  define s1 where "s1 = kinfo ''Phase 1: Kernel Foundation Initialization'' [] s"
  define s0 where "s0 = boot_tables env s1"
  obtain c1 l1 where pic: "pic_init (bt_dev env) s0 = s0\<lparr>io_log := l1, con := c1\<rparr>" using pic_init_shape by blast
  define s2 where "s2 = s0\<lparr>io_log := l1, con := c1\<rparr>"
  obtain c2 l2 where tim: "timer_init (bt_dev env) 100 s2 = Some (s2\<lparr>timer_frequency_hz := 100, io_log := l2, con := c2\<rparr>)"
    using timer_init_shape by blast
  define s3 where "s3 = s2\<lparr>timer_frequency_hz := 100, io_log := l2, con := c2\<rparr>"
  define s4 where "s4 = memory_init s3"
  obtain c4 m4 where mem: "s4 = s3\<lparr>heap_start := 0x200000, total_heap_size := 0x400000, mem := m4, heap_end := 0x200000,
    heap_initialized := True, con := c4\<rparr>" using memory_init_shape [of s3] by (auto simp: s4_def)
  obtain c5 h m where pag: "paging_init s4 = Some (s4\<lparr>kernel_directory := kdir, heap_end := h, mem := m, current_directory := kdir, con := c5\<rparr>)"
    "tables_aliased m" using paging_init_result [of s4] memory_init_rep [of s3] by (auto simp: s4_def)
  define u where "u = s4\<lparr>kernel_directory := kdir, heap_end := h, mem := m, current_directory := kdir, con := c5\<rparr>"
  obtain c6 t where pro: "process_init u = u\<lparr>process_table := t, current_process := Some 0, next_pid := 1, con := c6\<rparr>"
    using process_init_shape by blast
  define s6 where "s6 = scheduler_init (process_init u)"
  obtain c7 where sch: "s6 = (process_init u)\<lparr>ready_queue_head := None, ready_queue_tail := None, ready_queue_count := 0,
     scheduler_enabled := False, con := c7\<rparr>" using scheduler_init_shape [of "process_init u"] by (auto simp: s6_def)
  obtain c8 where us: "usermode_init s6 = s6\<lparr>con := c8\<rparr>" using usermode_init_shape by blast
  obtain c9 where sy: "syscall_init (bt_syscall_wrapper env) (s6\<lparr>con := c8\<rparr>) =
      (idt_set_gate 0x80 (bt_syscall_wrapper env) 0x08 0xEE (s6\<lparr>con := c8\<rparr>))\<lparr>con := c9\<rparr>" using syscall_init_shape by blast
  define s9 where "s9 = (idt_set_gate 0x80 (bt_syscall_wrapper env) 0x08 0xEE (s6\<lparr>con := c8\<rparr>))\<lparr>con := c9\<rparr>"
  obtain c10 l10 where kb: "keyboard_init (bt_dev env) s9 = Some (s9\<lparr>modifiers := 0, buffer_head := 0, buffer_tail := 0, buffer_count := 0,
    input_enabled := True, io_log := l10, con := c10\<rparr>)" using keyboard_init_shape [of "bt_dev env" s9] idle by blast
  define s' where "s' = (kinfo ''Enabling hardware interrupts'' [] (s9\<lparr>modifiers := 0, buffer_head := 0, buffer_tail := 0,
    buffer_count := 0, input_enabled := True, io_log := l10, con := c10\<rparr>))\<lparr>interrupt_flag := True\<rparr>"
  have boot: "boot_subsystems env s = Some s'"
    unfolding boot_subsystems_def Let_def s1_def [symmetric] boot_tables_def [symmetric] s0_def [symmetric] pic s2_def [symmetric] tim
    by (simp add: s3_def [symmetric] s4_def [symmetric] pag(1) u_def [symmetric] s6_def [symmetric] us sy s9_def [symmetric] kb s'_def)
  obtain p g r u' v k q f i t' c where sh: "s0 = s1\<lparr>gdt_pointer := p, gdt := g, gdtr := r, cpu := u', cpu_cs := v,
     kernel_tss := k, task_register := t', idt_pointer := q, idt := f, idtr := i, con := c\<rparr>"
    using boot_tables_shape [of env s1] by (auto simp: s0_def)
  note all = s'_def s9_def sch [unfolded pro] u_def mem s3_def s2_def kinfo_def idt_set_gate_def
  have "same_tables s0 s'" "idt s' = idt (idt_set_gate 0x80 (bt_syscall_wrapper env) 0x08 0xEE s0)"
    by (simp_all add: same_tables_def all)
  moreover have "same_procs s6 s'" by (simp add: same_procs_def s'_def s9_def kinfo_def idt_set_gate_def)
  moreover have "stack_allocated u = stack_allocated s" by (simp add: all sh s1_def)
  moreover have "tables_aliased (mem s') \<and> kernel_directory s' = kdir \<and> current_directory s' = kdir \<and>
    heap_initialized s' \<and> heap_start s' = 0x200000 \<and> \<not> scheduler_enabled s' \<and> timer_frequency_hz s' = 100 \<and> system_ticks s' = system_ticks s \<and>
    interrupt_flag s' \<and> cr0 s' = cr0 s \<and> input_buffer s' = input_buffer s \<and>
    kbd_st.more s' = kbd_st.more s \<and> halted s' = halted s"
    by (simp add: all sh s1_def pag(2))
  moreover have "modifiers s' = 0 \<and> buffer_head s' = 0 \<and> buffer_tail s' = 0 \<and> buffer_count s' = 0 \<and> input_enabled s'"
    by (simp add: s'_def kinfo_def)
  moreover have "log_counts s' = log_counts s"
  proof -
    have "io_log s' = l10" "io_log s9 = l2" "io_log s2 = l1" "io_log s0 = io_log s" by (simp_all add: all sh s1_def)
    then show ?thesis
      using counts_keyboard [OF idle kb] counts_pic [of "bt_dev env" s0] counts_timer [OF tim] by (simp add: log_counts_def pic)
  qed
  ultimately show ?thesis using boot by (intro exI [of _ s0] exI [of _ u] exI [of _ s']) (simp add: s0_def s1_def s6_def)
qed

end
