(* ===== verification/Boot_Theorems.thy ===== *)
theory Boot_Theorems
  imports Boot_Effects
begin

text \<open>
  The running system: what the boot establishes, that it reaches the shell, the states reached from it by
  interrupts, system calls and commands, and what the demonstrations the shell offers come to.
\<close>

section \<open>The processes after the boot\<close>

text \<open>The process table as the boot leaves it: the idle process runs, all else is free.\<close>

definition only_idle :: "'a sched_st_scheme \<Rightarrow> bool" where
  "only_idle s \<longleftrightarrow> process_wf s \<and> queue_rep s [] \<and> current_process s = Some 0 \<and> next_pid s = 1 \<and>
     p_state (process_table s 0) = PROCESS_STATE_RUNNING \<and> p_quantum (process_table s 0) = 1 \<and>
     \<not> scheduler_enabled s \<and> (\<forall>i. 1 \<le> i \<and> i < 256 \<longrightarrow> slot_free s i \<and> \<not> stack_allocated s i)"

lemma idle_quantum: "p_quantum (process_table (process_init s) 0) = 1"
  by (simp add: process_init_def Let_def)

lemma idle_scheduled:
  assumes "\<And>i. \<not> stack_allocated u i"
  shows "only_idle (scheduler_init (process_init u))"
proof -
  obtain c where c: "scheduler_init (process_init u) = (process_init u)\<lparr>ready_queue_head := None, ready_queue_tail := None,
      ready_queue_count := 0, scheduler_enabled := False, con := c\<rparr>"
    using scheduler_init_shape by blast
  have "process_wf (scheduler_init (process_init u))"
    using process_init_spec(1) [of u] by (simp add: c process_wf_def slot_free_def)
  moreover have "slot_free (scheduler_init (process_init u)) i \<longleftrightarrow> 1 \<le> i \<and> i < 256" for i
    using process_init_spec(6) [of u i] by (simp add: c slot_free_def)
  ultimately show ?thesis
    using assms by (simp add: only_idle_def queue_rep_def c process_init_spec boot_idle idle_quantum)
qed

lemma only_idle_same:
  assumes "same_procs s s'" "scheduler_enabled s' = scheduler_enabled s"
  shows "only_idle s' = only_idle s"
  using same_procs_rep [OF assms(1)] same_procs_wf [OF assms(1)] assms
  by (simp add: only_idle_def) (simp add: same_procs_def slot_free_def)

lemma only_idle_ok:
  assumes "only_idle s"
  shows "sys s []" "shell_ok s"
  using assms by (auto simp: only_idle_def sys_def ready_all_def shell_ok_def system_ok_def current_not_ready_def)

section \<open>Two processes from the shell\<close>

lemma allocate_next:
  assumes "unat (next_pid s) = i" "i < 256" "slot_free s i"
  shows "process_allocate_pid s = (of_nat i, s\<lparr>next_pid := of_nat i + 1\<rparr>)"
  using assms upt_conv_Cons [of i 256] by (simp add: process_allocate_pid_def Let_def MAX_PROCESSES_def slot_free_def)

lemma add_registers [simp]: "p_registers (process_table (scheduler_add_process p s) j) = p_registers (process_table s j)"
  "p_quantum (process_table (scheduler_add_process p s) j) = p_quantum (process_table s j)"
  by (simp_all add: scheduler_add_process_def Let_def split: option.split)

lemma add_enabled [simp]: "scheduler_enabled (scheduler_add_process p s) = scheduler_enabled s"
  "quantum_ticks (scheduler_add_process p s) = quantum_ticks s"
  by (simp_all add: scheduler_add_process_def Let_def split: option.split)

text \<open>What stays the same for the scheduler when a process is created.\<close>

lemma create_sched_frame:
  "scheduler_enabled (snd (process_create name e pr s)) = scheduler_enabled s"
  "quantum_ticks (snd (process_create name e pr s)) = quantum_ticks s"
proof -
  have sw: "scheduler_enabled (upd_process i f t) = scheduler_enabled t" "quantum_ticks (upd_process i f t) = quantum_ticks t"
    "scheduler_enabled (kerror l a t) = scheduler_enabled t" "quantum_ticks (kerror l a t) = quantum_ticks t"
    for i f l a and t :: "'a sched_st_scheme"
    by (simp_all add: upd_process_def kerror_def)
  have p: "scheduler_enabled (create_pcb name pr p t) = scheduler_enabled t" "quantum_ticks (create_pcb name pr p t) = quantum_ticks t"
    "scheduler_enabled (create_context e p t) = scheduler_enabled t" "quantum_ticks (create_context e p t) = quantum_ticks t"
    "scheduler_enabled (add_child i ch t) = scheduler_enabled t" "quantum_ticks (add_child i ch t) = quantum_ticks t"
    "scheduler_enabled (process_free_pid p t) = scheduler_enabled t" "quantum_ticks (process_free_pid p t) = quantum_ticks t"
    for p i ch and t :: "'a sched_st_scheme"
    by (simp_all add: create_pcb_def create_context_def add_child_def process_free_pid_def sw Let_def split: option.split)
  obtain p t where t: "process_allocate_pid s = (p, t)" by (cases "process_allocate_pid s")
  then have "scheduler_enabled t = scheduler_enabled s" "quantum_ticks t = quantum_ticks s"
    by (auto simp: process_allocate_pid_def Let_def split: option.splits)
  then show "scheduler_enabled (snd (process_create name e pr s)) = scheduler_enabled s"
    "quantum_ticks (snd (process_create name e pr s)) = quantum_ticks s"
    by (simp_all add: process_create_def t p sw Let_def split: option.split)
qed

text \<open>A state between the two: \<open>i\<close> is the next slot, and all from there on are free.\<close>

definition filled :: "nat list \<Rightarrow> nat \<Rightarrow> 'a sched_st_scheme \<Rightarrow> bool" where
  "filled q i s \<longleftrightarrow> sys s q \<and> current_process s = Some 0 \<and> unat (next_pid s) = i \<and> 1 \<le> i \<and>
     p_state (process_table s 0) = PROCESS_STATE_RUNNING \<and>
     (\<forall>j. i \<le> j \<and> j < 256 \<longrightarrow> slot_free s j \<and> \<not> stack_allocated s j)"

lemma filled_out [simp]: "filled q i (kprintk f args s) = filled q i s" "filled q i (kputs l s) = filled q i s"
  by (simp_all add: filled_def slot_free_def kputs_def)

lemma ps_create_next:
  fixes name :: string and e :: u32
  assumes f: "filled q i s" and i: "i < 255"
  defines "s' \<equiv> ps_create_one name e s"
  shows "filled (q @ [i]) (i + 1) s'" "r_eip (p_registers (process_table s' i)) = e"
    "r_ss (p_registers (process_table s' i)) = 0" "r_ds (p_registers (process_table s' i)) = 0"
    "j \<noteq> i \<Longrightarrow> p_registers (process_table s' j) = p_registers (process_table s j)"
    "p_quantum (process_table s' 0) = p_quantum (process_table s 0)"
    "scheduler_enabled s' = scheduler_enabled s" "quantum_ticks s' = quantum_ticks s"
proof -
  have s: "sys s q" "current_process s = Some 0" "p_state (process_table s 0) \<noteq> PROCESS_STATE_READY" "unat (next_pid s) = i" "1 \<le> i"
    "slot_free s i" "\<not> stack_allocated s i" using f i by (simp_all add: filled_def)
  have al: "process_allocate_pid s = (of_nat i, s\<lparr>next_pid := of_nat i + 1\<rparr>)" by (rule allocate_next) (use s i in simp_all)
  obtain r s1 where c: "process_create (Some name) e PROCESS_PRIORITY_NORMAL s = (r, s1)" by (meson surj_pair)
  have i': "i < 256" using i by simp
  note p = process_create_slot [OF al i', of "Some name" e PROCESS_PRIORITY_NORMAL, unfolded c fst_conv snd_conv]
  have r: "r = Some i" using p(1) s(7) by simp
  have tab: "process_table s1 = (process_table s)(0 := with_child (Some i) (process_table s 0),
      i := fresh_pcb (Some name) e PROCESS_PRIORITY_NORMAL i s)" using p(6) s(2,7) by simp
  define s2 where "s2 = kprintk (''  Created: %s (PID %d)'' @ [CHR 0x0A])
              [VStr (Some (cstr (p_name (process_table s1 i)))), VInt (p_pid (process_table s1 i))] s1"
  have s': "s' = scheduler_add_process (Some i) s2" by (simp add: s'_def ps_create_one_def c r s2_def)
  have q: "sys s1 q" by (rule sys_create(1) [OF s(1) c])
  have q': "sys s' (q @ [i])"
    unfolding s' by (rule enqueue_new(1) [OF c [unfolded r] s(1,2,3)]) (use q in \<open>simp_all add: s2_def\<close>)
  have st: "p_state (process_table s' j) = p_state (process_table s j)" if "j \<noteq> i" for j
    using that by (simp add: s' add_state_other s2_def tab)
  have np: "unat (of_nat i + 1 :: u32) = i + 1" using i by (simp add: unat_plus_no_wrap)
  have fields: "current_process s' = Some 0" "next_pid s' = of_nat i + 1" "stack_allocated s' = (stack_allocated s)(i := True)"
    using s(2) p by (simp_all add: s' s2_def add_frame)
  show "filled (q @ [i]) (i + 1) s'"
    using q' st f s(5) np by (simp add: filled_def fields slot_free_def)
  show "r_eip (p_registers (process_table s' i)) = e" "r_ss (p_registers (process_table s' i)) = 0"
    "r_ds (p_registers (process_table s' i)) = 0"
    by (simp_all add: s' s2_def tab fresh_pcb_def Let_def zero_registers_def)
  show "j \<noteq> i \<Longrightarrow> p_registers (process_table s' j) = p_registers (process_table s j)"
    "p_quantum (process_table s' 0) = p_quantum (process_table s 0)"
    using s(5) by (simp_all add: s' s2_def tab)
  show "scheduler_enabled s' = scheduler_enabled s" "quantum_ticks s' = quantum_ticks s"
    using create_sched_frame [of "Some name" e PROCESS_PRIORITY_NORMAL s] c by (simp_all add: s' s2_def)
qed

lemma null_stack_faults:
  assumes "r_ss (p_registers (process_table s new)) = 0" "r_ds (p_registers (process_table s new)) = 0" "new \<noteq> old"
  shows "context_switch old new s = Inl 13"
  using assms by (simp add: context_switch_def load_context_def Let_def save_other stack_selector_ok_def)

section \<open>Waiting\<close>

lemma sleep_returns:
  assumes "\<And>s. system_ticks (hlt s) = system_ticks s + 1"
  shows "\<exists>n. timer_sleep_ms hlt ms s = Some ((hlt ^^ n) s)"
proof -
  define k where "k = sleep_ticks_of_ms ms (timer_frequency_hz s)"
  show ?thesis
  proof (cases "unat (system_ticks s) + unat k < 2 ^ 32")
    case True
    then show ?thesis
      using timer_sleep_loop_ticks [OF assms, where n = "unat k" and s = s and target = "system_ticks s + k"]
      by (auto simp: timer_sleep_ms_def timer_sleep_ticks_def k_def unat_plus_no_wrap)
  next
    case False
    then have "\<not> system_ticks s < system_ticks s + k"
      using unat_lt32 [of k] unat_lt32 [of "system_ticks s"] by (auto simp: word_less_nat_alt unat_word_ariths mod_if)
    then show ?thesis
      by (intro exI [of _ 0]) (simp add: timer_sleep_ms_def timer_sleep_ticks_def k_def timer_sleep_loop.simps)
  qed
qed

text \<open>An interrupt that does not switch leaves the shell's process current: a \<^verbatim>\<open>hlt\<close> that ends in one
  keeps \<open>shell_ok\<close>.\<close>

lemma shell_stack [simp]:
  "shell_ok (push32 v s) = shell_ok s" "shell_ok (drop_stack n s) = shell_ok s" "shell_ok (pusha s) = shell_ok s"
  "shell_ok (popa s) = shell_ok s" "shell_ok (load_data_segments sel s) = shell_ok s" "shell_ok (outb p w s) = shell_ok s"
  "shell_ok (pic_send_eoi irq s) = shell_ok s" "shell_ok (s\<lparr>system_ticks := t\<rparr>) = shell_ok s"
  by (rule shell_same, simp add: same_procs_def push32_def drop_stack_def pusha_def popa_def load_data_segments_def Let_def
      outb_def pic_send_eoi_def)+

lemma shell_tick: "scheduler_tick s = Inr (False, s') \<Longrightarrow> shell_ok s \<Longrightarrow> shell_ok s'"
  using ok_tick [of s False s'] by (auto simp: shell_ok_def)

lemma keyboard_current [simp]: "current_process (keyboard_handler dev s) = current_process s"
proof -
  have k: "current_process (key_release c t) = current_process t" "current_process (function_key c t) = current_process t"
    "current_process (accept_char a t) = current_process t" for c a and t :: "'a kbd_st_scheme"
    by (simp_all add: key_release_def function_key_def accept_char_def keyboard_add_to_buffer_def)
  show ?thesis by (simp add: keyboard_handler_def inb_def k Let_def split: option.split)
qed

lemma shell_keyboard [simp]: "shell_ok (keyboard_handler dev s) = shell_ok s"
  by (simp add: shell_ok_def)

lemma shell_irq:
  assumes ok: "shell_ok s" and i: "irq_stub dev number s = Inr (False, s')"
  shows "shell_ok s'"
proof -
  define t where "t = irq_stub_entry number s"
  define v where "v = push32 (r_esp (cpu t)) t"
  have v: "shell_ok v" using ok by (simp add: v_def t_def irq_stub_entry_def Let_def)
  have "irq_stub dev number s = (case irq_handler dev (r_esp (cpu t)) v of
        Inl vector \<Rightarrow> Inl vector
      | Inr (True, s) \<Rightarrow> Inr (True, s)
      | Inr (False, s) \<Rightarrow> Inr (False, irq_stub_exit (drop_stack 4 s)))"
    by (simp add: irq_stub_def t_def v_def Let_def)
  then obtain u where u: "irq_handler dev (r_esp (cpu t)) v = Inr (False, u)" "s' = irq_stub_exit (drop_stack 4 u)"
    using i by (auto split: sum.splits prod.splits bool.splits)
  have "shell_ok u"
    using u(1) v by (auto simp: irq_handler_def Let_def split: if_splits elim!: timer_handler_cases dest!: shell_tick)
  then show ?thesis by (simp add: u(2) irq_stub_exit_def Let_def)
qed

section \<open>States of the running system\<close>

text \<open>The boot, and then in any order: interrupts, system calls, command lines while the shell's process
  runs, and steps of programs, which leave the kernel's tables alone.\<close>

inductive system_reach :: "'a shell_st_scheme boot_env \<Rightarrow> 'a shell_st_scheme \<Rightarrow> bool" for env where
  reach_boot: "boot env s = Some s' \<Longrightarrow> (\<And>i. \<not> stack_allocated s i) \<Longrightarrow> system_reach env s'"
| reach_irq: "system_reach env s \<Longrightarrow> irq_stub (bt_dev env) number s = Inr (switched, s') \<Longrightarrow> system_reach env s'"
| reach_syscall: "system_reach env s \<Longrightarrow> syscall_wrapper s = Inr (switched, s') \<Longrightarrow> system_reach env s'"
| reach_command: "system_reach env s \<Longrightarrow> current_process s = Some 0 \<Longrightarrow>
    shell_process_command (bt_shell env) line s = Some (Inr (switched, s')) \<Longrightarrow> system_reach env s'"
| reach_program: "system_reach env s \<Longrightarrow> same_procs s s' \<Longrightarrow> system_reach env s'"

lemma only_idle_out [simp]: "only_idle (s\<lparr>con := c\<rparr>) = only_idle s"
  by (rule only_idle_same) (simp_all add: same_procs_def)

lemma report_shape: "\<exists>c. boot_report s = s\<lparr>con := c\<rparr>" "\<exists>c. shell_init s = s\<lparr>con := c\<rparr>" "\<exists>c. boot_banner k s = s\<lparr>con := c\<rparr>"
proof -
  have l: "\<exists>c. say_lines ls t = t\<lparr>con := c\<rparr>" for ls and t :: "'b kout_scheme"
  proof (induction ls arbitrary: t)
    case Nil
    show ?case by (intro exI [of _ "con t"]) (simp add: say_lines_def)
  next
    case (Cons l ls)
    then obtain c where "say_lines ls (kputs l t) = (kputs l t)\<lparr>con := c\<rparr>" by blast
    then show ?case by (simp add: say_lines_def) (auto simp: kputs_def kprintk_def)
  qed
  then obtain f where f: "say_lines ls t = t\<lparr>con := f ls t\<rparr>" for ls and t :: "'a kout_scheme" by metis
  show "\<exists>c. boot_report s = s\<lparr>con := c\<rparr>"
    unfolding boot_report_def Let_def f by (simp add: kputs_def kout_defs) blast
  show "\<exists>c. shell_init s = s\<lparr>con := c\<rparr>"
    unfolding shell_init_def Let_def by (simp add: set_color_def kout_defs) blast
  show "\<exists>c. boot_banner k s = s\<lparr>con := c\<rparr>"
    unfolding boot_banner_def Let_def f by (simp add: kputs_def set_color_def kout_defs) blast
qed

lemma subsystems_idle:
  assumes idle: "\<And>log. bt_dev env log KB_STATUS_PORT AND KB_STAT_OUTPUT_FULL = 0"
    and b: "boot_subsystems env s = Some s'" and st: "\<And>i. \<not> stack_allocated s i"
  shows "only_idle s'"
proof -
  obtain u where u: "same_procs (scheduler_init (process_init u)) s'" "stack_allocated u = stack_allocated s" "\<not> scheduler_enabled s'"
    using boot_subsystems_result [of env s, OF idle] b by auto
  have o: "only_idle (scheduler_init (process_init u))" by (rule idle_scheduled) (use u(2) st in simp)
  then have "scheduler_enabled s' = scheduler_enabled (scheduler_init (process_init u))" using u(3) by (simp add: only_idle_def)
  with only_idle_same [OF u(1)] o show ?thesis by simp
qed

lemma boot_ok:
  assumes idle: "\<And>log. bt_dev env log KB_STATUS_PORT AND KB_STAT_OUTPUT_FULL = 0"
    and hlt: "\<And>s. shell_ok s \<Longrightarrow> shell_ok (sh_hlt (bt_shell env) s)"
    and b: "boot env s = Some s'" and st: "\<And>i. \<not> stack_allocated s i"
  shows "shell_ok s'"
proof -
  obtain s1 s2 where s1: "boot_subsystems env (boot_banner (bt_kmain env) s) = Some s1"
    "timer_sleep_ms (sh_hlt (bt_shell env)) 500 (boot_report s1) = Some s2" "s' = shell_init s2"
    using b by (auto simp: boot_def split: bind_splits)
  obtain c where "boot_banner (bt_kmain env) s = s\<lparr>con := c\<rparr>" using report_shape(3) by blast
  then have "only_idle s1" using subsystems_idle [OF idle s1(1)] st by simp
  moreover obtain c' where "boot_report s1 = s1\<lparr>con := c'\<rparr>" using report_shape(1) by blast
  ultimately have "shell_ok (boot_report s1)" using only_idle_ok(2) by simp
  then have "shell_ok s2" using sleep_keeps [of shell_ok, OF hlt s1(2)] by simp
  then show ?thesis using report_shape(2) [of s2] by (auto simp: s1(3))
qed

lemma reach_ok:
  assumes idle: "\<And>log. bt_dev env log KB_STATUS_PORT AND KB_STAT_OUTPUT_FULL = 0"
    and hlt: "\<And>s. shell_ok s \<Longrightarrow> shell_ok (sh_hlt (bt_shell env) s)"
    and r: "system_reach env s"
  shows "system_ok s"
  using r
proof induction
  case (reach_boot s s')
  then show ?case using boot_ok [OF idle hlt, of s s'] by (simp add: shell_ok_def)
next
  case (reach_irq s number switched s')
  then show ?case using ok_irq by blast
next
  case (reach_syscall s switched s')
  then show ?case using ok_syscall by blast
next
  case (reach_command s line switched s')
  then have "run_ok (Some (Inr (switched, s')))"
    using shell_command [OF hlt, of s line] by (simp add: shell_ok_def)
  then show ?case by (cases switched) (simp_all add: shell_ok_def)
next
  case (reach_program s s')
  then show ?case using ok_same by blast
qed

section \<open>Properties\<close>

lemma boot_gates:
  assumes i: "idt s' = idt (idt_set_gate 0x80 w 0x08 0xEE (idt_init stub t))"
  shows "n < 48 \<Longrightarrow> int_target 0 n s' = Some (stub n)"
    "n < 256 \<Longrightarrow> int_target 3 n s' = (if n = 0x80 then Some w else None)"
proof -
  have other: "int_target c n s' = int_target c n (idt_init stub t)" if "n \<noteq> 0x80" for c n
    using that by (simp add: int_target_def i) (simp add: idt_set_gate_def)
  show "n < 48 \<Longrightarrow> int_target 0 n s' = Some (stub n)" using other [of n 0] idt_init_targets(2) by auto
  have "gate_offset (idt (idt_set_gate 0x80 w 0x08 0xEE (idt_init stub t)) 0x80) = w"
    using idt_gate_decode [of "0x80"] by simp
  then have "int_target 3 0x80 s' = Some w"
    by (simp add: int_target_def i gate_present_def gate_dpl_def) (simp add: idt_set_gate_def bit_iff_odd)
  then show "n < 256 \<Longrightarrow> int_target 3 n s' = (if n = 0x80 then Some w else None)"
    using other [of n 3] idt_init_targets(1) [of n stub t] by auto
qed

lemma boot_tables_gdt:
  "k \<le> 4 \<Longrightarrow> gdt (boot_tables env t) k = gdt (gdt_init t) k" "esp0 (kernel_tss (boot_tables env t)) = bt_esp env"
  "gdtr (boot_tables env t) = gdtr (gdt_init t)" "cpu_cs (boot_tables env t) = 8"
proof -
  define g where "g = gdt_init t"
  obtain c p f r where i: "boot_tables env t = (tss_init (bt_esp env) g)\<lparr>idt_pointer := p, idt := f, idtr := r, con := c\<rparr>"
    unfolding boot_tables_def g_def using idt_init_shape by blast
  have tg: "k \<noteq> 5 \<Longrightarrow> gdt (tss_init e g) k = gdt g k" "esp0 (kernel_tss (tss_init e g)) = e"
    "gdtr (tss_init e g) = gdtr g" "cpu_cs (tss_init e g) = cpu_cs g" for k e
    by (simp_all add: tss_init_def Let_def tss_flush_def gdt_set_gate_def kout_defs)
  show "k \<le> 4 \<Longrightarrow> gdt (boot_tables env t) k = gdt (gdt_init t) k" "esp0 (kernel_tss (boot_tables env t)) = bt_esp env"
    "gdtr (boot_tables env t) = gdtr (gdt_init t)" "cpu_cs (boot_tables env t) = 8"
    using tg gdt_init_loaded(2) [of t] by (simp_all add: i g_def)
qed

text \<open>C8 (functional, invariant): where no key is pending at the keyboard controller, the initialisations of
  \<open>kmain\<close> return, with interrupts on, the stack of the entry code in the task state segment, every
  exception and hardware interrupt at its stub, interrupt 0x80 the only one open to ring 3, only the idle
  process, running with one tick left, and nothing in the ready queue or the key buffer.\<close>

theorem boot_establishes:
  assumes idle: "\<And>log. bt_dev env log KB_STATUS_PORT AND KB_STAT_OUTPUT_FULL = 0"
    and st: "\<And>i. \<not> stack_allocated s i" and buf: "length (input_buffer s) = 256"
  shows "\<exists>s'. boot_subsystems env s = Some s' \<and> interrupt_flag s' \<and> esp0 (kernel_tss s') = bt_esp env \<and>
    (\<forall>n < 48. int_target 0 n s' = Some (bt_stub env n)) \<and>
    (\<forall>n < 256. int_target 3 n s' = (if n = 0x80 then Some (bt_syscall_wrapper env) else None)) \<and>
    only_idle s' \<and> kbd_rep s' [] \<and> timer_frequency_hz s' = 100"
proof -
  obtain s0 s' where b: "boot_subsystems env s = Some s'" "s0 = boot_tables env (kinfo ''Phase 1: Kernel Foundation Initialization'' [] s)"
    "same_tables s0 s'" "idt s' = idt (idt_set_gate 0x80 (bt_syscall_wrapper env) 0x08 0xEE s0)" "interrupt_flag s'"
    "timer_frequency_hz s' = 100" "buffer_head s' = 0" "buffer_tail s' = 0" "buffer_count s' = 0" "input_buffer s' = input_buffer s"
    using boot_subsystems_result [of env s, OF idle] by auto
  have o: "only_idle s'" by (rule subsystems_idle [OF idle b(1) st])
  have i: "idt s' = idt (idt_set_gate 0x80 (bt_syscall_wrapper env) 0x08 0xEE
      (idt_init (bt_stub env) (tss_init (bt_esp env) (gdt_init (kinfo ''Phase 1: Kernel Foundation Initialization'' [] s)))))"
    using b(2,4) by (simp add: boot_tables_def)
  have "esp0 (kernel_tss s') = bt_esp env" using b(2,3) by (simp add: same_tables_def boot_tables_gdt)
  moreover have "kbd_rep s' []" using b(7-10) buf by (simp add: kbd_rep_def)
  ultimately show ?thesis
    using b(1,5,6) o boot_gates [OF i] by (intro exI [of _ s']) simp
qed

text \<open>Fact (liveness): the kernel reaches the shell's loop, if a \<^verbatim>\<open>hlt\<close> is ended by a tick.\<close>

theorem boot_reaches_shell:
  assumes idle: "\<And>log. bt_dev env log KB_STATUS_PORT AND KB_STAT_OUTPUT_FULL = 0"
    and tick: "\<And>s. system_ticks (sh_hlt (bt_shell env) s) = system_ticks s + 1"
  shows "\<exists>s' c n. boot_subsystems env (boot_banner (bt_kmain env) s) = Some s' \<and>
    kmain rounds env buf s = shell_run rounds (bt_shell env) buf (shell_init ((sh_hlt (bt_shell env) ^^ n) (s'\<lparr>con := c\<rparr>)))"
proof -
  obtain s' where b: "boot_subsystems env (boot_banner (bt_kmain env) s) = Some s'"
    using boot_subsystems_result [of env "boot_banner (bt_kmain env) s", OF idle] by auto
  obtain c where c: "boot_report s' = s'\<lparr>con := c\<rparr>" using report_shape(1) by blast
  obtain n where "timer_sleep_ms (sh_hlt (bt_shell env)) 500 (s'\<lparr>con := c\<rparr>) = Some ((sh_hlt (bt_shell env) ^^ n) (s'\<lparr>con := c\<rparr>))"
    using sleep_returns [OF tick] by blast
  then have "boot env s = Some (shell_init ((sh_hlt (bt_shell env) ^^ n) (s'\<lparr>con := c\<rparr>)))"
    by (simp add: boot_def b c)
  then show ?thesis using b by (auto simp: kmain_def)
qed


lemma only_idle_filled: "only_idle s \<Longrightarrow> filled [] 1 s"
  using only_idle_ok(1) [of s] by (simp add: only_idle_def filled_def)

lemma ps_create_command:
  "cmd_ps env (Some ''create'') s = kputs (''Use '' @ quoted ''sched start'' @ '' to enable scheduling.'')
     (kputs ''Test processes created and added to ready queue.''
       (ps_create_one ''test_proc_2'' (sh_test_process_2 env) (ps_create_one ''test_proc_1'' (sh_test_process_1 env)
         (kputs ''Creating test processes...'' s))))"
  by (simp add: cmd_ps_def skip_blanks_def Let_def eval_nat_numeral)

lemma ps_create_result:
  fixes env :: "'s shell_env"
  assumes "only_idle s"
  defines "s' \<equiv> cmd_ps env (Some ''create'') s"
  shows "sys s' [1, 2]" "current_process s' = Some 0" "p_state (process_table s' 0) = PROCESS_STATE_RUNNING"
    "p_quantum (process_table s' 0) = 1" "\<not> scheduler_enabled s'"
    "r_eip (p_registers (process_table s' 1)) = sh_test_process_1 env" "r_eip (p_registers (process_table s' 2)) = sh_test_process_2 env"
    "r_ss (p_registers (process_table s' 1)) = 0" "r_ds (p_registers (process_table s' 1)) = 0"
proof -
  define s0 where "s0 = kputs ''Creating test processes...'' s"
  define s1 where "s1 = ps_create_one ''test_proc_1'' (sh_test_process_1 env) s0"
  define s2 where "s2 = ps_create_one ''test_proc_2'' (sh_test_process_2 env) s1"
  have f0: "filled [] 1 s0" using only_idle_filled [OF assms(1)] by (simp add: s0_def)
  note n1 = ps_create_next [OF f0, where name = "''test_proc_1''" and e = "sh_test_process_1 env", folded s1_def, simplified]
  have f1: "filled [1] 2 s1" using n1(1) by (simp add: numeral_2_eq_2)
  note n2 = ps_create_next [OF f1, where name = "''test_proc_2''" and e = "sh_test_process_2 env", folded s2_def, simplified]
  have out: "process_table s' = process_table s2" "current_process s' = current_process s2" "scheduler_enabled s' = scheduler_enabled s2"
    "sys s' q = sys s2 q" for q
    by (simp_all add: s'_def ps_create_command s2_def s1_def s0_def) (simp_all add: kputs_def)
  have s0: "scheduler_enabled s0 = scheduler_enabled s" "process_table s0 = process_table s" by (simp_all add: s0_def kputs_def)
  show "sys s' [1, 2]" "current_process s' = Some 0" "p_state (process_table s' 0) = PROCESS_STATE_RUNNING"
    using n2(1) by (simp_all add: out filled_def)
  show "p_quantum (process_table s' 0) = 1" "\<not> scheduler_enabled s'"
    using assms(1) by (simp_all add: out n2 n1 s0 only_idle_def)
  show "r_eip (p_registers (process_table s' 1)) = sh_test_process_1 env" "r_eip (p_registers (process_table s' 2)) = sh_test_process_2 env"
    "r_ss (p_registers (process_table s' 1)) = 0" "r_ds (p_registers (process_table s' 1)) = 0"
    using n1 n2 by (simp_all add: out)
qed

text \<open>Fact (functional): \<open>ps create\<close> after the boot makes the processes 1 and 2 with the entry points of the
  two test programs, and queues them in this order.\<close>

theorem ps_create_queues:
  assumes "only_idle s"
  shows "queue_rep (cmd_ps env (Some ''create'') s) [1, 2] \<and>
    (\<forall>i \<in> {1, 2}. p_state (process_table (cmd_ps env (Some ''create'') s) i) = PROCESS_STATE_READY) \<and>
    r_eip (p_registers (process_table (cmd_ps env (Some ''create'') s) 1)) = sh_test_process_1 env \<and>
    r_eip (p_registers (process_table (cmd_ps env (Some ''create'') s) 2)) = sh_test_process_2 env"
  using ps_create_result [OF assms, of env] by (simp add: sys_def ready_all_def)

lemma sched_start:
  assumes "\<not> scheduler_enabled s"
  shows "\<exists>c. cmd_sched (Some ''start'') s = returns (s\<lparr>scheduler_enabled := True, con := c\<rparr>)"
proof -
  obtain c where c: "say_lines ls (s\<lparr>scheduler_enabled := True, con := d\<rparr>) = s\<lparr>scheduler_enabled := True, con := c ls d\<rparr>" for ls d
  proof -
    have "\<exists>c. say_lines ls (s\<lparr>scheduler_enabled := True, con := d\<rparr>) = s\<lparr>scheduler_enabled := True, con := c\<rparr>" for ls d
      by (induction ls arbitrary: d) (auto simp: say_lines_def kputs_def kprintk_def)
    then show ?thesis using that by metis
  qed
  have swap: "s\<lparr>con := d, scheduler_enabled := True\<rparr> = s\<lparr>scheduler_enabled := True, con := d\<rparr>" for d by simp
  show ?thesis
    using assms by (simp add: cmd_sched_def skip_blanks_def Let_def scheduler_is_enabled_def scheduler_enable_def kinfo_def)
      (auto simp: c swap)
qed

text \<open>Two processes whose stack selector is null: the first tick faults.\<close>

lemma null_processes_fault:
  assumes "sys s [1, 2]" "current_process s = Some 0" "p_state (process_table s 0) = PROCESS_STATE_RUNNING"
    "p_quantum (process_table s 0) = 1" "scheduler_enabled s"
    "r_ss (p_registers (process_table s 1)) = 0" "r_ds (p_registers (process_table s 1)) = 0"
  shows "timer_handler s = Inl 13"
proof -
  have t: "round_robin (s\<lparr>system_ticks := system_ticks s + 1\<rparr>) (0 # 1 # [2])"
    using assms by (simp_all add: round_robin_def sys_def queue_rep_def)
  obtain u where u: "scheduler_tick (s\<lparr>system_ticks := system_ticks s + 1\<rparr>) = map_sum id (Pair True) (context_switch 0 1 u)"
    "p_registers (process_table u 1) = p_registers (process_table s 1)"
    using tick_expires [OF t(1)] assms(4) by auto
  have "context_switch 0 1 u = Inl 13" by (rule null_stack_faults) (use u(2) assms in simp_all)
  then show ?thesis by (simp add: timer_handler_def u(1))
qed

text \<open>Fact (error): the demonstration the shell offers fails: after \<open>ps create\<close> and \<open>sched start\<close> the first
  tick of the timer ends in a general protection fault, because the context of a created process has
  the null selector for its stack.\<close>

theorem demonstration_faults:
  assumes "only_idle s" "cmd_sched (Some ''start'') (cmd_ps env (Some ''create'') s) = Some (Inr (False, s'))"
  shows "timer_handler s' = Inl 13"
proof -
  define s1 where "s1 = cmd_ps env (Some ''create'') s"
  note r = ps_create_result [OF assms(1), of env, folded s1_def]
  obtain c where "s' = s1\<lparr>scheduler_enabled := True, con := c\<rparr>"
    using sched_start [OF r(5)] assms(2) by (auto simp: s1_def [symmetric] returns_def)
  then show ?thesis by (intro null_processes_fault) (use r in simp_all)
qed

text \<open>C27 (error): the command \<open>paging enable\<close> after the boot does not return: the processor faults on the
  next instruction of the kernel, whatever the three waits before it bring, if they leave the page
  directory's first word alone.\<close>

theorem paging_enable_faults:
  assumes idle: "\<And>log. bt_dev env log KB_STATUS_PORT AND KB_STAT_OUTPUT_FULL = 0"
    and b: "boot_subsystems env s = Some s'" "\<not> paging_enabled s'"
    and tick: "\<And>s. system_ticks (sh_hlt (bt_shell env) s) = system_ticks s + 1"
    and keep: "\<And>s. kernel_directory (sh_hlt (bt_shell env) s) = kernel_directory s"
      "\<And>s. read32 (mem (sh_hlt (bt_shell env) s)) 0x200000 = read32 (mem s) 0x200000"
    and code: "sh_cmd_paging (bt_shell env) < 0x400000"
  shows "shell_process_command (bt_shell env) ''paging enable'' s' = Some (Inl 14)"
proof -
  define Q where "Q = (\<lambda>s :: 'a shell_st_scheme. kernel_directory s = kdir \<and> read32 (mem s) 0x200000 = 0x1000)"
  have "tables_aliased (mem s') \<and> kernel_directory s' = kdir"
    using boot_subsystems_result [of env s, OF idle] b(1) by auto
  then have q: "Q s'" by (simp add: Q_def tables_aliased_def ready_for_def)
  have hlt: "Q (sh_hlt (bt_shell env) t)" if "Q t" for t using that keep by (simp add: Q_def)
  have w: "\<exists>u. timer_sleep_ms (sh_hlt (bt_shell env)) ms t = Some u \<and> Q u" if "Q t" for t ms
    using sleep_returns [OF tick, of ms t] sleep_keeps [of Q "sh_hlt (bt_shell env)", OF hlt _ that] by blast
  have out: "Q (t\<lparr>con := c\<rparr>) = Q t" "Q (kputs l t) = Q t" "Q (kprintk l a t) = Q t" "Q (kwarn l a t) = Q t" "Q (set_color x y t) = Q t"
    "Q (say_lines ls t) = Q t" for t c l a x y ls
    by (simp_all add: Q_def kputs_def kout_defs set_color_def say_lines_def fold_keeps [where P = mem] fold_keeps [where P = kernel_directory])
  have walk: "mmu_address (sh_cmd_paging (bt_shell env)) (paging_enable t) = None" if "Q t" for t
  proof -
    have u: "mem (paging_enable t) = mem t" "cr3 (paging_enable t) = kdir" "bit (cr0 (paging_enable t)) 31"
      using that by (simp_all add: Q_def paging_enable_def Let_def paging_load_directory_def paging_enable_hw_def kout_defs bit_simps)
    have "drop_bit 22 (sh_cmd_paging (bt_shell env)) = 0"
      using code by (simp add: unat_eq_0 [symmetric] unat_drop_bit32 word_less_nat_alt)
    then show ?thesis using u that by (simp add: mmu_address_def mmu_walk_def Q_def)
  qed
  have "paging_start (bt_shell env) s' = Some (Inl 14)"
  proof -
    define s1 where "s1 = kputs ([CHR 0x0A] @ ''Enabling paging in 3 seconds...'') (kwarn ''If you see this message after, paging works!'' []
      (say_lines [[CHR 0x0A] @ ''This will:'', ''  1. Load page directory into CR3'', ''  2. Set CR0.PG bit (enable paging)'',
        ''  3. Switch to virtual addressing'', ''''] (set_color VGA_COLOR_WHITE VGA_COLOR_BLACK (say_lines
          [box_rule, ''    ENABLING VIRTUAL MEMORY (PAGING)'', box_rule] (set_color VGA_COLOR_LIGHT_CYAN VGA_COLOR_BLACK
            (kprintk [CHR 0x0A] [] s'))))))"
    have "Q s1" using q by (simp add: s1_def out)
    then obtain s2 where s2: "timer_sleep_ms (sh_hlt (bt_shell env)) 3000 s1 = Some s2" "Q s2" using w by blast
    define s3 where "s3 = kputs ([CHR 0x0A] @ ''[1/2] Loading page directory...'') s2"
    have "Q s3" using s2(2) by (simp add: s3_def out)
    then obtain s4 where s4: "timer_sleep_ms (sh_hlt (bt_shell env)) 500 s3 = Some s4" "Q s4" using w by blast
    define s5 where "s5 = kputs ''[2/2] Setting CR0.PG bit...'' s4"
    have "Q s5" using s4(2) by (simp add: s5_def out)
    then obtain s6 where s6: "timer_sleep_ms (sh_hlt (bt_shell env)) 500 s5 = Some s6" "Q s6" using w by blast
    show ?thesis
      unfolding paging_start_def Let_def s1_def [symmetric] s2(1)
      using b(2) s4(1) s6(1) walk [OF s6(2)] by (simp add: s3_def s5_def)
  qed
  moreover have "shell_process_command (bt_shell env) ''paging enable'' s' = paging_start (bt_shell env) s'"
    by (simp add: shell_process_command_def skip_white_def Let_def is_command_def cmd_paging_def eval_nat_numeral)
  ultimately show ?thesis by simp
qed

section \<open>Witnesses\<close>

definition demo_env :: "shell_st boot_env" where
  "demo_env = \<lparr>bt_dev = (\<lambda>_ _. 0), bt_stub = of_nat, bt_syscall_wrapper = 0x101000, bt_kmain = 0x100000, bt_esp = 0x90000,
     bt_shell = \<lparr>sh_hlt = (\<lambda>s. s\<lparr>system_ticks := system_ticks s + 1\<rparr>), sh_code = demo_code, sh_test_process_1 = 0x103000,
       sh_test_process_2 = 0x103100, sh_cmd_paging = 0x104000,
       sh_junk = \<lparr>total_memory = 0, used_memory = 0, free_memory = 0, allocated_blocks = 0, free_blocks = 0\<rparr>\<rparr>\<rparr>"

lemma demo_facts:
  "bt_dev demo_env log KB_STATUS_PORT AND KB_STAT_OUTPUT_FULL = 0"
  "sh_hlt (bt_shell demo_env) s = s\<lparr>system_ticks := system_ticks s + 1\<rparr>" "sh_cmd_paging (bt_shell demo_env) = 0x104000"
  "\<not> stack_allocated boot_shell i" "length (input_buffer boot_shell) = 256" "\<not> paging_enabled boot_shell"
  by (simp_all add: demo_env_def boot_shell_def kbd_st.extend_def kbd_st.truncate_def boot_kbd_def sched_st.extend_def kbd_st.fields_def
      boot_sched_def desc_st.extend_def sched_st.fields_def boot_desc_def process_st.extend_def desc_st.fields_def boot_process_reach nul_def)

theorem boot_establishes_witness:
  "\<exists>s'. boot_subsystems demo_env boot_shell = Some s' \<and> int_target 3 0x80 s' = Some 0x101000 \<and> int_target 3 0x21 s' = None \<and>
    only_idle s'"
proof -
  have w: "bt_syscall_wrapper demo_env = 0x101000" by (simp add: demo_env_def)
  show ?thesis using boot_establishes [of demo_env boot_shell, OF demo_facts(1,4,5)] w by force
qed

theorem boot_reaches_shell_witness:
  "\<exists>s'. kmain 0 demo_env (nul 256) boot_shell = returns (shell_init s')"
  using boot_reaches_shell [of demo_env boot_shell 0 "nul 256", OF demo_facts(1)] by (auto simp: demo_facts(2))

lemma demo_reach: "\<exists>s. system_reach demo_env s"
proof -
  obtain s' where b: "boot_subsystems demo_env (boot_banner (bt_kmain demo_env) boot_shell) = Some s'"
    using boot_subsystems_result [of demo_env "boot_banner (bt_kmain demo_env) boot_shell", OF demo_facts(1)] by auto
  have "\<exists>n. timer_sleep_ms (sh_hlt (bt_shell demo_env)) 500 (boot_report s') = Some ((sh_hlt (bt_shell demo_env) ^^ n) (boot_report s'))"
    by (rule sleep_returns) (simp add: demo_facts)
  then obtain t where "boot demo_env boot_shell = Some t" using b by (auto simp: boot_def)
  then show ?thesis using reach_boot demo_facts(4) by blast
qed


lemma demo_idle: "\<exists>s. boot_subsystems demo_env boot_shell = Some s \<and> only_idle s"
  using boot_subsystems_result [of demo_env boot_shell, OF demo_facts(1)] subsystems_idle [of demo_env boot_shell, OF demo_facts(1) _ demo_facts(4)]
  by blast

theorem ps_create_queues_witness:
  "\<exists>s. boot_subsystems demo_env boot_shell = Some s \<and> queue_rep (cmd_ps (bt_shell demo_env) (Some ''create'') s) [1, 2]"
  using demo_idle ps_create_queues by blast

theorem demonstration_faults_witness:
  "\<exists>s s'. boot_subsystems demo_env boot_shell = Some s \<and>
     cmd_sched (Some ''start'') (cmd_ps (bt_shell demo_env) (Some ''create'') s) = Some (Inr (False, s')) \<and> timer_handler s' = Inl 13"
proof -
  obtain s where s: "boot_subsystems demo_env boot_shell = Some s" "only_idle s" using demo_idle by blast
  obtain s' where "cmd_sched (Some ''start'') (cmd_ps (bt_shell demo_env) (Some ''create'') s) = Some (Inr (False, s'))"
    using sched_start [OF ps_create_result(5) [OF s(2), of "bt_shell demo_env"]] by (auto simp: returns_def)
  with s demonstration_faults show ?thesis by blast
qed

lemma demo_paging:
  "\<exists>s. boot_subsystems demo_env boot_shell = Some s \<and> \<not> paging_enabled s"
proof -
  obtain s where s: "boot_subsystems demo_env boot_shell = Some s" "kbd_st.more s = kbd_st.more boot_shell"
    using boot_subsystems_result [of demo_env boot_shell, OF demo_facts(1)] by blast
  have "paging_enabled s = paging_enabled t" if "kbd_st.more s = kbd_st.more t" for t :: shell_st
    using that by (cases s; cases t) simp
  from s(1) this [OF s(2)] demo_facts(6) show ?thesis by blast
qed

theorem paging_enable_faults_witness:
  "\<exists>s. boot_subsystems demo_env boot_shell = Some s \<and> shell_process_command (bt_shell demo_env) ''paging enable'' s = Some (Inl 14)"
proof -
  obtain s where s: "boot_subsystems demo_env boot_shell = Some s" "\<not> paging_enabled s" using demo_paging by blast
  have "shell_process_command (bt_shell demo_env) ''paging enable'' s = Some (Inl 14)"
    by (rule paging_enable_faults [OF demo_facts(1) s]) (simp_all add: demo_facts)
  then show ?thesis using s by blast
qed

end
