(* ===== verification/Usermode_Demo.thy ===== *)
theory Usermode_Demo
  imports Boot_Theorems User_Programs
begin

text \<open>
  The user mode demonstration from the shell: \<open>usermode test\<close> (shell.c, usermode.c) followed by
  \<open>sched start\<close> and the first tick of the timer. \<open>proc_step\<close> is the frame of what creating and
  setting up a process may change; \<open>usermode_create_next\<close> is one of the two processes, \<open>two_frames\<close>
  that the second copy does not touch the first. The last property is the flaw of the address
  chosen for the programs: the user area of process 1 lies inside the kernel's heap.
\<close>

section \<open>What creation leaves alone\<close>

text \<open>\<open>proc_step s s'\<close>: only the console, the memory, the process table and the ready queue differ.\<close>

definition proc_step :: "'a sched_st_scheme \<Rightarrow> 'a sched_st_scheme \<Rightarrow> bool" where
  "proc_step s s' \<longleftrightarrow> (\<exists>c m t n a h l k. s' = s\<lparr>con := c, mem := m, process_table := t, next_pid := n, stack_allocated := a,
     ready_queue_head := h, ready_queue_tail := l, ready_queue_count := k\<rparr>)"

lemma proc_stepI:
  "s' = s\<lparr>con := c, mem := m, process_table := t, next_pid := n, stack_allocated := a,
     ready_queue_head := h, ready_queue_tail := l, ready_queue_count := k\<rparr> \<Longrightarrow> proc_step s s'"
  unfolding proc_step_def by blast

lemma proc_step_trans: "proc_step s t \<Longrightarrow> proc_step t u \<Longrightarrow> proc_step s u"
  unfolding proc_step_def by clarsimp blast

lemma proc_step_simps [simp]:
  "proc_step s s" "proc_step s (s\<lparr>con := c\<rparr>)" "proc_step s (s\<lparr>mem := m\<rparr>)" "proc_step s (s\<lparr>process_table := t\<rparr>)"
  "proc_step s (s\<lparr>next_pid := n\<rparr>)" "proc_step s (s\<lparr>stack_allocated := a\<rparr>)"
  "proc_step s (s\<lparr>ready_queue_head := h\<rparr>)" "proc_step s (s\<lparr>ready_queue_tail := l\<rparr>)" "proc_step s (s\<lparr>ready_queue_count := k\<rparr>)"
  by (rule proc_stepI [where c = "con s'" and m = "mem s'" and t = "process_table s'" and n = "next_pid s'" and a = "stack_allocated s'"
      and h = "ready_queue_head s'" and l = "ready_queue_tail s'" and k = "ready_queue_count s'" and s' = s' for s'], simp)+

lemma proc_step_fields:
  assumes "proc_step s s'"
  shows "cpu s' = cpu s" "process_stacks_at s' = process_stacks_at s" "scheduler_enabled s' = scheduler_enabled s"
    "quantum_ticks s' = quantum_ticks s" "current_process s' = current_process s" "idt s' = idt s"
  using assms by (auto simp: proc_step_def)

lemma proc_step_then [simp]:
  assumes "proc_step s t"
  shows "proc_step s (kprintk f g t)" "proc_step s (kputs line t)" "proc_step s (kerror f g t)" "proc_step s (t\<lparr>con := c\<rparr>)"
    "proc_step s (upd_process i p t)" "proc_step s (t\<lparr>next_pid := n\<rparr>)" "proc_step s (t\<lparr>stack_allocated := a\<rparr>)"
    "proc_step s (t\<lparr>mem := m\<rparr>)" "proc_step s (t\<lparr>ready_queue_head := h\<rparr>)" "proc_step s (t\<lparr>ready_queue_tail := l\<rparr>)"
    "proc_step s (t\<lparr>ready_queue_count := k\<rparr>)" "proc_step s (set_color x y t)"
  by (rule proc_step_trans [OF assms], simp add: kout_defs kputs_def upd_process_def set_color_def)+

lemma proc_step_lines [simp]: "proc_step s t \<Longrightarrow> proc_step s (say_lines ls t)"
  by (induction ls arbitrary: t) (simp_all add: say_lines_def)

lemma proc_step_child [simp]: "proc_step s t \<Longrightarrow> proc_step s (add_child i c t)"
  by (simp add: add_child_def)

lemma proc_step_create [simp]:
  assumes "proc_step s t"
  shows "proc_step s (snd (process_create name e pr t))"
proof -
  have parts: "proc_step s (create_pcb name pr p u)" "proc_step s (create_context e p u)" "proc_step s (process_free_pid p u)"
    if "proc_step s u" for p u
    using that by (simp_all add: create_pcb_def create_context_def process_free_pid_def Let_def split: option.split)
  obtain p u where u: "process_allocate_pid t = (p, u)" by (cases "process_allocate_pid t")
  then have "proc_step s u" using assms by (auto simp: process_allocate_pid_def Let_def split: option.splits)
  then show ?thesis by (simp add: process_create_def u parts Let_def split: option.split)
qed

lemma proc_step_setup [simp]: "proc_step s t \<Longrightarrow> proc_step s (process_setup_user_mode code p e t)"
  by (simp add: process_setup_user_mode_def copy_to_user_memory_def Let_def split: option.split)

lemma proc_step_add [simp]: "proc_step s t \<Longrightarrow> proc_step s (scheduler_add_process p t)"
  by (simp add: scheduler_add_process_def Let_def split: option.split)

lemma create_mem: "mem (snd (process_create name e pr s)) = mem s"
proof -
  have u: "mem (upd_process i p t) = mem t" "mem (kprintk f g t) = mem t" "mem (kerror f g t) = mem t" for i p f g and t :: "'a process_st_scheme"
    by (simp_all add: upd_process_def kout_defs)
  have parts: "mem (create_pcb name pr p t) = mem t" "mem (create_context e p t) = mem t" "mem (process_free_pid p t) = mem t"
    "mem (add_child i c t) = mem t" for p i c and t :: "'a process_st_scheme"
    by (simp_all add: create_pcb_def create_context_def process_free_pid_def add_child_def u Let_def split: option.split)
  obtain p t where t: "process_allocate_pid s = (p, t)" by (cases "process_allocate_pid s")
  then have "mem t = mem s" by (auto simp: process_allocate_pid_def Let_def split: option.splits)
  then show ?thesis by (simp add: process_create_def t parts u Let_def split: option.split)
qed

section \<open>The two user processes\<close>

text \<open>Where the code copies the program of slot \<open>i\<close> to, and the end of its kernel stack.\<close>

definition user_base :: "nat \<Rightarrow> u32" where "user_base i = 0x00400000 + of_nat i * 0x100000"

definition stack_end :: "nat \<Rightarrow> 'a process_st_scheme \<Rightarrow> u32" where
  "stack_end i s = process_stacks_at s + of_nat i * 4096 + 4096"

lemma setup_next: "next_pid (process_setup_user_mode code p e s) = next_pid s"
  "stack_allocated (process_setup_user_mode code p e s) = stack_allocated s"
  by (simp_all add: process_setup_user_mode_def copy_to_user_memory_def Let_def split: option.split)

lemma setup_other: "j \<noteq> i \<Longrightarrow> process_table (process_setup_user_mode code (Some i) e s) j = process_table s j"
  by (simp add: process_setup_user_mode_def copy_to_user_memory_def Let_def split: option.split)

lemma create_next:
  assumes f: "filled q i s" and i: "i < 255"
  obtains s1 where "process_create name e pr s = (Some i, s1)" "sys s1 q" "proc_step s s1" "mem s1 = mem s"
    "process_table s1 = (process_table s)(0 := with_child (Some i) (process_table s 0), i := fresh_pcb name e pr i s)"
    "next_pid s1 = of_nat i + 1" "stack_allocated s1 = (stack_allocated s)(i := True)"
proof -
  have s: "sys s q" "current_process s = Some 0" "unat (next_pid s) = i" "slot_free s i" "\<not> stack_allocated s i"
    using f i by (simp_all add: filled_def)
  have al: "process_allocate_pid s = (of_nat i, s\<lparr>next_pid := of_nat i + 1\<rparr>)" by (rule allocate_next) (use s i in simp_all)
  have i': "i < 256" using i by simp
  obtain r s1 where c: "process_create name e pr s = (r, s1)" by (meson surj_pair)
  note p = process_create_slot [OF al i', of name e pr, unfolded c fst_conv snd_conv]
  have r: "r = Some i" using p(1) s(5) by simp
  have "proc_step s s1" "mem s1 = mem s" using proc_step_create [of s s name e pr] create_mem [of name e pr s] c by simp_all
  with that [OF c [unfolded r] sys_create(1) [OF s(1) c]] p s(2,5) show ?thesis by simp
qed

lemma enqueue_filled:
  assumes f: "filled q i s" "i < 255" and c: "process_create name e pr s = (Some i, s1)"
    and t: "sys t q" "proc_step s1 t" "\<And>j. p_state (process_table t j) = p_state (process_table s1 j)"
      "next_pid t = next_pid s1" "stack_allocated t = stack_allocated s1"
  shows "filled (q @ [i]) (i + 1) (scheduler_add_process (Some i) t)"
proof -
  have s: "sys s q" "current_process s = Some 0" "p_state (process_table s 0) \<noteq> PROCESS_STATE_READY" "1 \<le> i"
    using f by (simp_all add: filled_def)
  obtain s1' where n: "process_create name e pr s = (Some i, s1')" "proc_step s s1'" "next_pid s1' = of_nat i + 1"
    "process_table s1' = (process_table s)(0 := with_child (Some i) (process_table s 0), i := fresh_pcb name e pr i s)"
    "stack_allocated s1' = (stack_allocated s)(i := True)" by (rule create_next [OF f])
  have e: "s1' = s1" using n(1) c by simp
  have cur: "current_process t = current_process s1" using proc_step_fields(5) [OF t(2)] .
  have np: "unat (of_nat i + 1 :: u32) = i + 1" using f(2) by (simp add: unat_plus_no_wrap)
  have st: "p_state (process_table s1 j) = p_state (process_table s j)" if "j \<noteq> i" for j
    using that n(4) e by auto
  show ?thesis
    using enqueue_new(1) [OF c s(1,2,3) t(1) cur t(3)] f(1) s(4) st proc_step_fields(5) [OF n(2)] n(3,5) np
    by (simp add: filled_def cur t add_frame slot_free_def add_state_other e)
qed

lemma usermode_create_next:
  fixes name :: string and e :: u32
  assumes f: "filled q i s" and i: "i < 255" and prog: "user_program code e = Some (a, b)"
  defines "s' \<equiv> usermode_create_one code name e s"
  shows "filled (q @ [i]) (i + 1) s'" "proc_step s s'"
    "mem s' = iret_frame (stack_end i s) (user_base i) (user_base i + 0x84000) (copy_loop (unat (b - a)) (user_base i) a 0 (mem s))"
    "r_esp (p_registers (process_table s' i)) = stack_end i s - 20" "r_ds (p_registers (process_table s' i)) = 0x23"
    "j \<noteq> i \<Longrightarrow> p_registers (process_table s' j) = p_registers (process_table s j)"
    "p_quantum (process_table s' 0) = p_quantum (process_table s 0)"
proof -
  obtain s1 where c: "process_create (Some name) 0 PROCESS_PRIORITY_NORMAL s = (Some i, s1)" "sys s1 q" "proc_step s s1" "mem s1 = mem s"
    "process_table s1 = (process_table s)(0 := with_child (Some i) (process_table s 0), i := fresh_pcb (Some name) 0 PROCESS_PRIORITY_NORMAL i s)"
    by (rule create_next [OF f i])
  define s2 where "s2 = process_setup_user_mode code (Some i) e s1"
  have i0: "i \<noteq> 0" using f by (simp add: filled_def)
  have pc: "p_pid (process_table s1 i) = of_nat i" "p_kernel_stack (process_table s1 i) + 4096 = stack_end i s"
    by (simp_all add: c(5) fresh_pcb_def Let_def stack_end_def)
  note u = setup_user_mode [OF prog, where s = s1 and i = i, folded s2_def, unfolded pc, folded user_base_def]
  have s2: "sys s2 q" "proc_step s1 s2" "p_state (process_table s2 j) = p_state (process_table s1 j)"
    "next_pid s2 = next_pid s1" "stack_allocated s2 = stack_allocated s1" for j
    using sys_setup [OF c(2), of code i e] by (simp_all add: s2_def setup_next)
  have s': "\<exists>f d. s' = kprintk f d (scheduler_add_process (Some i) s2)"
    by (simp add: s'_def usermode_create_one_def c(1) Let_def s2_def) blast
  show "filled (q @ [i]) (i + 1) s'" using enqueue_filled [OF f i c(1) s2] s' by auto
  have "proc_step s s2" by (rule proc_step_trans [OF c(3) s2(2)])
  then show "proc_step s s'" using s' by auto
  have tab: "mem s' = mem s2" "p_registers (process_table s' j) = p_registers (process_table s2 j)"
    "p_quantum (process_table s' j) = p_quantum (process_table s2 j)" for j
    using s' by (auto simp: kprintk_def)
  have other: "j \<noteq> i \<Longrightarrow> process_table s2 j = process_table s1 j" for j by (simp add: s2_def setup_other)
  show "mem s' = iret_frame (stack_end i s) (user_base i) (user_base i + 0x84000) (copy_loop (unat (b - a)) (user_base i) a 0 (mem s))"
    "r_esp (p_registers (process_table s' i)) = stack_end i s - 20" "r_ds (p_registers (process_table s' i)) = 0x23"
    by (simp_all add: tab u c(4))
  show "j \<noteq> i \<Longrightarrow> p_registers (process_table s' j) = p_registers (process_table s j)"
    "p_quantum (process_table s' 0) = p_quantum (process_table s 0)"
    using i0 by (simp_all add: tab other c(5))
qed

section \<open>Entering ring 3\<close>

lemma enter_user:
  fixes t :: "'a desc_st_scheme"
  assumes regs: "r_esp (p_registers (process_table t i)) = k - 20" "r_ds (p_registers (process_table t i)) = 0x23"
    and old: "old \<noteq> i" and free: "apart 20 (k - 20) 4 (r_esp (cpu t) - 4)"
    and words: "read32 (mem t) (k - 20) = eip" "read32 (mem t) (k - 16) = 0x1B" "read32 (mem t) (k - 12) = fl"
      "read32 (mem t) (k - 8) = esp" "read32 (mem t) (k - 4) = 0x23"
  shows "\<exists>u x. context_switch old i t = Inr u \<and> cpu_cs u = 0x1B \<and> r_eip (cpu u) = eip \<and> r_esp (cpu u) = esp \<and>
    r_eflags (cpu u) = fl \<and> idt u = idt t \<and> kernel_tss u = kernel_tss t \<and> mem u = write32 (mem t) (r_esp (cpu t) - 4) x"
proof -
  define v where "v = save_context old i t"
  obtain x where m: "mem v = write32 (mem t) (r_esp (cpu t) - 4) x"
    by (simp add: v_def save_context_def Let_def upd_process_def)
  have w: "read32 (mem v) (k - 20 + o') = read32 (mem t) (k - 20 + o')" if "unat o' + 4 \<le> 20" for o'
    using apart_part [OF free that] by (simp add: m)
  have words': "read32 (mem v) (k - 20) = eip" "read32 (mem v) (k - 20 + 4) = 0x1B" "read32 (mem v) (k - 20 + 8) = fl"
    "read32 (mem v) (k - 20 + 12) = esp" "read32 (mem v) (k - 20 + 16) = 0x23"
    using w [of 0] w [of 4] w [of 8] w [of 12] w [of 16] words by simp_all
  have "process_table v i = process_table t i" using save_other [OF old, of t] by (simp add: v_def)
  moreover have "idt v = idt t" "kernel_tss v = kernel_tss t" by (simp_all add: v_def save_context_def Let_def upd_process_def)
  ultimately show ?thesis
    using words' regs by (simp add: context_switch_def load_context_def Let_def v_def [symmetric] m [symmetric]) (metis m)
qed

text \<open>A layout of the image: the programs end below the first user area, and so do the stacks of the two
  processes; the current stack is outside of them.\<close>

definition user_layout :: "user_code \<Rightarrow> 'a desc_st_scheme \<Rightarrow> bool" where
  "user_layout code s \<longleftrightarrow>
     user_mode_test_1 code \<noteq> 0 \<and> user_mode_test_2 code \<noteq> 0 \<and> user_mode_test_1 code \<noteq> user_mode_test_2 code \<and>
     unat (user_mode_test_1_asm code) \<le> unat (user_mode_test_2_asm code) \<and>
     unat (user_mode_test_2_asm code) \<le> unat (user_mode_test_2_asm_end code) \<and>
     unat (user_mode_test_2_asm_end code) \<le> unat (user_mode_test_1_asm code) + 0x80000 \<and>
     unat (user_mode_test_2_asm_end code) \<le> 0x500000 \<and> unat (process_stacks_at s) + 0x3000 \<le> 0x500000 \<and>
     4 \<le> unat (r_esp (cpu s)) \<and> unat (r_esp (cpu s)) \<le> 0x500000 \<and>
     (unat (r_esp (cpu s)) \<le> unat (process_stacks_at s) + 0x1000 \<or> unat (process_stacks_at s) + 0x2004 \<le> unat (r_esp (cpu s)))"

text \<open>The two copies and frames: what the first left is not touched by the second.\<close>

lemma two_frames:
  fixes m0 :: bytemem
  assumes lay: "user_layout code s"
  defines "a \<equiv> user_mode_test_1_asm code" and "b \<equiv> user_mode_test_2_asm code" and "e \<equiv> user_mode_test_2_asm_end code"
    and "k \<equiv> stack_end 1 s" and "k2 \<equiv> stack_end 2 s"
  defines "m1 \<equiv> iret_frame k 0x500000 0x584000 (copy_loop (unat (b - a)) 0x500000 a 0 m0)"
  defines "m2 \<equiv> iret_frame k2 0x600000 0x684000 (copy_loop (unat (e - b)) 0x600000 b 0 m1)"
  shows "j < unat (b - a) \<Longrightarrow> m2 (0x500000 + of_nat j) = m0 (a + of_nat j)"
    "read32 m2 (k - 20) = 0x500000" "read32 m2 (k - 16) = 0x1B" "read32 m2 (k - 12) = 0x202"
    "read32 m2 (k - 8) = 0x584000" "read32 m2 (k - 4) = 0x23"
proof -
  define sa where "sa = unat (process_stacks_at s)"
  have l: "unat a \<le> unat b" "unat b \<le> unat e" "unat e \<le> unat a + 0x80000" "unat e \<le> 0x500000" "sa + 0x3000 \<le> 0x500000"
    using lay by (simp_all add: user_layout_def a_def b_def e_def sa_def)
  have "unat (process_stacks_at s + of_nat 0x2000) = sa + 0x2000" "unat (process_stacks_at s + of_nat 0x3000) = sa + 0x3000"
    unfolding sa_def by (rule unat_offset; use l(5) in \<open>simp add: sa_def\<close>)+
  then have k: "unat k = sa + 0x2000" "unat k2 = sa + 0x3000" by (simp_all add: k_def k2_def stack_end_def add.commute)
  then have k20: "unat (k - 20) = sa + 0x2000 - 20" "unat (k2 - 20) = sa + 0x3000 - 20"
    by (simp_all add: unat_sub word_le_nat_alt)
  have n: "unat (b - a) = unat b - unat a" "unat (e - b) = unat e - unat b" using l by (simp_all add: unat_sub word_le_nat_alt)
  have ap: "apart (unat (b - a)) 0x500000 (unat (b - a)) a" "apart (unat (e - b)) 0x600000 (unat (e - b)) b"
    "apart (unat (b - a)) 0x500000 20 (k - 20)" "apart (unat (b - a)) 0x500000 20 (k2 - 20)"
    "apart (unat (e - b)) 0x600000 (unat (b - a)) 0x500000" "apart (unat (e - b)) 0x600000 20 (k - 20)"
    "apart 20 (k - 20) 20 (k2 - 20)"
    using l by (auto simp: apart_def n k20)
  have kk: "20 \<le> unat k" "20 \<le> unat k2" by (simp_all add: k)
  have second: "m2 (x + of_nat j) = m1 (x + of_nat j)"
    if "apart h x 20 (k2 - 20)" "apart (unat (e - b)) 0x600000 h x" "j < h" for x h j
    unfolding m2_def using iret_frame_outside [OF kk(2) that(1,3)] copy_apart(2) [OF ap(2) unat_lt32 that(2,3)] by simp
  show "m2 (0x500000 + of_nat j) = m0 (a + of_nat j)" if "j < unat (b - a)"
    unfolding second [OF ap(4,5) that] unfolding m1_def
    using iret_frame_outside [OF kk(1) ap(3) that] copy_apart(1) [OF ap(1) unat_lt32 that] by simp
  have "read32 m2 (k - 20 + of_nat o') = read32 m1 (k - 20 + of_nat o')" if "o' + 4 \<le> 20" for o' :: nat
  proof (rule read32_cong)
    fix j :: nat assume "j < 4"
    then show "m2 (k - 20 + of_nat o' + of_nat j) = m1 (k - 20 + of_nat o' + of_nat j)"
      using second [OF ap(7,6), of "o' + j"] that by (simp add: add.assoc)
  qed
  from this [of 0] this [of 4] this [of 8] this [of 12] this [of 16]
  show "read32 m2 (k - 20) = 0x500000" "read32 m2 (k - 16) = 0x1B" "read32 m2 (k - 12) = 0x202"
    "read32 m2 (k - 8) = 0x584000" "read32 m2 (k - 4) = 0x23"
    using iret_frame_words [OF kk(1), where v = "0x500000" and w = "0x584000"] by (simp_all add: m1_def)
qed

lemma usermode_test_command:
  "\<exists>c d. cmd_usermode env (Some ''test'') s =
     (usermode_create_one (sh_code env) ''user_test_2'' (user_mode_test_2 (sh_code env))
       (usermode_create_one (sh_code env) ''user_test_1'' (user_mode_test_1 (sh_code env)) (s\<lparr>con := c\<rparr>)))
     \<lparr>con := d\<rparr>"
proof -
  have o: "\<exists>c. say_lines ls t = t\<lparr>con := c\<rparr>" for ls and t :: "'a sched_st_scheme"
  proof (induction ls arbitrary: t)
    case Nil
    show ?case by (intro exI [of _ "con t"]) (simp add: say_lines_def)
  next
    case (Cons l ls)
    then obtain c where "say_lines ls (kputs l t) = (kputs l t)\<lparr>con := c\<rparr>" by blast
    then show ?case by (simp add: say_lines_def) (auto simp: kputs_def kprintk_def)
  qed
  then obtain f where f: "say_lines ls t = t\<lparr>con := f ls t\<rparr>" for ls and t :: "'a sched_st_scheme" by metis
  have "cmd_usermode env (Some ''test'') s = usermode_create (sh_code env) s"
    by (simp add: cmd_usermode_def skip_blanks_def)
  then show ?thesis
    unfolding usermode_create_def Let_def f by (simp add: set_color_def kprintk_def) blast
qed

lemma usermode_test_result:
  assumes s: "only_idle s" and lay: "user_layout (sh_code env) s"
  defines "s' \<equiv> cmd_usermode env (Some ''test'') s" and "k \<equiv> stack_end 1 s"
    and "n \<equiv> unat (user_mode_test_2_asm (sh_code env) - user_mode_test_1_asm (sh_code env))"
  shows "sys s' [1, 2]" "current_process s' = Some 0" "p_state (process_table s' 0) = PROCESS_STATE_RUNNING"
    "p_quantum (process_table s' 0) = 1" "\<not> scheduler_enabled s'" "cpu s' = cpu s"
    "r_esp (p_registers (process_table s' 1)) = k - 20" "r_ds (p_registers (process_table s' 1)) = 0x23"
    "\<And>j. j < n \<Longrightarrow> mem s' (0x500000 + of_nat j) = mem s (user_mode_test_1_asm (sh_code env) + of_nat j)"
    "read32 (mem s') (k - 20) = 0x500000" "read32 (mem s') (k - 16) = 0x1B" "read32 (mem s') (k - 12) = 0x202"
    "read32 (mem s') (k - 8) = 0x584000" "read32 (mem s') (k - 4) = 0x23"
    "idt s' = idt s" "process_stacks_at s' = process_stacks_at s"
proof -
  define code where "code = sh_code env"
  obtain c d where c: "s' = (usermode_create_one code ''user_test_2'' (user_mode_test_2 code)
       (usermode_create_one code ''user_test_1'' (user_mode_test_1 code) (s\<lparr>con := c\<rparr>)))\<lparr>con := d\<rparr>"
    using usermode_test_command [of env s] by (auto simp: s'_def code_def)
  define s0 where "s0 = s\<lparr>con := c\<rparr>"
  define s1 where "s1 = usermode_create_one code ''user_test_1'' (user_mode_test_1 code) s0"
  define s2 where "s2 = usermode_create_one code ''user_test_2'' (user_mode_test_2 code) s1"
  have f0: "filled [] 1 s0" using only_idle_filled [of s0] s by (simp add: s0_def)
  have pr: "user_program code (user_mode_test_1 code) = Some (user_mode_test_1_asm code, user_mode_test_2_asm code)"
    "user_program code (user_mode_test_2 code) = Some (user_mode_test_2_asm code, user_mode_test_2_asm_end code)"
    using lay by (auto simp: user_layout_def user_program_def code_def)
  note n1 = usermode_create_next [OF f0 _ pr(1), where name = "''user_test_1''", folded s1_def, simplified]
  have f1: "filled [1] 2 s1" using n1(1) by (simp add: numeral_2_eq_2)
  note n2 = usermode_create_next [OF f1 _ pr(2), where name = "''user_test_2''", folded s2_def, simplified]
  have st: "proc_step s0 s2" by (rule proc_step_trans [OF n1(2) n2(2)])
  have k: "stack_end 1 s0 = k" "stack_end 2 s1 = stack_end 2 s"
    using proc_step_fields(2) [OF n1(2)] by (simp_all add: stack_end_def k_def s0_def)
  have out: "process_table s' = process_table s2" "current_process s' = current_process s2" "scheduler_enabled s' = scheduler_enabled s2"
    "cpu s' = cpu s2" "mem s' = mem s2" "idt s' = idt s2" "process_stacks_at s' = process_stacks_at s2" "sys s' q = sys s2 q" for q
    unfolding c [folded s0_def, folded s1_def, folded s2_def] by simp_all
  show "sys s' [1, 2]" "current_process s' = Some 0" "p_state (process_table s' 0) = PROCESS_STATE_RUNNING"
    using n2(1) by (simp_all add: out filled_def)
  show "p_quantum (process_table s' 0) = 1" "\<not> scheduler_enabled s'" "cpu s' = cpu s"
    "idt s' = idt s" "process_stacks_at s' = process_stacks_at s"
    using s proc_step_fields(1,2,3,6) [OF st] n1(7) n2(7) by (simp_all add: out only_idle_def s0_def)
  show "r_esp (p_registers (process_table s' 1)) = k - 20" "r_ds (p_registers (process_table s' 1)) = 0x23"
    using n1(4,5) n2(6) k by (simp_all add: out)
  have base: "user_base 1 = 0x500000" "user_base 2 = 0x600000" by (simp_all add: user_base_def)
  note fr = two_frames [OF lay, where ?m0.0 = "mem s0", folded code_def, folded k_def]
  have m: "mem s' = iret_frame (stack_end 2 s) 0x600000 0x684000 (copy_loop (unat (user_mode_test_2_asm_end code - user_mode_test_2_asm code)) 0x600000
      (user_mode_test_2_asm code) 0 (iret_frame k 0x500000 0x584000 (copy_loop (unat (user_mode_test_2_asm code - user_mode_test_1_asm code)) 0x500000
      (user_mode_test_1_asm code) 0 (mem s0))))"
    using n1(3) n2(3) k base by (simp add: out)
  show "read32 (mem s') (k - 20) = 0x500000" "read32 (mem s') (k - 16) = 0x1B" "read32 (mem s') (k - 12) = 0x202"
    "read32 (mem s') (k - 8) = 0x584000" "read32 (mem s') (k - 4) = 0x23"
    unfolding m by (rule fr)+
  show "\<And>j. j < n \<Longrightarrow> mem s' (0x500000 + of_nat j) = mem s (user_mode_test_1_asm (sh_code env) + of_nat j)"
    unfolding m n_def using fr(1) by (simp add: code_def s0_def)
qed

lemma first_user_tick:
  fixes s :: "'a shell_st_scheme"
  assumes s: "only_idle s" and lay: "user_layout (sh_code env) s"
    and st: "cmd_sched (Some ''start'') (cmd_usermode env (Some ''test'') s) = Some (Inr (False, s'))"
  shows "\<exists>u. timer_handler s' = Inr (True, u) \<and> current_process u = Some 1 \<and> cpu_cs u = 0x1B \<and>
    r_eip (cpu u) = 0x500000 \<and> r_esp (cpu u) = 0x584000 \<and> r_eflags (cpu u) = 0x202 \<and>
    (\<forall>j < unat (user_mode_test_2_asm (sh_code env) - user_mode_test_1_asm (sh_code env)).
       mem u (0x500000 + of_nat j) = mem s (user_mode_test_1_asm (sh_code env) + of_nat j)) \<and>
    idt u = idt s \<and> esp0 (kernel_tss u) = stack_end 1 s"
proof -
  define s1 where "s1 = cmd_usermode env (Some ''test'') s"
  define k where "k = stack_end 1 s"
  note r = usermode_test_result [OF s lay, folded s1_def k_def]
  obtain c where s': "s' = s1\<lparr>scheduler_enabled := True, con := c\<rparr>"
    using sched_start [OF r(5)] st by (auto simp: s1_def [symmetric] returns_def)
  define v where "v = s'\<lparr>system_ticks := system_ticks s' + 1\<rparr>"
  have "round_robin v (0 # 1 # [2])" "p_quantum (process_table v 0) \<le> 1"
    using r(1-4) by (simp_all add: v_def s' round_robin_def sys_def queue_rep_def)
  from tick_expires [OF this] obtain t where t: "scheduler_tick v = map_sum id (Pair True) (context_switch 0 1 t)"
    "round_robin t (1 # [2] @ [0])" "\<And>j. p_registers (process_table t j) = p_registers (process_table v j)" "mem t = mem v" "cpu t = cpu v" "idt t = idt v"
    "esp0 (kernel_tss t) = p_kernel_stack (process_table v 1) + 4096"
    by blast
  have sa: "unat (process_stacks_at s) + 0x3000 \<le> 0x500000" "4 \<le> unat (r_esp (cpu s))" "unat (r_esp (cpu s)) \<le> 0x500000"
    "unat (r_esp (cpu s)) \<le> unat (process_stacks_at s) + 0x1000 \<or> unat (process_stacks_at s) + 0x2004 \<le> unat (r_esp (cpu s))"
    "unat (user_mode_test_2_asm (sh_code env) - user_mode_test_1_asm (sh_code env)) \<le> 0x80000"
    using lay by (auto simp: user_layout_def unat_sub word_le_nat_alt)
  have "unat (process_stacks_at s + of_nat 0x2000) = unat (process_stacks_at s) + 0x2000" by (rule unat_offset) (use sa(1) in simp)
  then have "unat k = unat (process_stacks_at s) + 0x2000" by (simp add: k_def stack_end_def add.commute)
  then have k20: "unat (k - 20) = unat (process_stacks_at s) + 0x2000 - 20" by (simp add: unat_sub word_le_nat_alt)
  have e4: "unat (r_esp (cpu s) - 4) = unat (r_esp (cpu s)) - 4" using sa(2) by (simp add: unat_sub word_le_nat_alt)
  have free: "apart 20 (k - 20) 4 (r_esp (cpu s) - 4)"
    using sa by (auto simp: apart_def k20 e4)
  obtain u x where u: "context_switch 0 1 t = Inr u" "cpu_cs u = 0x1B" "r_eip (cpu u) = 0x500000" "r_esp (cpu u) = 0x584000"
    "r_eflags (cpu u) = 0x202" "idt u = idt t" "kernel_tss u = kernel_tss t"
    "mem u = write32 (mem t) (r_esp (cpu t) - 4) x"
    using enter_user [of t 1 k 0 "0x500000" "0x202" "0x584000"] r(6-8,10-14) free t(3-5) by (auto simp: v_def s')
  have "current_process u = Some 1"
    using same_schedD(2) [OF context_switch_same(1) [OF u(1)]] t(2) by (simp add: round_robin_def)
  moreover have "mem u (0x500000 + of_nat j) = mem s (user_mode_test_1_asm (sh_code env) + of_nat j)"
    if "j < unat (user_mode_test_2_asm (sh_code env) - user_mode_test_1_asm (sh_code env))" for j
  proof -
    have "apart 0x80000 0x500000 4 (r_esp (cpu s) - 4)" using sa by (auto simp: apart_def e4)
    from apart_neq [OF this, of j] that sa(5) have "0x500000 + of_nat j \<noteq> r_esp (cpu s) - 4 + of_nat h" if "h < 4" for h
      using that by simp
    then have "mem u (0x500000 + of_nat j) = mem s1 (0x500000 + of_nat j)"
      using write32_outside [of "0x500000 + of_nat j" "r_esp (cpu s) - 4" "mem s1" x] r(6) by (simp add: u(8) t(4,5) v_def s')
    then show ?thesis using r(9) [OF that] by simp
  qed
  moreover have "idt u = idt s" using u(6) t(6) r(15) by (simp add: v_def s')
  moreover have "esp0 (kernel_tss u) = stack_end 1 s"
  proof -
    have "process_wf s1" "\<not> slot_free s1 1"
      using r(1) by (simp_all add: sys_def ready_all_def slot_free_def)
    then have "p_kernel_stack (process_table s1 1) = process_stacks_at s1 + of_nat 1 * 4096" by (simp add: process_wf_def)
    then show ?thesis using u(7) t(7) r(16) by (simp add: v_def s' stack_end_def)
  qed
  moreover have "timer_handler s' = Inr (True, u)" using t(1) u(1) by (simp add: timer_handler_def v_def)
  ultimately show ?thesis using u by blast
qed

section \<open>Properties\<close>

text \<open>C19 (functional, liveness): the user mode demonstration works where the image is laid out as \<open>user_layout\<close> says:
  after \<open>usermode test\<close> and \<open>sched start\<close> the first tick of the timer enters ring 3 at the copy of the first
  program, on its own stack, with interrupts on.\<close>

theorem usermode_demonstration:
  fixes s :: "'a shell_st_scheme"
  assumes s: "only_idle s" and lay: "user_layout (sh_code env) s"
    and st: "cmd_sched (Some ''start'') (cmd_usermode env (Some ''test'') s) = Some (Inr (False, s'))"
  shows "\<exists>u. timer_handler s' = Inr (True, u) \<and> current_process u = Some 1 \<and> cpu_cs u = 0x1B \<and>
    r_eip (cpu u) = 0x500000 \<and> r_esp (cpu u) = 0x584000 \<and> r_eflags (cpu u) = 0x202 \<and>
    (\<forall>j < unat (user_mode_test_2_asm (sh_code env) - user_mode_test_1_asm (sh_code env)).
       mem u (0x500000 + of_nat j) = mem s (user_mode_test_1_asm (sh_code env) + of_nat j))"
  using first_user_tick [OF assms] by blast

text \<open>C20 (error): but the programs do nothing there. Once entered, the first one complains on the screen once for its message
  and once for every round of its loop, in which it is after any number of rounds: it neither prints nor exits. Nor is the tick that
  entered it ever acknowledged to the interrupt controller, which holds back every further interrupt until then.\<close>

theorem demonstration_never_ends:
  fixes s :: "'a shell_st_scheme"
  assumes s: "only_idle s" and lay: "user_layout (sh_code env) s" and gate: "int_target 3 0x80 s = Some w"
    and st: "cmd_sched (Some ''start'') (cmd_usermode env (Some ''test'') s) = Some (Inr (False, s'))"
  shows "\<exists>u. timer_handler s' = Inr (True, u) \<and> current_process u = Some 1 \<and> r_eip (cpu u) = 0x500000 \<and>
    (\<forall>n. \<exists>v. user_test w 0x20317373 n u = Some (Inr (False, v)) \<and> user_test_more v \<and> current_process v = Some 1 \<and>
       con v = (complaint u ^^ Suc n) (con u) \<and> io_log v = io_log s')"
proof -
  obtain u where u: "timer_handler s' = Inr (True, u)" "current_process u = Some 1" "r_eip (cpu u) = 0x500000" "cpu_cs u = 0x1B"
    "idt u = idt s" "esp0 (kernel_tss u) = stack_end 1 s"
    using first_user_tick [OF s lay st] by blast
  have sa: "unat (process_stacks_at s) + 0x3000 \<le> 0x500000" using lay by (simp add: user_layout_def)
  have "unat (process_stacks_at s + of_nat 0x2000) = unat (process_stacks_at s) + 0x2000" by (rule unat_offset) (use sa in simp)
  then have "unat (stack_end 1 s) = unat (process_stacks_at s) + 0x2000" by (simp add: stack_end_def add.commute)
  moreover have "int_target 3 0x80 u = Some w" using int_target_idt [OF u(5)] gate by simp
  ultimately have "user_ready w u" using u(4,6) by (simp add: user_ready_def)
  moreover have "io_log u = io_log s'"
    using u(1) io_log_tick [of "s'\<lparr>system_ticks := system_ticks s' + 1\<rparr>" True u] by (auto simp: timer_handler_def split: sum.splits bool.splits)
  ultimately show ?thesis using user_test_stays [of w u "0x20317373"] u(1-3) by (metis (no_types))
qed

definition demo_users :: shell_st where
  "demo_users = scheduler_init (process_init (boot_shell\<lparr>cpu := zero_registers\<lparr>r_esp := 0x90000\<rparr>,
     idt := idt (syscall_init 0x101000 (idt_init of_nat boot_shell))\<rparr>))"

lemma demo_users_facts: "only_idle demo_users" "user_layout demo_code demo_users" "int_target 3 0x80 demo_users = Some 0x101000"
proof -
  show "only_idle demo_users" unfolding demo_users_def by (rule idle_scheduled) (simp add: demo_facts)
  define b where "b = boot_shell\<lparr>cpu := zero_registers\<lparr>r_esp := 0x90000\<rparr>,
     idt := idt (syscall_init 0x101000 (idt_init of_nat boot_shell))\<rparr>"
  obtain c t where p: "process_init b = b\<lparr>process_table := t, current_process := Some 0, next_pid := 1, con := c\<rparr>"
    using process_init_shape by metis
  obtain d where d: "scheduler_init (process_init b) = (process_init b)\<lparr>ready_queue_head := None, ready_queue_tail := None,
      ready_queue_count := 0, scheduler_enabled := False, con := d\<rparr>"
    using scheduler_init_shape by metis
  have "process_stacks_at boot_shell = 0x110000"
    by (simp add: boot_shell_def kbd_st.extend_def kbd_st.truncate_def boot_kbd_def sched_st.extend_def kbd_st.fields_def
      boot_sched_def desc_st.extend_def sched_st.fields_def boot_desc_def process_st.extend_def desc_st.fields_def boot_process_reach)
  moreover have "cpu demo_users = zero_registers\<lparr>r_esp := 0x90000\<rparr>" "process_stacks_at demo_users = process_stacks_at boot_shell"
    and i: "idt demo_users = idt (syscall_init 0x101000 (idt_init of_nat boot_shell))"
    unfolding demo_users_def b_def [symmetric] d unfolding p by (simp_all add: b_def)
  ultimately show "user_layout demo_code demo_users" by (simp add: user_layout_def demo_code_def)
  show "int_target 3 0x80 demo_users = Some 0x101000"
    using int_target_idt [OF i] syscall_targets [of "0x80" "0x101000" of_nat boot_shell] by simp
qed

theorem usermode_demonstration_witness:
  "\<exists>s' u. cmd_sched (Some ''start'') (cmd_usermode (bt_shell demo_env) (Some ''test'') demo_users) = Some (Inr (False, s')) \<and>
     timer_handler s' = Inr (True, u) \<and> cpu_cs u = 0x1B \<and> r_eip (cpu u) = 0x500000 \<and> mem u 0x500000 = mem demo_users 0x102000"
proof -
  have code: "sh_code (bt_shell demo_env) = demo_code" by (simp add: demo_env_def)
  have lay: "user_layout (sh_code (bt_shell demo_env)) demo_users" by (simp add: code demo_users_facts)
  obtain s' where s': "cmd_sched (Some ''start'') (cmd_usermode (bt_shell demo_env) (Some ''test'') demo_users) = Some (Inr (False, s'))"
    using sched_start [OF usermode_test_result(5) [OF demo_users_facts(1) lay]] by (auto simp: returns_def)
  have "0 < unat (user_mode_test_2_asm demo_code - user_mode_test_1_asm demo_code)" by (simp add: demo_code_def)
  with usermode_demonstration [OF demo_users_facts(1) lay s', unfolded code] obtain u where
    "timer_handler s' = Inr (True, u)" "cpu_cs u = 0x1B" "r_eip (cpu u) = 0x500000"
    "mem u (0x500000 + of_nat 0) = mem demo_users (user_mode_test_1_asm demo_code + of_nat 0)" by blast
  then show ?thesis using s' by (auto simp: demo_code_def)
qed

theorem demonstration_never_ends_witness:
  "\<exists>s' u v. cmd_sched (Some ''start'') (cmd_usermode (bt_shell demo_env) (Some ''test'') demo_users) = Some (Inr (False, s')) \<and>
     timer_handler s' = Inr (True, u) \<and> user_test 0x101000 0x20317373 1000 u = Some (Inr (False, v)) \<and> user_test_more v"
proof -
  have lay: "user_layout (sh_code (bt_shell demo_env)) demo_users" using demo_users_facts by (simp add: demo_env_def)
  obtain s' where s': "cmd_sched (Some ''start'') (cmd_usermode (bt_shell demo_env) (Some ''test'') demo_users) = Some (Inr (False, s'))"
    using sched_start [OF usermode_test_result(5) [OF demo_users_facts(1) lay]] by (auto simp: returns_def)
  show ?thesis using demonstration_never_ends [OF demo_users_facts(1) lay demo_users_facts(3) s'] s' by blast
qed

text \<open>Fact (error): the user area of process 1 lies inside the kernel's heap: setting the process up overwrites a
  block that somebody holds there.\<close>

theorem user_program_overwrites_heap:
  assumes "held s P" "P p = Some m" "unat p \<le> 0x500000" "0x500000 < unat p + unat m"
    and prog: "user_program code e = Some (a, b)" "unat a < unat b" "unat b \<le> unat a + 0x80000" "unat b \<le> 0x500000"
    and slot: "p_pid (process_table s 1) = 1" "20 \<le> unat (p_kernel_stack (process_table s 1) + 4096)"
      "unat (p_kernel_stack (process_table s 1) + 4096) \<le> 0x500000"
  shows "held s P \<and> P p = Some m \<and> (\<exists>j < unat m. p + of_nat j = 0x500000 \<and>
    mem (process_setup_user_mode code (Some 1) e s) (p + of_nat j) = mem s a)"
proof -
  define k where "k = p_kernel_stack (process_table s 1) + 4096"
  have n: "unat (b - a) = unat b - unat a" using prog(2) by (simp add: unat_sub word_le_nat_alt)
  have k20: "unat (k - 20) = unat k - 20" using slot(2) [folded k_def] by (simp add: unat_sub word_le_nat_alt)
  have mm: "mem (process_setup_user_mode code (Some 1) e s) =
      iret_frame k 0x500000 0x584000 (copy_loop (unat (b - a)) 0x500000 a 0 (mem s))"
    using setup_user_mode(1) [OF prog(1), where s = s and i = 1] by (simp add: slot(1) [unfolded One_nat_def] k_def)
  have "mem (process_setup_user_mode code (Some 1) e s) (0x500000 + of_nat 0) = mem s (a + of_nat 0)"
    unfolding mm
  proof (subst iret_frame_outside [where l = "unat (b - a)"])
    show "20 \<le> unat k" "apart (unat (b - a)) 0x500000 20 (k - 20)" "0 < unat (b - a)"
      using slot(2,3) [folded k_def] prog n by (simp_all add: apart_def k20)
    show "copy_loop (unat (b - a)) 0x500000 a 0 (mem s) (0x500000 + of_nat 0) = mem s (a + of_nat 0)"
      by (rule copy_apart(1)) (use prog n unat_lt32 [of "b - a"] in \<open>simp_all add: apart_def\<close>)
  qed
  moreover have "p + of_nat (0x500000 - unat p) = 0x500000"
    using assms(3) unat_offset [of p "0x500000 - unat p"] by (simp add: word_unat_eq_iff)
  ultimately show ?thesis using assms(1-4) by (intro conjI exI [of _ "0x500000 - unat p"]) simp_all
qed

theorem user_program_overwrites_heap_witness:
  "\<exists>(s :: process_st) P p m j. held s P \<and> P p = Some m \<and> j < unat m \<and>
    mem (process_setup_user_mode demo_code (Some 1) 0x101000 s) (p + of_nat j) = mem s 0x102000"
proof -
  define s0 where "s0 = memory_init boot_process"
  have "kmalloc 0x380000 s0 \<noteq> None" "\<exists>t. kmalloc 0x380000 s0 = Some (0x200010, t)"
    using kmalloc_refines_some [OF memory_init_rep(1) [of boot_process], of "0x380000"] memory_init_rep(2) [of boot_process]
    by (auto simp: carve_def s0_def)
  then obtain t where t: "kmalloc 0x380000 s0 = Some (0x200010, t)" by blast
  have "heap_inv s0 Map.empty [(0x3FFFF0, True)]" by (simp add: s0_def heap_inv_init)
  from heap_inv_alloc [OF this _ t] obtain bs where bs: "heap_inv t [0x200010 \<mapsto> 0x380000] bs" by auto
  define s where "s = upd_process 1 (\<lambda>p. p\<lparr>p_pid := 1, p_kernel_stack := 0x110000\<rparr>) t"
  have "held s [0x200010 \<mapsto> 0x380000]"
    using bs by (auto simp: held_def s_def upd_process_def heap_inv_def heap_wf_def heap_rep_def)
  moreover have "user_program demo_code 0x101000 = Some (0x102000, 0x102080)" by (simp add: user_program_def demo_code_def)
  ultimately have "held s [0x200010 \<mapsto> 0x380000] \<and> [0x200010 \<mapsto> 0x380000] (0x200010 :: u32) = Some (0x380000 :: u32) \<and>
      (\<exists>j < unat (0x380000 :: u32). (0x200010 :: u32) + of_nat j = 0x500000 \<and>
    mem (process_setup_user_mode demo_code (Some 1) 0x101000 s) (0x200010 + of_nat j) = mem s 0x102000)"
    by (intro user_program_overwrites_heap [where a = "0x102000" and b = "0x102080"]) (simp_all add: s_def upd_process_def)
  then show ?thesis by blast
qed

end
