(* ===== verification/Typing.thy ===== *)
theory Typing
  imports Boot_Theorems Exceptions
begin

text \<open>
  From the key to the command: a hardware interrupt with the processor's part, \<open>interrupt\<close>; what a sequence of
  scancodes types, \<open>keys_typed\<close>; a wait of the shell during which keys are pressed and the timer ticks,
  \<open>key_halt\<close>. The keyboard interrupts of that wait are a typist in the sense of \<open>Keyboard_Theorems\<close>, so that
  the line editor and the shell get what was typed.
\<close>

section \<open>A hardware interrupt, from the processor and back\<close>

text \<open>The processor enters the gate, the stub runs, \<^verbatim>\<open>iret\<close>. \<open>stub\<close> gives the addresses of the stubs; None:
  the gate is absent or leads elsewhere.\<close>

definition interrupt :: "(nat \<Rightarrow> u32) \<Rightarrow> device \<Rightarrow> nat \<Rightarrow> 'a kbd_st_scheme \<Rightarrow> (u32 + bool \<times> 'a kbd_st_scheme) option" where
  "interrupt stub dev n s =
     (if int_target 0 n s \<noteq> Some (stub n) then None
      else Some (case irq_stub dev (of_nat n) (enter_gate n s) of
             Inl vector \<Rightarrow> Inl vector
           | Inr (True, s) \<Rightarrow> Inr (True, s)
           | Inr (False, s) \<Rightarrow> Inr (False, interrupt_return s)))"

text \<open>The kernel in ring 0, ready for the timer and the keyboard: the gates are set, there is room on the stack,
  input is accepted, the scheduler has not been started and the processor runs.\<close>

definition kernel_ready :: "(nat \<Rightarrow> u32) \<Rightarrow> 'a kbd_st_scheme \<Rightarrow> bool" where
  "kernel_ready stub s \<longleftrightarrow> cpu_cs s = 8 \<and> int_target 0 32 s = Some (stub 32) \<and> int_target 0 33 s = Some (stub 33) \<and>
     76 \<le> unat (r_esp (cpu s)) \<and> unat (r_esp (cpu s)) + 64 \<le> 2 ^ 32 \<and> input_enabled s \<and> \<not> scheduler_enabled s \<and> \<not> halted s"

definition entered :: "nat \<Rightarrow> 'a kbd_st_scheme \<Rightarrow> 'a kbd_st_scheme" where
  "entered n s = push32 (r_esp (cpu s) - 56) (irq_stub_entry (of_nat n) (enter_gate n s))"

lemma esp_room:
  assumes "76 \<le> unat (e :: u32)" "unat e + 64 \<le> 2 ^ 32"
  shows "64 \<le> unat (e - 12)" "unat (e - 12) + 64 \<le> 2 ^ 32" "unat (e - 12) = unat e - 12"
  using assms by (simp_all add: unat_sub word_le_nat_alt)

lemma entered_keeps:
  "same_ring s (entered n s)" "io_log (entered n s) = io_log s" "modifiers (entered n s) = modifiers s"
  "input_enabled (entered n s) = input_enabled s" "scheduler_enabled (entered n s) = scheduler_enabled s"
  "idt (entered n s) = idt s" "system_ticks (entered n s) = system_ticks s" "con (entered n s) = con s"
  "current_process (entered n s) = current_process s" "halted (entered n s) = halted s"
  by (simp_all add: entered_def same_ring_def enter_gate_def irq_stub_entry_def pusha_def push32_def load_data_segments_def Let_def)

lemma enter_ring0:
  assumes "cpu_cs s = 8"
  shows "r_esp (cpu (enter_gate n s)) = r_esp (cpu s) - 12"
    "mem (enter_gate n s) = write32 (write32 (write32 (mem s) (r_esp (cpu s) - 4) (r_eflags (cpu s))) (r_esp (cpu s) - 8) 8)
       (r_esp (cpu s) - 12) (r_eip (cpu s))"
  using assms by (simp_all add: enter_gate_def push32_def Let_def)

text \<open>A handler that leaves registers and memory alone: what it does to the other fields is what the interrupt does.\<close>

lemma interrupt_returns:
  fixes s :: "'a kbd_st_scheme"
  assumes cs: "cpu_cs s = 8" and gate: "int_target 0 n s = Some (stub n)"
    and room: "76 \<le> unat (r_esp (cpu s))" "unat (r_esp (cpu s)) + 64 \<le> 2 ^ 32"
    and h: "irq_handler dev (r_esp (cpu s) - 56) (entered n s) = Inr (False, t)"
    and keep: "mem t = mem (entered n s)" "cpu t = cpu (entered n s)"
  shows "\<exists>c f. interrupt stub dev n s = Some (Inr (False, t\<lparr>cpu := c, cpu_cs := 8, interrupt_flag := f\<rparr>)) \<and> r_esp c = r_esp (cpu s)"
proof -
  define e where "e = r_esp (cpu s)"
  define g where "g = enter_gate n s"
  have ge: "r_esp (cpu g) = e - 12" by (simp add: g_def e_def enter_ring0 [OF cs])
  have e64: "64 \<le> unat (r_esp (cpu g))" "unat (r_esp (cpu g)) + 64 \<le> 2 ^ 32"
    using esp_room [OF room] by (simp_all add: ge e_def)
  have b: "r_esp (cpu g) - 44 = e - 56" by (simp add: ge)
  have v: "entered n s = push32 (r_esp (cpu g) - 44) (irq_stub_entry (of_nat n) g)"
    by (simp add: entered_def g_def [symmetric] b e_def)
  from irq_stub_returns [OF e64 h [folded e_def, folded b, unfolded v] keep [unfolded v]] obtain u where u':
    "irq_stub dev (of_nat n) g = Inr (False, u)"
    "cpu u = (cpu g)\<lparr>r_ds := r_ds (cpu g) AND 0xFFFF, r_es := r_ds (cpu g) AND 0xFFFF,
       r_fs := r_ds (cpu g) AND 0xFFFF, r_gs := r_ds (cpu g) AND 0xFFFF\<rparr>" "mem u = mem t"
    "u = t\<lparr>cpu := cpu u, interrupt_flag := True\<rparr>" by blast
  have "r_esp (cpu u) = r_esp (cpu g)" unfolding u'(2) by simp
  note u = u'(1,3) this u'(4)
  have m: "mem t = write32 (mem (irq_stub_entry (of_nat n) g)) (r_esp (cpu g) - 48) (r_esp (cpu g) - 44)"
    unfolding keep(1) v by (simp add: push32_def Let_def irq_entry_effect(2))
  have "frame_at (mem t) (r_esp (cpu g) - 44) = frame_at (mem (irq_stub_entry (of_nat n) g)) (r_esp (cpu g) - 44)"
    unfolding m by (rule frame_push [OF e64])
  then have "f_cs (frame_at (mem t) (r_esp (cpu g) - 44)) = read32 (mem g) (r_esp (cpu g) + 4)"
    by (simp add: irq_entry_frame [OF e64])
  then have "read32 (mem t) (r_esp (cpu g) + 4) = read32 (mem g) (r_esp (cpu g) + 4)"
    by (simp add: frame_at_def above_frame)
  moreover have "apart 4 (e - 12) 4 (e - 8)" using room by (intro apart_below) (simp_all add: e_def)
  then have "read32 (mem g) (r_esp (cpu g) + 4) = 8"
    unfolding ge by (simp add: g_def enter_ring0 [OF cs] e_def)
  ultimately have cs': "stack_word 4 u = 8" by (simp add: stack_word_def u(2,3))
  have ir: "interrupt_return u = u\<lparr>cpu := (cpu u)\<lparr>r_eip := stack_word 0 u, r_eflags := stack_word 8 u, r_esp := e\<rparr>, cpu_cs := 8,
      interrupt_flag := bit (stack_word 8 u) 9\<rparr>"
    by (simp add: interrupt_return_def cs' Let_def u(3) ge)
  show ?thesis
  proof (intro exI conjI)
    show "interrupt stub dev n s = Some (Inr (False, t\<lparr>cpu := (cpu u)\<lparr>r_eip := stack_word 0 u, r_eflags := stack_word 8 u, r_esp := e\<rparr>,
        cpu_cs := 8, interrupt_flag := bit (stack_word 8 u) 9\<rparr>))"
      using gate u(1) by (simp add: interrupt_def g_def [symmetric] ir) (subst u(4), simp)
  qed (simp add: e_def)
qed

lemma int_no_entered:
  fixes s :: "'a kbd_st_scheme"
  assumes cs: "cpu_cs s = 8" and room: "76 \<le> unat (r_esp (cpu s))" "unat (r_esp (cpu s)) + 64 \<le> 2 ^ 32"
  shows "f_int_no (frame_at (mem (entered n s)) (r_esp (cpu s) - 56)) = of_nat n"
proof -
  define g where "g = enter_gate n s"
  have ge: "r_esp (cpu g) = r_esp (cpu s) - 12" by (simp add: g_def enter_ring0 [OF cs])
  have e64: "64 \<le> unat (r_esp (cpu g))" "unat (r_esp (cpu g)) + 64 \<le> 2 ^ 32"
    using esp_room [OF room] by (simp_all add: ge)
  have "mem (entered n s) = write32 (mem (irq_stub_entry (of_nat n) g)) (r_esp (cpu g) - 48) (r_esp (cpu g) - 44)"
    by (simp add: entered_def g_def [symmetric] push32_def Let_def irq_entry_effect ge)
  then show ?thesis
    using frame_push [OF e64] irq_entry_frame [OF e64, of "of_nat n"] by (simp add: ge)
qed

section \<open>What a sequence of scancodes types\<close>

definition mods_released :: "u8 \<Rightarrow> u8 \<Rightarrow> u8" where
  "mods_released scancode m =
     (if scancode = KB_LSHIFT \<or> scancode = KB_RSHIFT then m AND NOT KB_MOD_SHIFT
      else if scancode = KB_LCTRL then m AND NOT KB_MOD_CTRL
      else if scancode = KB_LALT then m AND NOT KB_MOD_ALT
      else m)"

definition mods_after :: "u8 \<Rightarrow> u8 \<Rightarrow> u8" where
  "mods_after scancode m =
     (if scancode AND KB_KEY_RELEASE \<noteq> 0 then mods_released (scancode AND NOT KB_KEY_RELEASE) m
      else case modifier_press scancode m of Some m' \<Rightarrow> m' | None \<Rightarrow> m)"

fun keys_typed :: "u8 \<Rightarrow> u8 list \<Rightarrow> string" where
  "keys_typed m [] = []"
| "keys_typed m (sc # scs) =
     (if sc < 128 \<and> modifier_press sc m = None \<and> typed (key_ascii m sc)
      then key_ascii m sc # keys_typed m scs
      else keys_typed (mods_after sc m) scs)"

lemma keys_typed_typed: "c \<in> set (keys_typed m scs) \<Longrightarrow> typed c"
  by (induction m scs rule: keys_typed.induct) (auto split: if_splits)

section \<open>The two interrupts while the shell waits\<close>

text \<open>The fields of the state that decide whether the next key counts: the gates, the scheduler, the input and the modifiers.\<close>

definition steady :: "'a kbd_st_scheme \<Rightarrow> 'a kbd_st_scheme \<Rightarrow> bool" where
  "steady s t \<longleftrightarrow> idt t = idt s \<and> scheduler_enabled t = scheduler_enabled s \<and> input_enabled t = input_enabled s \<and>
     halted t = halted s"

lemma steady_parts:
  "steady s (keyboard_add_to_buffer c s)" "steady s (function_key k s)" "steady s (key_release k s)" "steady s (snd (inb dev p s))"
  "steady s (s\<lparr>con := x\<rparr>)" "steady s (s\<lparr>modifiers := m\<rparr>)"
  by (simp_all add: steady_def keyboard_add_to_buffer_def function_key_def key_release_def inb_def kout_defs Let_def)

lemma steady_trans: "steady s t \<Longrightarrow> steady t u \<Longrightarrow> steady s u"
  by (simp add: steady_def)

lemma steady_accept: "steady s (accept_char c s)" "modifiers (accept_char c s) = modifiers s"
  by (simp_all add: accept_char_def steady_trans [OF steady_parts(5) steady_parts(1)] keyboard_add_to_buffer_def)
    (simp add: steady_def)

lemma handler_eq:
  "keyboard_handler dev s =
     (let sc = dev (io_log s) KB_DATA_PORT; t = snd (inb dev KB_DATA_PORT s)
      in if sc AND KB_KEY_RELEASE \<noteq> 0 then key_release (sc AND NOT KB_KEY_RELEASE) t
      else case modifier_press sc (modifiers s) of
        Some m \<Rightarrow> t\<lparr>modifiers := m\<rparr>
      | None \<Rightarrow> if key_ascii (modifiers s) sc = CHR 0x00 then function_key sc t else accept_char (key_ascii (modifiers s) sc) t)"
  by (simp add: keyboard_handler_def inb_def Let_def split: option.split)

lemma handler_keeps:
  fixes s :: "'a kbd_st_scheme"
  shows
  "steady s (keyboard_handler dev s)"
  "modifiers (keyboard_handler dev s) = mods_after (dev (io_log s) KB_DATA_PORT) (modifiers s)"
proof -
  have t: "steady s (snd (inb dev KB_DATA_PORT s))" "modifiers (snd (inb dev KB_DATA_PORT s)) = modifiers s"
    by (rule steady_parts, simp add: inb_def Let_def)
  show "steady s (keyboard_handler dev s)"
    unfolding handler_eq by (simp add: Let_def steady_trans [OF t(1)] steady_parts steady_accept(1) split: option.split)
  have "modifiers (key_release k u) = mods_released k (modifiers u)" "modifiers (function_key k u) = modifiers u"
    for k and u :: "'a kbd_st_scheme" by (simp_all add: key_release_def mods_released_def function_key_def kout_defs)
  then show "modifiers (keyboard_handler dev s) = mods_after (dev (io_log s) KB_DATA_PORT) (modifiers s)"
    unfolding handler_eq mods_after_def using t(2) by (simp add: Let_def steady_accept(2) split: option.split)
qed

lemma eoi_keeps [simp]:
  "idt (pic_send_eoi n s) = idt s" "scheduler_enabled (pic_send_eoi n s) = scheduler_enabled s"
  "input_enabled (pic_send_eoi n s) = input_enabled s" "modifiers (pic_send_eoi n s) = modifiers s"
  "same_ring s (pic_send_eoi n s)" "halted (pic_send_eoi n s) = halted s"
  by (simp_all add: pic_send_eoi_def outb_def Let_def same_ring_def)

lemma same_procs_trans: "same_procs s t \<Longrightarrow> same_procs t u \<Longrightarrow> same_procs s u"
  by (simp add: same_procs_def)

lemma keyboard_procs:
  fixes s :: "'a kbd_st_scheme"
  shows "same_procs s (keyboard_handler dev s)"
proof -
  have k: "same_procs t (key_release c t)" "same_procs t (function_key c t)" "same_procs t (t\<lparr>modifiers := m\<rparr>)"
    "same_procs t (accept_char a t)" "same_procs t (snd (inb dev p t))" for c a m p and t :: "'a kbd_st_scheme"
    by (simp_all add: same_procs_def key_release_def function_key_def accept_char_def keyboard_add_to_buffer_def inb_def Let_def kout_defs)
  have "same_procs (snd (inb dev KB_DATA_PORT s)) (keyboard_handler dev s)"
    unfolding handler_eq by (simp add: Let_def k split: option.split)
  then show ?thesis by (rule same_procs_trans [OF k(5)])
qed

lemma entered_procs: "same_procs s (entered n s)" "same_procs s (pic_send_eoi i s)"
  by (simp_all add: same_procs_def entered_def enter_gate_def irq_stub_entry_def pusha_def push32_def load_data_segments_def Let_def
      pic_send_eoi_def outb_def)

lemma irq_count_eoi: "irq_count (io_log (pic_send_eoi n s)) = Suc (irq_count (io_log s))"
  by (simp add: irq_count_def pic_send_eoi_def outb_def Let_def port_numbers)

lemma key_reads_eoi: "key_reads (io_log (pic_send_eoi n s)) = key_reads (io_log s)"
  by (simp add: key_reads_def pic_send_eoi_def outb_def Let_def)

lemma ready_upd:
  "kernel_ready stub (s\<lparr>cpu := c, cpu_cs := 8, interrupt_flag := f\<rparr>) \<longleftrightarrow>
     int_target 0 32 s = Some (stub 32) \<and> int_target 0 33 s = Some (stub 33) \<and>
     76 \<le> unat (r_esp c) \<and> unat (r_esp c) + 64 \<le> 2 ^ 32 \<and> input_enabled s \<and> \<not> scheduler_enabled s \<and> \<not> halted s"
  by (simp add: kernel_ready_def int_target_def)

lemma target_cong: "idt t = idt s \<Longrightarrow> int_target cpl n t = int_target cpl n s"
  by (simp add: int_target_def)

lemma interrupt_key:
  fixes s :: "'a kbd_st_scheme"
  assumes r: "kernel_ready stub s" and q: "kbd_rep s q" and sc: "dev (io_log s) KB_DATA_PORT = sc"
  shows "\<exists>u. interrupt stub dev 33 s = Some (Inr (False, u)) \<and> kernel_ready stub u \<and>
    kbd_rep u (case key_typed sc s of Some c \<Rightarrow> if length q < 255 then q @ [c] else q | None \<Rightarrow> q) \<and>
    modifiers u = mods_after sc (modifiers s) \<and> key_reads (io_log u) = Suc (key_reads (io_log s)) \<and>
    irq_count (io_log u) = Suc (irq_count (io_log s)) \<and> same_procs s u"
proof -
  define v where "v = entered 33 s"
  define t where "t = pic_send_eoi 1 (keyboard_handler dev v)"
  have r': "cpu_cs s = 8" "int_target 0 33 s = Some (stub 33)" "76 \<le> unat (r_esp (cpu s))" "unat (r_esp (cpu s)) + 64 \<le> 2 ^ 32"
    using r by (simp_all add: kernel_ready_def)
  have "f_int_no (frame_at (mem v) (r_esp (cpu s) - 56)) = 33" using int_no_entered [OF r'(1,3,4), of 33] by (simp add: v_def)
  then have h: "irq_handler dev (r_esp (cpu s) - 56) v = Inr (False, t)" by (simp add: irq_handler_def t_def)
  have keep: "mem t = mem v" "cpu t = cpu v" by (simp_all add: t_def)
  from interrupt_returns [where stub = stub and s = s and t = t and n = 33 and dev = dev, OF r' h [unfolded v_def] keep [unfolded v_def]] obtain c f where
    i: "interrupt stub dev 33 s = Some (Inr (False, t\<lparr>cpu := c, cpu_cs := 8, interrupt_flag := f\<rparr>))" "r_esp c = r_esp (cpu s)"
    by blast
  note k = entered_keeps [where s = s and n = 33, folded v_def]
  have t: "idt t = idt s" "scheduler_enabled t = scheduler_enabled s" "input_enabled t = input_enabled s"
    "halted t = halted s"
    using handler_keeps(1) [of v dev] k by (simp_all add: t_def steady_def)
  have "kernel_ready stub (t\<lparr>cpu := c, cpu_cs := 8, interrupt_flag := f\<rparr>)"
    using r target_cong [OF t(1)] by (simp add: ready_upd i(2) t(2-4)) (simp add: kernel_ready_def)
  moreover have "kbd_rep t (case key_typed sc s of Some c \<Rightarrow> if length q < 255 then q @ [c] else q | None \<Rightarrow> q)"
  proof -
    have "kbd_rep v q" using q k(1) same_ring_rep by blast
    moreover have "key_typed sc v = key_typed sc s" by (simp add: key_typed_def k)
    ultimately have "kbd_rep (keyboard_handler dev v) (case key_typed sc s of Some c \<Rightarrow> if length q < 255 then q @ [c] else q | None \<Rightarrow> q)"
      using handler_rep [of v q dev sc] sc k(2) by simp
    then show ?thesis unfolding t_def using same_ring_rep eoi_keeps(5) by blast
  qed
  then have "kbd_rep (t\<lparr>cpu := c, cpu_cs := 8, interrupt_flag := f\<rparr>)
      (case key_typed sc s of Some c \<Rightarrow> if length q < 255 then q @ [c] else q | None \<Rightarrow> q)"
    by (simp add: kbd_rep_def)
  moreover have "modifiers t = mods_after sc (modifiers s)" by (simp add: t_def handler_keeps(2) k sc)
  moreover have "key_reads (io_log t) = Suc (key_reads (io_log s))"
    unfolding t_def key_reads_eoi using io_log_keyboard [of dev v] k(2) by (auto simp: key_reads_def)
  moreover have "irq_count (io_log t) = Suc (irq_count (io_log s))"
    unfolding t_def irq_count_eoi using io_log_keyboard [of dev v] k(2) by (auto simp: irq_count_def)
  moreover have "same_procs s t"
    unfolding t_def v_def by (rule same_procs_trans [OF entered_procs(1) same_procs_trans [OF keyboard_procs entered_procs(2)]])
  then have "same_procs s (t\<lparr>cpu := c, cpu_cs := 8, interrupt_flag := f\<rparr>)" by (simp add: same_procs_def)
  ultimately show ?thesis using i(1) by (intro exI [of _ "t\<lparr>cpu := c, cpu_cs := 8, interrupt_flag := f\<rparr>"]) simp
qed

lemma interrupt_tick:
  fixes s :: "'a kbd_st_scheme"
  assumes r: "kernel_ready stub s"
  shows "\<exists>u. interrupt stub dev 32 s = Some (Inr (False, u)) \<and> kernel_ready stub u \<and> same_ring s u \<and>
    modifiers u = modifiers s \<and> key_reads (io_log u) = key_reads (io_log s) \<and> system_ticks u = system_ticks s + 1 \<and>
    irq_count (io_log u) = Suc (irq_count (io_log s)) \<and> same_procs s u"
proof -
  define v where "v = entered 32 s"
  define t where "t = pic_send_eoi 0 (v\<lparr>system_ticks := system_ticks v + 1\<rparr>)"
  have r': "cpu_cs s = 8" "int_target 0 32 s = Some (stub 32)" "76 \<le> unat (r_esp (cpu s))" "unat (r_esp (cpu s)) + 64 \<le> 2 ^ 32"
    using r by (simp_all add: kernel_ready_def)
  note k = entered_keeps [where s = s and n = 32, folded v_def]
  have "f_int_no (frame_at (mem v) (r_esp (cpu s) - 56)) = 32" using int_no_entered [OF r'(1,3,4), of 32] by (simp add: v_def)
  moreover have "scheduler_tick (v\<lparr>system_ticks := system_ticks v + 1\<rparr>) = Inr (False, v\<lparr>system_ticks := system_ticks v + 1\<rparr>)"
    using r by (simp add: scheduler_tick_def k kernel_ready_def split: option.split)
  ultimately have h: "irq_handler dev (r_esp (cpu s) - 56) v = Inr (False, t)"
    by (simp add: irq_handler_def timer_handler_def t_def)
  have keep: "mem t = mem v" "cpu t = cpu v" by (simp_all add: t_def pic_send_eoi_def outb_def Let_def)
  from interrupt_returns [where stub = stub and s = s and t = t and n = 32 and dev = dev, OF r' h [unfolded v_def] keep [unfolded v_def]] obtain c f where
    i: "interrupt stub dev 32 s = Some (Inr (False, t\<lparr>cpu := c, cpu_cs := 8, interrupt_flag := f\<rparr>))" "r_esp c = r_esp (cpu s)"
    by blast
  have idt: "idt t = idt s" by (simp add: t_def k)
  have "kernel_ready stub (t\<lparr>cpu := c, cpu_cs := 8, interrupt_flag := f\<rparr>)"
    using r target_cong [OF idt] by (simp add: ready_upd i(2)) (simp add: kernel_ready_def t_def k)
  moreover have "same_ring s t" "system_ticks t = system_ticks s + 1"
    using k(1) by (simp_all add: t_def same_ring_def pic_send_eoi_def outb_def Let_def k)
  moreover have "modifiers t = modifiers s" "key_reads (io_log t) = key_reads (io_log s)"
    "irq_count (io_log t) = Suc (irq_count (io_log s))"
    by (simp_all add: t_def key_reads_eoi irq_count_eoi k)
  moreover have "same_procs s t"
    using entered_procs(1) [of s 32] entered_procs(2) [of "v\<lparr>system_ticks := system_ticks v + 1\<rparr>" 0]
    by (simp add: t_def v_def [symmetric]) (simp add: same_procs_def)
  then have "same_procs s (t\<lparr>cpu := c, cpu_cs := 8, interrupt_flag := f\<rparr>)" by (simp add: same_procs_def)
  ultimately show ?thesis using i(1)
    by (intro exI [of _ "t\<lparr>cpu := c, cpu_cs := 8, interrupt_flag := f\<rparr>"]) (simp add: same_ring_def)
qed

section \<open>Waiting for a key\<close>

text \<open>Somebody types the scancodes \<open>scs\<close>: the data port gives one after the other.\<close>

definition plays :: "device \<Rightarrow> u8 list \<Rightarrow> bool" where
  "plays dev scs \<longleftrightarrow> (\<forall>log. key_reads log < length scs \<longrightarrow> dev log KB_DATA_PORT = scs ! key_reads log)"

definition keyboard_of :: "u8 list \<Rightarrow> device" where
  "keyboard_of scs log port = (if port = KB_DATA_PORT \<and> key_reads log < length scs then scs ! key_reads log else 0)"

lemma plays_keyboard_of: "plays (keyboard_of scs) scs"
  by (simp add: plays_def keyboard_of_def)

text \<open>An interrupt that returns to the code it interrupted.\<close>

definition serve :: "(nat \<Rightarrow> u32) \<Rightarrow> device \<Rightarrow> nat \<Rightarrow> 'a kbd_st_scheme \<Rightarrow> 'a kbd_st_scheme" where
  "serve stub dev n s = (case interrupt stub dev n s of Some (Inr (False, s')) \<Rightarrow> s' | _ \<Rightarrow> s)"

text \<open>A wait for input while at most \<open>n\<close> keys are still pressed or released: before each, the timer ticks some number
  of times, which \<open>pause\<close> gives; the wait ends when there is a character to read.\<close>

fun wait_key :: "(nat \<Rightarrow> u32) \<Rightarrow> device \<Rightarrow> (io_event list \<Rightarrow> nat) \<Rightarrow> nat \<Rightarrow> 'a kbd_st_scheme \<Rightarrow> 'a kbd_st_scheme" where
  "wait_key stub dev pause 0 s = s"
| "wait_key stub dev pause (Suc n) s =
     (let s = serve stub dev 33 ((serve stub dev 32 ^^ pause (io_log s)) s)
      in if buffer_count s = 0 then wait_key stub dev pause n s else s)"

definition key_halt :: "(nat \<Rightarrow> u32) \<Rightarrow> device \<Rightarrow> (io_event list \<Rightarrow> nat) \<Rightarrow> u8 list \<Rightarrow> 'a kbd_st_scheme \<Rightarrow> 'a kbd_st_scheme" where
  "key_halt stub dev pause scs s = wait_key stub dev pause (length scs - key_reads (io_log s)) s"

lemma ready_cong:
  "cpu_cs t = cpu_cs s \<Longrightarrow> idt t = idt s \<Longrightarrow> cpu t = cpu s \<Longrightarrow> input_enabled t = input_enabled s \<Longrightarrow>
     scheduler_enabled t = scheduler_enabled s \<Longrightarrow> halted t = halted s \<Longrightarrow> kernel_ready stub t = kernel_ready stub s"
  by (simp add: kernel_ready_def int_target_def)

text \<open>Before the keyboard is used, the timer alone ticks until \<open>n\<close> interrupts have been served; then the keys follow.\<close>

definition first_halt ::
    "(nat \<Rightarrow> u32) \<Rightarrow> device \<Rightarrow> (io_event list \<Rightarrow> nat) \<Rightarrow> u8 list \<Rightarrow> nat \<Rightarrow> 'a kbd_st_scheme \<Rightarrow> 'a kbd_st_scheme" where
  "first_halt stub dev pause scs n s = (if irq_count (io_log s) < n then serve stub dev 32 s else key_halt stub dev pause scs s)"

text \<open>What is still to be typed.\<close>

definition key_future :: "(nat \<Rightarrow> u32) \<Rightarrow> u8 list \<Rightarrow> nat \<Rightarrow> 'a kbd_st_scheme \<Rightarrow> string" where
  "key_future stub scs n s =
     (if kernel_ready stub s \<and> n \<le> irq_count (io_log s) then keys_typed (modifiers s) (drop (key_reads (io_log s)) scs) else [])"

lemma future_con: "key_future stub scs n (s\<lparr>con := c\<rparr>) = key_future stub scs n s"
  using ready_cong [of "s\<lparr>con := c\<rparr>" s stub] by (simp add: key_future_def)

lemma tick_served:
  assumes "kernel_ready stub s"
  shows "kernel_ready stub (serve stub dev 32 s)" "same_ring s (serve stub dev 32 s)" "modifiers (serve stub dev 32 s) = modifiers s"
    "key_reads (io_log (serve stub dev 32 s)) = key_reads (io_log s)" "system_ticks (serve stub dev 32 s) = system_ticks s + 1"
    "irq_count (io_log (serve stub dev 32 s)) = Suc (irq_count (io_log s))" "same_procs s (serve stub dev 32 s)"
  using interrupt_tick [OF assms, of dev] by (auto simp: serve_def)

lemma ticks_pass:
  assumes "kernel_ready stub s"
  shows "kernel_ready stub ((serve stub dev 32 ^^ k) s) \<and> same_ring s ((serve stub dev 32 ^^ k) s) \<and>
    modifiers ((serve stub dev 32 ^^ k) s) = modifiers s \<and> key_reads (io_log ((serve stub dev 32 ^^ k) s)) = key_reads (io_log s) \<and>
    irq_count (io_log ((serve stub dev 32 ^^ k) s)) = irq_count (io_log s) + k \<and> same_procs s ((serve stub dev 32 ^^ k) s)"
proof (induction k)
  case 0
  then show ?case using assms by (simp add: same_ring_def same_procs_def)
next
  case (Suc k)
  then show ?case using tick_served [of stub "(serve stub dev 32 ^^ k) s" dev] same_ring_trans same_procs_trans by auto
qed

text \<open>What every interrupt of a wait keeps: the kernel stays ready, the ring buffer well formed, the processes the same.\<close>

definition waits :: "(nat \<Rightarrow> u32) \<Rightarrow> 'a kbd_st_scheme \<Rightarrow> 'a kbd_st_scheme \<Rightarrow> bool" where
  "waits stub s0 s \<longleftrightarrow> kernel_ready stub s \<and> (\<exists>q. kbd_rep s q) \<and> same_procs s0 s \<and>
     irq_count (io_log s0) \<le> irq_count (io_log s)"

lemma waits_serve:
  assumes "waits stub s0 s" "n = 32 \<or> n = 33"
  shows "waits stub s0 (serve stub dev n s)"
proof (cases "n = 32")
  case True
  then show ?thesis using assms(1) tick_served [of stub s dev] same_ring_rep same_procs_trans by (auto simp: waits_def)
next
  case False
  then obtain q where q: "n = 33" "kernel_ready stub s" "kbd_rep s q" "same_procs s0 s" "irq_count (io_log s0) \<le> irq_count (io_log s)"
    using assms by (auto simp: waits_def)
  from interrupt_key [OF q(2,3) refl, of dev] obtain u where u: "interrupt stub dev 33 s = Some (Inr (False, u))" "kernel_ready stub u"
    "kbd_rep u (case key_typed (dev (io_log s) KB_DATA_PORT) s of Some c \<Rightarrow> if length q < 255 then q @ [c] else q | None \<Rightarrow> q)"
    "same_procs s u" "irq_count (io_log u) = Suc (irq_count (io_log s))" by blast
  then show ?thesis using same_procs_trans [OF q(4) u(4)] q(1,5) by (auto simp: waits_def serve_def)
qed

lemma waits_ticks: "waits stub s0 s \<Longrightarrow> waits stub s0 ((serve stub dev 32 ^^ k) s)"
  by (induction k) (simp_all add: waits_serve)

lemma waits_wait_key: "waits stub s0 s \<Longrightarrow> waits stub s0 (wait_key stub dev pause n s)"
  by (induction n arbitrary: s) (simp_all add: Let_def waits_ticks waits_serve)

lemma waits_halt: "waits stub s0 s \<Longrightarrow> waits stub s0 (first_halt stub dev pause scs n s)"
  by (simp add: first_halt_def key_halt_def waits_serve waits_wait_key)

lemma getchar_keeps:
  "kernel_ready stub (snd (keyboard_getchar s)) = kernel_ready stub s" "same_procs s (snd (keyboard_getchar s))"
  "modifiers (snd (keyboard_getchar s)) = modifiers s" "io_log (snd (keyboard_getchar s)) = io_log s"
  by (rule ready_cong, simp_all add: keyboard_getchar_def Let_def same_procs_def)

lemma waits_getchar: "waits stub s0 s \<Longrightarrow> waits stub s0 (snd (keyboard_getchar s))"
proof -
  assume w: "waits stub s0 s"
  then obtain q where q: "kbd_rep s q" by (auto simp: waits_def)
  define t where "t = snd (keyboard_getchar s)"
  have "\<exists>q. kbd_rep t q"
    using getchar_empty [of s] getchar_rep [of s "hd q" "tl q"] q by (cases q) (auto simp: t_def)
  moreover have "kernel_ready stub t" "same_procs s t"
    using w by (simp_all add: waits_def t_def getchar_keeps)
  moreover have "io_log t = io_log s" by (simp add: t_def getchar_keeps)
  ultimately show ?thesis using w same_procs_trans by (auto simp: waits_def t_def [symmetric])
qed

lemma waits_con: "waits stub s0 (s\<lparr>con := c\<rparr>) = waits stub s0 s"
  using ready_cong [of "s\<lparr>con := c\<rparr>" s stub] by (simp add: waits_def kbd_rep_def same_procs_def)

text \<open>One key, after the ticks before it.\<close>

lemma key_arrives:
  fixes s :: "'a kbd_st_scheme" and k :: nat
  assumes r: "kernel_ready stub s" and q: "kbd_rep s []" and p: "plays dev scs"
    and left: "drop (key_reads (io_log s)) scs = sc # rest"
  defines "u \<equiv> serve stub dev 33 ((serve stub dev 32 ^^ k) s)"
  shows "kernel_ready stub u" "kbd_rep u (case key_typed sc s of Some c \<Rightarrow> [c] | None \<Rightarrow> [])"
    "modifiers u = mods_after sc (modifiers s)" "drop (key_reads (io_log u)) scs = rest"
    "key_reads (io_log u) = Suc (key_reads (io_log s))" "irq_count (io_log s) \<le> irq_count (io_log u)"
proof -
  define t where "t = (serve stub dev 32 ^^ k) s"
  have t: "kernel_ready stub t" "same_ring s t" "modifiers t = modifiers s" "key_reads (io_log t) = key_reads (io_log s)"
    "irq_count (io_log t) = irq_count (io_log s) + k"
    using ticks_pass [OF r] by (simp_all add: t_def)
  have l: "key_reads (io_log s) < length scs" using left by (cases "key_reads (io_log s) < length scs") simp_all
  then have "scs ! key_reads (io_log s) = sc" using left by (metis Cons_nth_drop_Suc list.inject)
  then have sc: "dev (io_log t) KB_DATA_PORT = sc" using p l t(4) by (simp add: plays_def)
  have "kbd_rep t []" using q t(2) same_ring_rep by blast
  from interrupt_key [where dev = dev, OF t(1) this sc] obtain v where v: "interrupt stub dev 33 t = Some (Inr (False, v))" "kernel_ready stub v"
    "kbd_rep v (case key_typed sc t of Some c \<Rightarrow> [c] | None \<Rightarrow> [])" "modifiers v = mods_after sc (modifiers t)"
    "key_reads (io_log v) = Suc (key_reads (io_log t))" "irq_count (io_log v) = Suc (irq_count (io_log t))"
    by (auto split: option.splits)
  have u: "u = v" using v(1) by (simp add: u_def serve_def t_def)
  have "key_typed sc t = key_typed sc s" using t r by (simp add: key_typed_def kernel_ready_def)
  then show "kernel_ready stub u" "kbd_rep u (case key_typed sc s of Some c \<Rightarrow> [c] | None \<Rightarrow> [])"
    "modifiers u = mods_after sc (modifiers s)" using v t(3) by (simp_all add: u)
  show "key_reads (io_log u) = Suc (key_reads (io_log s))" using v(5) t(4) by (simp add: u)
  show "irq_count (io_log s) \<le> irq_count (io_log u)" using v(6) t(5) by (simp add: u)
  show "drop (key_reads (io_log u)) scs = rest" using left v(5) t(4) by (simp add: u drop_Suc) (metis drop_tl list.sel(3))
qed

lemma wait_key_types:
  assumes p: "plays dev scs"
  shows "kernel_ready stub s \<Longrightarrow> kbd_rep s [] \<Longrightarrow> n = length scs - key_reads (io_log s) \<Longrightarrow> m \<le> irq_count (io_log s) \<Longrightarrow>
    keys_typed (modifiers s) (drop (key_reads (io_log s)) scs) = c # cs \<Longrightarrow>
    kbd_rep (wait_key stub dev pause n s) [c] \<and> key_future stub scs m (wait_key stub dev pause n s) = cs"
proof (induction n arbitrary: s)
  case 0
  then show ?case by simp
next
  case (Suc n)
  then obtain sc rest where left: "drop (key_reads (io_log s)) scs = sc # rest"
    by (cases "drop (key_reads (io_log s)) scs") simp_all
  define u where "u = serve stub dev 33 ((serve stub dev 32 ^^ pause (io_log s)) s)"
  note u = key_arrives [OF Suc.prems(1,2) p left, of "pause (io_log s)", folded u_def]
  have m: "m \<le> irq_count (io_log u)" using u(6) Suc.prems(4) by simp
  have en: "input_enabled s" using Suc.prems(1) by (simp add: kernel_ready_def)
  have ty: "keys_typed (modifiers s) (sc # rest) = c # cs" using Suc.prems(5) left by simp
  show ?case
  proof (cases "key_typed sc s")
    case None
    then have "keys_typed (modifiers u) (drop (key_reads (io_log u)) scs) = c # cs"
      using ty en u(3,4) by (auto simp: key_typed_def Let_def split: if_splits)
    moreover have "kbd_rep u []" "buffer_count u = 0" using u(2) None by (simp_all add: kbd_rep_def)
    moreover have "n = length scs - key_reads (io_log u)"
      using u(5) Suc.prems(3) by simp
    ultimately show ?thesis using Suc.IH [OF u(1)] m by (simp add: Let_def u_def [symmetric])
  next
    case (Some d)
    then have d: "d = c" "modifiers u = modifiers s" "keys_typed (modifiers s) rest = cs"
      using ty en u(3) release_bit [of sc] by (auto simp: key_typed_def Let_def mods_after_def split: if_splits)
    have "kbd_rep u [c]" using u(2) Some d(1) by simp
    moreover from this have "buffer_count u \<noteq> 0" by (simp add: kbd_rep_def)
    ultimately show ?thesis using d u(1,4) m by (simp add: Let_def u_def [symmetric] key_future_def)
  qed
qed

lemma typist_keyboard:
  assumes "plays dev scs"
  shows "typist (key_future stub scs n) (first_halt stub dev pause scs n)"
  unfolding typist_def
proof (intro conjI allI impI)
  fix s :: "'a kbd_st_scheme"
  assume rep: "kbd_rep s []" and fut: "key_future stub scs n s \<noteq> []"
  then obtain c cs where r: "kernel_ready stub s" "n \<le> irq_count (io_log s)"
    "keys_typed (modifiers s) (drop (key_reads (io_log s)) scs) = c # cs"
    by (auto simp: key_future_def neq_Nil_conv split: if_splits)
  from wait_key_types [OF assms r(1) rep refl r(2,3)]
  show "\<exists>xs. xs \<noteq> [] \<and> key_future stub scs n s = xs @ key_future stub scs n (first_halt stub dev pause scs n s) \<and>
      kbd_rep (first_halt stub dev pause scs n s) xs"
    using r by (intro exI [of _ "[c]"]) (simp add: first_halt_def key_halt_def, simp add: key_future_def)
next
  fix s :: "'a kbd_st_scheme"
  show "key_future stub scs n (snd (keyboard_getchar s)) = key_future stub scs n s"
    by (simp add: key_future_def getchar_keeps)
qed

text \<open>A round of the shell gets what was typed, and leaves the kernel ready and the processes as they were.\<close>

lemma typed_round:
  fixes s :: "'a shell_st_scheme"
  assumes ready: "waits stub s0 s" "kbd_rep s q" "\<forall>c \<in> set q. typed c" "n \<le> irq_count (io_log s)" and buf: "256 \<le> length buf"
    and keys: "plays dev scs" "sh_hlt env = first_halt stub dev pause scs n"
    and line: "line_of 255 [] (q @ keys_typed (modifiers s) (drop (key_reads (io_log s)) scs)) = Some (l, rest)"
  shows "\<exists>buf' s' q'. shell_round env buf s =
      map_option (Pair buf') (if l = [] then returns s' else shell_process_command env l s') \<and> length buf' = length buf \<and>
    waits stub s0 s' \<and> kbd_rep s' q' \<and> rest = q' @ key_future stub scs n s'"
proof -
  have ty: "typist (key_future stub scs n) (sh_hlt env)" unfolding keys(2) by (rule typist_keyboard [OF keys(1)])
  have fut: "key_future stub scs n s = keys_typed (modifiers s) (drop (key_reads (io_log s)) scs)"
    using ready(1,4) by (simp add: key_future_def waits_def)
  have t: "\<forall>c \<in> set (q @ key_future stub scs n s). typed c" using keys_typed_typed ready(3) by (auto simp: fut)
  have l: "line_of 255 [] (q @ key_future stub scs n s) = Some (l, rest)" using line by (simp add: fut)
  have k: "\<forall>s. waits stub s0 s \<longrightarrow> waits stub s0 (sh_hlt env s)" "\<forall>s. waits stub s0 s \<longrightarrow> waits stub s0 (snd (keyboard_getchar s))"
    "\<And>c. waits stub s0 (s\<lparr>con := c\<rparr>)"
    unfolding keys(2) using ready(1) by (simp_all add: waits_halt waits_getchar waits_con)
  show ?thesis using shell_round_line [where P = "waits stub s0", OF ty future_con buf ready(2) t l k] by blast
qed

section \<open>Properties\<close>

text \<open>C18 (functional, liveness): what is typed is what runs. Let the shell wait for input while somebody presses and releases
  keys and the timer ticks in between: the keyboard interrupts pass the gate, the stub and the driver, which follows the
  modifier keys; the line editor applies the backspaces; and the shell processes the line typed, the kernel still ready for the next interrupt and the processes as they were.\<close>

theorem typed_line_runs:
  fixes s :: "'a shell_st_scheme"
  assumes ready: "kernel_ready stub s" "kbd_rep s []" and buf: "256 \<le> length buf"
    and keys: "plays dev scs" "sh_hlt env = key_halt stub dev pause scs"
    and line: "line_of 255 [] (keys_typed (modifiers s) (drop (key_reads (io_log s)) scs)) = Some (l, rest)"
  shows "\<exists>buf' s'. shell_round env buf s =
      map_option (Pair buf') (if l = [] then returns s' else shell_process_command env l s') \<and>
    kernel_ready stub s' \<and> same_procs s s'"
proof -
  have h: "sh_hlt env = first_halt stub dev pause scs 0" unfolding keys(2) by (simp add: fun_eq_iff first_halt_def)
  have "waits stub s s" using ready by (auto simp: waits_def same_procs_refl)
  from typed_round [OF this ready(2) _ _ buf keys(1) h] line show ?thesis by (fastforce simp: waits_def)
qed

text \<open>Shift and h, a backspace, p, s and Enter, with the releases in between.\<close>

definition demo_keys :: "u8 list" where
  "demo_keys = [0x2A, 0x23, 0xA3, 0xAA, 0x0E, 0x8E, 0x19, 0x99, 0x1F, 0x1C]"

definition at_prompt :: shell_st where
  "at_prompt = boot_shell\<lparr>io_log := [], idt := idt (idt_init of_nat boot_shell), cpu := zero_registers\<lparr>r_esp := 0x90000\<rparr>, cpu_cs := 8,
     scheduler_enabled := False, modifiers := 0, buffer_head := 0, buffer_tail := 0, buffer_count := 0, input_enabled := True, halted := False\<rparr>"

definition key_shell :: "shell_st shell_env" where
  "key_shell = still_shell\<lparr>sh_hlt := key_halt of_nat (keyboard_of demo_keys) (\<lambda>log. length log mod 7) demo_keys\<rparr>"

lemma at_prompt_facts: "kernel_ready of_nat at_prompt" "kbd_rep at_prompt []" "io_log at_prompt = []" "modifiers at_prompt = 0"
proof -
  have "int_target 0 n at_prompt = Some (of_nat n)" if "n < 48" for n
    using idt_init_targets(2) [OF that, of of_nat boot_shell] by (simp add: at_prompt_def int_target_def split: if_splits)
  from this [of 32] this [of 33] show "kernel_ready of_nat at_prompt"
    by (simp add: kernel_ready_def) (simp add: at_prompt_def zero_registers_def)
qed (use demo_facts(5) in \<open>simp_all add: at_prompt_def kbd_rep_def\<close>)

theorem typed_line_runs_witness:
  "\<exists>buf' s'. shell_round key_shell (nul 256) at_prompt = map_option (Pair buf') (shell_process_command key_shell ''ps'' s') \<and>
    same_procs at_prompt s'"
proof -
  have t: "keys_typed 0 demo_keys = [CHR ''H'', CHR 0x08, CHR ''p'', CHR ''s'', CHR 0x0A]" unfolding demo_keys_def by code_simp
  have k: "key_reads (io_log at_prompt) = 0" by (simp add: at_prompt_facts(3) key_reads_def)
  have l: "line_of 255 [] (keys_typed (modifiers at_prompt) (drop (key_reads (io_log at_prompt)) demo_keys)) = Some (''ps'', [])"
    unfolding k at_prompt_facts(4) by (simp add: t line_of.simps)
  have h: "sh_hlt key_shell = key_halt of_nat (keyboard_of demo_keys) (\<lambda>log. length log mod 7) demo_keys" by (simp add: key_shell_def)
  have b: "256 \<le> length (nul 256)" by (simp add: nul_def)
  show ?thesis using typed_line_runs [OF at_prompt_facts(1,2) b plays_keyboard_of h l] by auto
qed

end
