(* ===== verification/Kernel_Entry.thy ===== *)
theory Kernel_Entry
  imports Typing Usermode_Demo
begin

text \<open>
  From the loader to the shell's commands: the multiboot header and the boot sector, the entry code of
  \<^verbatim>\<open>kernel_entry.asm\<close> (\<open>start_code\<close>: stack, clear of \<^verbatim>\<open>.bss\<close>, call), the boot from any memory
  (\<open>boots_ready\<close>, \<open>reaches_prompt\<close>), and what is typed at the prompt: the first line runs; the demonstration
  of the help text ends in a fault.
\<close>

section \<open>Before the kernel\<close>

text \<open>The header GRUB looks for, \<^verbatim>\<open>multiboot_header.asm\<close>: magic, flags, checksum.\<close>

definition multiboot_header :: "u32 list" where
  "multiboot_header = (let magic = 0x1BADB002; flags = 0 in [magic, flags, - (magic + flags)])"

lemma multiboot_checksum: "sum_list multiboot_header = 0"
  by (simp add: multiboot_header_def)

text \<open>The boot sector of \<^verbatim>\<open>bootloader.asm\<close>, which the image does not use: it prints its logo with the BIOS and halts. In the
  assembler's double quotes a backslash stands for itself, so that the two of the source are both printed.\<close>

definition boot_logo :: string where
  "boot_logo =
     (let bb = [CHR 0x5C, CHR 0x5C]
      in ''    _   _   _   _   _   _   _   _  '' @ [CHR 0x0A] @
         ''   '' @ concat (replicate 8 (''/ '' @ bb @ '' '')) @ [CHR 0x0A] @
         ''  ( A )e( t )h( e )r( O )S(  ) '' @ [CHR 0x0A] @
         ''   '' @ concat (replicate 8 (bb @ ''_/ '')) @ [CHR 0x0A] @
         ''          Aether OS Bootloader       '' @ [CHR 0x0A])"

text \<open>The characters sent to interrupt 0x10 for the bytes from \<^verbatim>\<open>si\<close> on; the loop ends at the zero.\<close>

fun boot_print :: "string \<Rightarrow> string" where
  "boot_print [] = []"
| "boot_print (al # bytes) =
     (if al = CHR 0x00 then []
      else if al = CHR 0x0A then [CHR 0x0D, CHR 0x0A] @ boot_print bytes
      else al # boot_print bytes)"

lemma boot_print_lines:
  assumes "CHR 0x00 \<notin> set cs"
  shows "boot_print (cs @ [CHR 0x00] @ rest) = concat (map (\<lambda>c. if c = CHR 0x0A then [CHR 0x0D, CHR 0x0A] else [c]) cs)"
  using assms by (induction cs) auto

text \<open>Fact (functional): the boot sector prints its logo, each newline as a carriage return and a newline, and no byte after it.\<close>

theorem boot_sector_prints:
  "boot_print (boot_logo @ [CHR 0x00] @ rest) = concat (map (\<lambda>c. if c = CHR 0x0A then [CHR 0x0D, CHR 0x0A] else [c]) boot_logo)"
  by (rule boot_print_lines)
    (simp add: boot_logo_def eval_nat_numeral)

section \<open>The entry code\<close>

text \<open>What the linker decides: the bounds of \<^verbatim>\<open>.bss\<close>, the top of the stack in it, and the address after the call.\<close>

record image =
  im_bss_start :: u32
  im_bss_end :: u32
  im_stack_top :: u32
  im_hang :: u32

text \<open>\<^verbatim>\<open>rep stosb\<close> with the direction flag \<open>down\<close>.\<close>

fun rep_stosb :: "nat \<Rightarrow> bool \<Rightarrow> u8 \<Rightarrow> u32 \<Rightarrow> bytemem \<Rightarrow> bytemem" where
  "rep_stosb 0 down al edi m = m"
| "rep_stosb (Suc ecx) down al edi m = rep_stosb ecx down al (if down then edi - 1 else edi + 1) (m(edi := al))"

text \<open>The static variables without an initial value, or with 0, are fields of the state: the clear sets them to zero.
  \<open>console_color\<close> and \<open>quantum_ticks\<close> are initialised data.\<close>

definition zero_statics :: "'a shell_st_scheme \<Rightarrow> 'a shell_st_scheme" where
  "zero_statics s = s\<lparr>con := (con s)\<lparr>console_row := 0, console_column := 0\<rparr>,
     system_ticks := 0, timer_frequency_hz := 0,
     heap_start := 0, heap_end := 0, total_heap_size := 0, heap_initialized := False,
     kernel_directory := 0, current_directory := 0,
     process_table := (\<lambda>_. zero_process), current_process := None, next_pid := 0, stack_allocated := (\<lambda>_. False),
     gdt := (\<lambda>_. \<lparr>limit_low = 0, base_low = 0, base_middle = 0, access = 0, granularity = 0, base_high = 0\<rparr>),
     gdt_pointer := \<lparr>tab_limit = 0, tab_base = 0\<rparr>,
     idt := (\<lambda>_. \<lparr>offset_low = 0, selector = 0, idt_zero = 0, type_attr = 0, offset_high = 0\<rparr>),
     idt_pointer := \<lparr>tab_limit = 0, tab_base = 0\<rparr>, kernel_tss := zero_tss,
     ready_queue_head := None, ready_queue_tail := None, ready_queue_count := 0, scheduler_enabled := False,
     modifiers := 0, input_buffer := nul 256, buffer_head := 0, buffer_tail := 0, buffer_count := 0, input_enabled := False,
     paging_enabled := False\<rparr>"

text \<open>The flags after \<^verbatim>\<open>xor eax, eax\<close>: ZF and PF set, CF, SF and OF clear.\<close>

definition zero_flags :: "u32 \<Rightarrow> u32" where
  "zero_flags f = (f AND NOT 0x8C5) OR 0x44"

text \<open>\<^verbatim>\<open>_start\<close> up to the first instruction of \<open>kmain\<close>. The direction flag is bit 10 of the flags.\<close>

definition start_code :: "image \<Rightarrow> 'a shell_st_scheme \<Rightarrow> 'a shell_st_scheme" where
  "start_code im s =
     (let s = s\<lparr>cpu := (cpu s)\<lparr>r_esp := im_stack_top im\<rparr>\<rparr>;
          edi = im_bss_start im;
          ecx = im_bss_end im - edi;
          s = s\<lparr>cpu := (cpu s)\<lparr>r_eax := 0, r_edi := edi, r_ecx := ecx, r_eflags := zero_flags (r_eflags (cpu s))\<rparr>\<rparr>;
          down = bit (r_eflags (cpu s)) 10;
          s = s\<lparr>mem := rep_stosb (unat ecx) down 0 edi (mem s),
                cpu := (cpu s)\<lparr>r_edi := if down then edi - ecx else edi + ecx, r_ecx := 0\<rparr>\<rparr>;
          s = (if down then s else zero_statics s)
      in push32 (im_hang im) s)"

definition start ::
    "nat \<Rightarrow> image \<Rightarrow> 'a shell_st_scheme boot_env \<Rightarrow> string \<Rightarrow> 'a shell_st_scheme \<Rightarrow> 'a shell_st_scheme run" where
  "start rounds im env command_buffer s = kmain rounds env command_buffer (start_code im s)"

lemma unat_pred: "0 < unat (x :: u32) \<Longrightarrow> unat (x - 1) = unat x - 1"
  by (simp add: unat_sub word_le_nat_alt)

lemma stosb_up:
  assumes "n < 2 ^ 32"
  shows "rep_stosb n False al e m = (\<lambda>a. if unat (a - e) < n then al else m a)"
  using assms
proof (induction n arbitrary: e m)
  case 0
  then show ?case by simp
next
  case (Suc n)
  have "unat (a - (e + 1)) = unat (a - e) - 1" "0 < unat (a - e)" if "a \<noteq> e" for a
  proof -
    show p: "0 < unat (a - e)" using that by (simp add: unat_gt_0)
    have e: "a - (e + 1) = (a - e) - 1" by simp
    show "unat (a - (e + 1)) = unat (a - e) - 1" unfolding e by (rule unat_pred [OF p])
  qed
  moreover note unat_pred_wrap [of e]
  ultimately show ?case using Suc by (fastforce simp: fun_eq_iff)
qed

lemma stosb_down:
  assumes "n < 2 ^ 32"
  shows "rep_stosb n True al e m = (\<lambda>a. if unat (e - a) < n then al else m a)"
  using assms
proof (induction n arbitrary: e m)
  case 0
  then show ?case by simp
next
  case (Suc n)
  have "unat (e - 1 - a) = unat (e - a) - 1" "0 < unat (e - a)" if "a \<noteq> e" for a
  proof -
    show p: "0 < unat (e - a)" using that by (simp add: unat_gt_0)
    have e: "e - 1 - a = (e - a) - 1" by simp
    show "unat (e - 1 - a) = unat (e - a) - 1" unfolding e by (rule unat_pred [OF p])
  qed
  moreover have "unat (e - 1 - e) = 2 ^ 32 - 1" using unat_pred_wrap [of e] by simp
  ultimately show ?case using Suc by (fastforce simp: fun_eq_iff)
qed

lemma zero_flags_down: "bit (zero_flags f) 10 = bit f 10"
  by (simp add: zero_flags_def bit_simps)


section \<open>From the entry code to the prompt\<close>

lemma start_fields:
  assumes "\<not> bit (r_eflags (cpu s)) 10"
  shows "r_esp (cpu (start_code im s)) = im_stack_top im - 4" "\<not> stack_allocated (start_code im s) i"
    "input_buffer (start_code im s) = nul 256" "system_ticks (start_code im s) = 0" "io_log (start_code im s) = io_log s"
    "halted (start_code im s) = halted s"
  using assms by (simp_all add: start_code_def Let_def push32_def zero_flags_down zero_statics_def)

lemma tables_esp: "r_esp (cpu (boot_tables env t)) = r_esp (cpu t)"
  by (simp add: boot_tables_def) (insert idt_init_shape [of "bt_stub env" "tss_init (bt_esp env) (gdt_init t)"],
    auto simp: tss_init_def Let_def tss_flush_def gdt_set_gate_def gdt_init_def gdt_flush_def kout_defs)

text \<open>The kernel is ready for interrupts when its subsystems are initialised, whatever the memory held before.\<close>

lemma boots_ready:
  assumes idle: "\<And>log. bt_dev env log KB_STATUS_PORT AND KB_STAT_OUTPUT_FULL = 0"
    and df: "\<not> bit (r_eflags (cpu s)) 10" "\<not> halted s"
    and room: "80 \<le> unat (im_stack_top im)" "unat (im_stack_top im) + 60 \<le> 2 ^ 32"
  shows "\<exists>s1. boot_subsystems env (boot_banner k (start_code im s)) = Some s1 \<and> only_idle s1 \<and>
    kernel_ready (bt_stub env) s1 \<and> kbd_rep s1 [] \<and> modifiers s1 = 0 \<and> log_counts s1 = log_counts s \<and>
    system_ticks s1 = 0 \<and> timer_frequency_hz s1 = 100"
proof -
  note st = start_fields [where im = im, OF df(1)]
  obtain c where c: "boot_banner k (start_code im s) = (start_code im s)\<lparr>con := c\<rparr>" using report_shape(3) by blast
  define b where "b = (start_code im s)\<lparr>con := c\<rparr>"
  define b1 where "b1 = kinfo ''Phase 1: Kernel Foundation Initialization'' [] b"
  obtain s0 s1 where r: "boot_subsystems env b = Some s1" "s0 = boot_tables env b1"
    "same_tables s0 s1" "idt s1 = idt (idt_set_gate 0x80 (bt_syscall_wrapper env) 0x08 0xEE s0)"
    "\<not> scheduler_enabled s1" "timer_frequency_hz s1 = 100" "system_ticks s1 = system_ticks b" "modifiers s1 = 0"
    "buffer_head s1 = 0" "buffer_tail s1 = 0" "buffer_count s1 = 0" "input_enabled s1" "input_buffer s1 = input_buffer b"
    "log_counts s1 = log_counts b" "halted s1 = halted b"
    using boot_subsystems_result [of env b, OF idle] unfolding b1_def [symmetric] by blast
  have b: "stack_allocated b i = False" "input_buffer b = nul 256" "system_ticks b = 0" "log_counts b = log_counts s"
    "r_esp (cpu b1) = im_stack_top im - 4" "halted b = halted s" for i
    using st by (simp_all add: b_def b1_def log_counts_def kinfo_def)
  have "only_idle s1" using subsystems_idle [OF idle r(1)] b(1) by simp
  moreover have "kbd_rep s1 []" using r(9-13) b(2) by (simp add: kbd_rep_def nul_def)
  moreover have "kernel_ready (bt_stub env) s1"
  proof -
    have "idt s1 = idt (idt_set_gate 0x80 (bt_syscall_wrapper env) 0x08 0xEE
        (idt_init (bt_stub env) (tss_init (bt_esp env) (gdt_init b1))))"
      using r(2,4) by (simp add: boot_tables_def)
    note g = boot_gates(1) [OF this]
    have "cpu_cs s1 = 8" "r_esp (cpu s1) = im_stack_top im - 4"
      using r(2,3) b(5) by (simp_all add: same_tables_def boot_tables_gdt tables_esp)
    moreover have "unat (im_stack_top im - 4) = unat (im_stack_top im) - 4" using room by (simp add: unat_sub word_le_nat_alt)
    ultimately show ?thesis using g [of 32] g [of 33] r(5,12,15) room b(6) df(2) by (simp add: kernel_ready_def)
  qed
  ultimately show ?thesis using r b by (intro exI [of _ s1]) (simp add: c b_def [symmetric])
qed

text \<open>The half second before the prompt: 50 ticks.\<close>

lemma sleep_ticks:
  fixes s :: "'a kbd_st_scheme"
  assumes hlt: "hlt = first_halt stub dev pause scs m"
  shows "kernel_ready stub s \<Longrightarrow> irq_count (io_log s) + n \<le> m \<Longrightarrow> unat target = unat (system_ticks s) + n \<Longrightarrow>
    timer_sleep_loop hlt target s = Some ((serve stub dev 32 ^^ n) s)"
proof (induction n arbitrary: s)
  case 0
  then show ?case by (subst timer_sleep_loop.simps) (simp add: word_less_nat_alt)
next
  case (Suc n)
  note t = tick_served [OF Suc.prems(1), of dev]
  have "unat (system_ticks s) + 1 < 2 ^ 32" using Suc.prems(3) unat_lt32 [of target] by simp
  then have "unat (system_ticks s + 1) = unat (system_ticks s) + 1" by (simp add: unat_plus_no_wrap)
  then have "timer_sleep_loop hlt target (serve stub dev 32 s) = Some ((serve stub dev 32 ^^ n) (serve stub dev 32 s))"
    using Suc.IH [OF t(1)] Suc.prems(2,3) t(5,6) by simp
  moreover have "hlt s = serve stub dev 32 s" using Suc.prems(2) by (simp add: hlt first_halt_def)
  ultimately show ?case
    using Suc.prems(3) by (subst timer_sleep_loop.simps) (simp add: word_less_nat_alt funpow_swap1)
qed

lemma sleep_500ms:
  fixes s :: "'a kbd_st_scheme"
  assumes "kernel_ready stub s" "irq_count (io_log s) + 50 \<le> m" "system_ticks s = 0" "timer_frequency_hz s = 100"
  shows "timer_sleep_ms (first_halt stub dev pause scs m) 500 s = Some ((serve stub dev 32 ^^ 50) s)"
  using sleep_ticks [where n = 50 and dev = dev and target = 50, OF refl assms(1,2)] assms(3,4)
  by (simp add: timer_sleep_ms_def timer_sleep_ticks_def sleep_ticks_of_ms_def Let_def)

text \<open>At the prompt: nothing has been read from the keyboard yet, only the idle process exists.\<close>

lemma reaches_prompt:
  fixes s :: "'a shell_st_scheme"
  assumes idle: "\<And>log. bt_dev env log KB_STATUS_PORT AND KB_STAT_OUTPUT_FULL = 0"
    and df: "\<not> bit (r_eflags (cpu s)) 10" "\<not> halted s"
    and room: "80 \<le> unat (im_stack_top im)" "unat (im_stack_top im) + 60 \<le> 2 ^ 32"
    and hlt: "sh_hlt (bt_shell env) = first_halt (bt_stub env) (bt_dev env) pause scs (irq_count (io_log s) + 50)"
  shows "\<exists>s'. start rounds im env buf s = shell_run rounds (bt_shell env) buf s' \<and> kernel_ready (bt_stub env) s' \<and>
    kbd_rep s' [] \<and> only_idle s' \<and> modifiers s' = 0 \<and> key_reads (io_log s') = key_reads (io_log s) \<and>
    irq_count (io_log s') = irq_count (io_log s) + 50"
proof -
  let ?stub = "bt_stub env"
  obtain s1 where s1: "boot_subsystems env (boot_banner (bt_kmain env) (start_code im s)) = Some s1" "only_idle s1"
    "kernel_ready ?stub s1" "kbd_rep s1 []" "modifiers s1 = 0" "log_counts s1 = log_counts s" "system_ticks s1 = 0"
    "timer_frequency_hz s1 = 100" using boots_ready [OF idle df room] by blast
  obtain c where c: "boot_report s1 = s1\<lparr>con := c\<rparr>" using report_shape(1) by blast
  define s2 where "s2 = s1\<lparr>con := c\<rparr>"
  have s2: "only_idle s2" "kernel_ready ?stub s2" "kbd_rep s2 []" "modifiers s2 = 0" "log_counts s2 = log_counts s"
    "system_ticks s2 = 0" "timer_frequency_hz s2 = 100"
    using s1 ready_cong [of s2 s1 ?stub] by (simp_all add: s2_def kbd_rep_def)
  have log: "irq_count (io_log s2) = irq_count (io_log s)" "key_reads (io_log s2) = key_reads (io_log s)"
    using s2(5) by (simp_all add: log_counts_def)
  define s3 where "s3 = (serve ?stub (bt_dev env) 32 ^^ 50) s2"
  have "timer_sleep_ms (sh_hlt (bt_shell env)) 500 s2 = Some s3"
    unfolding hlt s3_def by (rule sleep_500ms) (use s2 log in simp_all)
  moreover obtain c' where c': "shell_init s3 = s3\<lparr>con := c'\<rparr>" using report_shape(2) by blast
  ultimately have b: "boot env (start_code im s) = Some (s3\<lparr>con := c'\<rparr>)"
    by (simp add: boot_def s1(1) c s2_def [symmetric])
  have s3: "kernel_ready ?stub s3" "same_ring s2 s3" "modifiers s3 = modifiers s2" "key_reads (io_log s3) = key_reads (io_log s2)"
    "irq_count (io_log s3) = irq_count (io_log s2) + 50" "same_procs s2 s3"
    using ticks_pass [where dev = "bt_dev env" and k = 50, OF s2(2)] by (simp_all add: s3_def)
  have "scheduler_enabled s3 = scheduler_enabled s2" using s3(1) s2(2) by (simp add: kernel_ready_def)
  then have "only_idle s3" using only_idle_same [OF s3(6)] s2(1) by simp
  moreover have "kbd_rep s3 []" using s3(2) s2(3) same_ring_rep by blast
  moreover have "kernel_ready ?stub (s3\<lparr>con := c'\<rparr>)" using s3(1) ready_cong [of "s3\<lparr>con := c'\<rparr>" s3 ?stub] by simp
  ultimately show ?thesis
    using s3 s2(4) log by (intro exI [of _ "s3\<lparr>con := c'\<rparr>"]) (simp add: start_def kmain_def b kbd_rep_def)
qed

section \<open>The first line typed\<close>

text \<open>The shell's loop after a command.\<close>

definition shell_goes_on ::
    "nat \<Rightarrow> 'a shell_st_scheme shell_env \<Rightarrow> string \<Rightarrow> 'a shell_st_scheme run \<Rightarrow> 'a shell_st_scheme run" where
  "shell_goes_on rounds env buf r =
     (case r of
        Some (Inr (switched, s)) \<Rightarrow> if switched \<or> halted s then r else shell_run rounds env buf s
      | _ \<Rightarrow> r)"

lemma round_goes_on:
  assumes "shell_round env buf s = map_option (Pair buf') r"
  shows "shell_run (Suc rounds) env buf s = shell_goes_on rounds env buf' r"
  using assms by (simp add: shell_goes_on_def returns_def split: option.splits sum.splits prod.splits)

lemma line_of_rest: "line_of n l cs = Some (l', rest) \<Longrightarrow> set rest \<subseteq> set cs"
  by (induction n l cs rule: line_of.induct) (subst (asm) line_of.simps, auto split: if_splits list.splits)

text \<open>A line typed at the prompt, before anything else has been read, and what is known when its command starts.\<close>

lemma first_line:
  fixes s :: "'a shell_st_scheme"
  assumes idle: "\<And>log. bt_dev env log KB_STATUS_PORT AND KB_STAT_OUTPUT_FULL = 0"
    and df: "\<not> bit (r_eflags (cpu s)) 10" "\<not> halted s"
    and room: "80 \<le> unat (im_stack_top im)" "unat (im_stack_top im) + 60 \<le> 2 ^ 32" and buf: "256 \<le> length buf"
    and hlt: "sh_hlt (bt_shell env) = first_halt (bt_stub env) (bt_dev env) pause scs (irq_count (io_log s) + 50)"
    and keys: "plays (bt_dev env) scs" "line_of 255 [] (keys_typed 0 (drop (key_reads (io_log s)) scs)) = Some (l, rest)"
  shows "\<exists>buf' s' q. start (Suc rounds) im env buf s = shell_goes_on rounds (bt_shell env) buf'
        (if l = [] then returns s' else shell_process_command (bt_shell env) l s') \<and> length buf' = length buf \<and>
    only_idle s' \<and> waits (bt_stub env) s' s' \<and> kbd_rep s' q \<and> (\<forall>c \<in> set q. typed c) \<and>
    irq_count (io_log s) + 50 \<le> irq_count (io_log s') \<and> rest = q @ keys_typed (modifiers s') (drop (key_reads (io_log s')) scs)"
proof -
  let ?m = "irq_count (io_log s) + 50"
  obtain s1 where s1: "start (Suc rounds) im env buf s = shell_run (Suc rounds) (bt_shell env) buf s1" "kernel_ready (bt_stub env) s1"
    "kbd_rep s1 []" "only_idle s1" "modifiers s1 = 0" "key_reads (io_log s1) = key_reads (io_log s)" "irq_count (io_log s1) = ?m"
    using reaches_prompt [OF idle df room hlt, of "Suc rounds"] by blast
  have w: "waits (bt_stub env) s1 s1" using s1(2,3) by (auto simp: waits_def same_procs_refl)
  have n: "?m \<le> irq_count (io_log s1)" and l: "line_of 255 [] ([] @ keys_typed (modifiers s1) (drop (key_reads (io_log s1)) scs)) = Some (l, rest)"
    using s1(5-7) keys(2) by simp_all
  obtain buf' s' q where r: "shell_round (bt_shell env) buf s1 =
      map_option (Pair buf') (if l = [] then returns s' else shell_process_command (bt_shell env) l s')" "length buf' = length buf"
    "waits (bt_stub env) s1 s'" "kbd_rep s' q" "rest = q @ key_future (bt_stub env) scs ?m s'"
    using typed_round [OF w s1(3) _ n buf keys(1) hlt l] by auto
  have w': "kernel_ready (bt_stub env) s'" "same_procs s1 s'" "?m \<le> irq_count (io_log s')" using r(3) n by (auto simp: waits_def)
  have "scheduler_enabled s' = scheduler_enabled s1" using w'(1) s1(2) by (simp add: kernel_ready_def)
  then have "only_idle s'" using only_idle_same [OF w'(2)] s1(4) by simp
  moreover have "waits (bt_stub env) s' s'" using w'(1) r(4) by (auto simp: waits_def same_procs_refl)
  moreover have "\<forall>c \<in> set q. typed c"
    using line_of_rest [OF l] keys_typed_typed by (fastforce simp: r(5))
  moreover have "key_future (bt_stub env) scs ?m s' = keys_typed (modifiers s') (drop (key_reads (io_log s')) scs)"
    using w'(1,3) by (simp add: key_future_def)
  ultimately show ?thesis using round_goes_on [OF r(1)] s1(1) r(2,4,5) w'(3) by metis
qed

text \<open>C3 (liveness, functional): from the entry code to the first command. With the direction flag clear, a stack, and no key
  pending at the keyboard, \<^verbatim>\<open>_start\<close> on any memory clears the static variables, boots, waits its half second
  of ticks, prints the prompt and runs the line typed then, whatever the keys, the pauses between them and the
  ticks in between; when the command starts, only the idle process exists and the kernel is ready for interrupts.\<close>

theorem start_runs_typed_line:
  fixes s :: "'a shell_st_scheme"
  assumes idle: "\<And>log. bt_dev env log KB_STATUS_PORT AND KB_STAT_OUTPUT_FULL = 0"
    and df: "\<not> bit (r_eflags (cpu s)) 10" "\<not> halted s"
    and room: "80 \<le> unat (im_stack_top im)" "unat (im_stack_top im) + 60 \<le> 2 ^ 32" and buf: "256 \<le> length buf"
    and hlt: "sh_hlt (bt_shell env) = first_halt (bt_stub env) (bt_dev env) pause scs (irq_count (io_log s) + 50)"
    and keys: "plays (bt_dev env) scs" "line_of 255 [] (keys_typed 0 (drop (key_reads (io_log s)) scs)) = Some (l, rest)"
  shows "\<exists>buf' s'. start (Suc rounds) im env buf s = shell_goes_on rounds (bt_shell env) buf'
        (if l = [] then returns s' else shell_process_command (bt_shell env) l s') \<and>
    only_idle s' \<and> kernel_ready (bt_stub env) s'"
  using first_line [OF idle df room buf hlt keys, of rounds] unfolding waits_def by blast

text \<open>A machine as the loader leaves it, and somebody who types \<open>demo_keys\<close>.\<close>

definition demo_image :: image where
  "demo_image = \<lparr>im_bss_start = 0x108000, im_bss_end = 0x220000, im_stack_top = 0x10A000, im_hang = 0x101020\<rparr>"

definition reset_state :: shell_st where
  "reset_state = at_prompt\<lparr>stack_allocated := (\<lambda>_. True), scheduler_enabled := True, modifiers := 7, idt := (\<lambda>_. undefined)\<rparr>"

definition reset_env :: "u8 list \<Rightarrow> shell_st boot_env" where
  "reset_env scs = demo_env\<lparr>bt_dev := keyboard_of scs, bt_shell := (bt_shell demo_env)\<lparr>sh_hlt :=
     first_halt of_nat (keyboard_of scs) (\<lambda>log. length log mod 7) scs 50\<rparr>\<rparr>"

lemma reset_facts:
  "bt_dev (reset_env scs) log KB_STATUS_PORT AND KB_STAT_OUTPUT_FULL = 0" "plays (bt_dev (reset_env scs)) scs"
  "\<not> bit (r_eflags (cpu reset_state)) 10" "\<not> halted reset_state" "80 \<le> unat (im_stack_top demo_image)"
  "unat (im_stack_top demo_image) + 60 \<le> 2 ^ 32" "256 \<le> length (nul 256)" "io_log reset_state = []"
  "sh_hlt (bt_shell (reset_env scs)) =
     first_halt (bt_stub (reset_env scs)) (bt_dev (reset_env scs)) (\<lambda>log. length log mod 7) scs (irq_count (io_log reset_state) + 50)"
  by (simp_all add: reset_env_def reset_state_def demo_env_def demo_image_def at_prompt_def zero_registers_def plays_keyboard_of
      nul_def irq_count_def) (simp add: keyboard_of_def KB_STATUS_PORT_def KB_DATA_PORT_def)

theorem start_runs_typed_line_witness:
  "\<exists>buf s. start 1 demo_image (reset_env demo_keys) (nul 256) reset_state =
      shell_goes_on 0 (bt_shell (reset_env demo_keys)) buf (shell_process_command (bt_shell (reset_env demo_keys)) ''ps'' s) \<and>
    only_idle s"
proof -
  have t: "keys_typed 0 demo_keys = [CHR ''H'', CHR 0x08, CHR ''p'', CHR ''s'', CHR 0x0A]" unfolding demo_keys_def by code_simp
  have "line_of 255 [] (keys_typed 0 (drop (key_reads (io_log reset_state)) demo_keys)) = Some (''ps'', [])"
    by (simp add: reset_facts key_reads_def t line_of.simps)
  from start_runs_typed_line [OF reset_facts(1,3-7,9,2) this, of 0] show ?thesis by auto
qed

section \<open>Two lines, and the next tick\<close>

text \<open>Processes created and queued: the kernel is as ready as before.\<close>

lemma waits_proc_step:
  assumes "proc_step s t" "waits stub s s"
  shows "waits stub t t" "modifiers t = modifiers s" "io_log t = io_log s" "kbd_rep t q = kbd_rep s q"
proof -
  have f: "cpu_cs t = cpu_cs s" "idt t = idt s" "cpu t = cpu s" "input_enabled t = input_enabled s" "scheduler_enabled t = scheduler_enabled s"
    "halted t = halted s" "input_buffer t = input_buffer s" "buffer_head t = buffer_head s" "buffer_tail t = buffer_tail s"
    "buffer_count t = buffer_count s" "modifiers t = modifiers s" "io_log t = io_log s"
    using assms(1) by (auto simp: proc_step_def)
  have q: "kbd_rep t q = kbd_rep s q" for q by (simp add: kbd_rep_def f)
  show "waits stub t t" using assms(2) ready_cong [where stub = stub, OF f(1-6)] by (simp add: waits_def q same_procs_refl)
  show "modifiers t = modifiers s" "io_log t = io_log s" "kbd_rep t q = kbd_rep s q" by (simp_all add: f q)
qed

lemma two_commands:
  "shell_process_command env ''ps create'' s = returns (cmd_ps env (Some ''create'') s)"
  "shell_process_command env ''sched start'' s = cmd_sched (Some ''start'') s"
  by (simp_all add: shell_process_command_def skip_white_def Let_def is_command_def eval_nat_numeral)

lemma ps_create_step: "proc_step s (cmd_ps env (Some ''create'') s)"
  by (simp add: ps_create_command ps_create_one_def Let_def case_prod_beta split: option.split)

lemma interrupt_faults:
  fixes s :: "'a kbd_st_scheme"
  assumes cs: "cpu_cs s = 8" and gate: "int_target 0 32 s = Some (stub 32)"
    and room: "76 \<le> unat (r_esp (cpu s))" "unat (r_esp (cpu s)) + 64 \<le> 2 ^ 32"
    and h: "timer_handler (entered 32 s) = Inl vector"
  shows "interrupt stub dev 32 s = Some (Inl vector)"
proof -
  have "r_esp (cpu (irq_stub_entry 32 (enter_gate 32 s))) = r_esp (cpu s) - 56"
    by (simp add: irq_entry_effect enter_ring0 [OF cs])
  then show ?thesis
    using gate int_no_entered [OF cs room, of 32] h
    by (simp add: interrupt_def irq_stub_def Let_def irq_handler_def entered_def [symmetric]) (simp add: entered_def)
qed

lemma typed_twice:
  "line_of 255 [] (''ps create'' @ [CHR 0x0A] @ r) = Some (''ps create'', r)"
  "line_of 255 [] (''sched start'' @ [CHR 0x0A] @ r) = Some (''sched start'', r)"
  by (simp_all add: line_of.simps)

text \<open>C21 (error, liveness): the demonstration the shell offers, typed at the keyboard of a machine that starts: \<open>ps create\<close>
  and \<open>sched start\<close> run, and the next interrupt of the timer, through the gate and the stub, is a general
  protection fault.\<close>

theorem typed_demonstration_faults:
  fixes s :: "'a shell_st_scheme"
  assumes idle: "\<And>log. bt_dev env log KB_STATUS_PORT AND KB_STAT_OUTPUT_FULL = 0"
    and df: "\<not> bit (r_eflags (cpu s)) 10" "\<not> halted s"
    and room: "80 \<le> unat (im_stack_top im)" "unat (im_stack_top im) + 60 \<le> 2 ^ 32" and buf: "256 \<le> length buf"
    and hlt: "sh_hlt (bt_shell env) = first_halt (bt_stub env) (bt_dev env) pause scs (irq_count (io_log s) + 50)"
    and keys: "plays (bt_dev env) scs"
      "keys_typed 0 (drop (key_reads (io_log s)) scs) = ''ps create'' @ [CHR 0x0A] @ ''sched start'' @ [CHR 0x0A]"
  shows "\<exists>s'. start 2 im env buf s = returns s' \<and> interrupt (bt_stub env) (bt_dev env) 32 s' = Some (Inl 13)"
proof -
  let ?env = "bt_shell env"
  have l1: "line_of 255 [] (keys_typed 0 (drop (key_reads (io_log s)) scs)) = Some (''ps create'', ''sched start'' @ [CHR 0x0A])"
    unfolding keys(2) by (rule typed_twice)
  obtain buf1 s1 q where f: "start 2 im env buf s = shell_goes_on 1 ?env buf1 (shell_process_command ?env ''ps create'' s1)"
    "length buf1 = length buf" "only_idle s1" "waits (bt_stub env) s1 s1" "kbd_rep s1 q" "\<forall>c \<in> set q. typed c"
    "irq_count (io_log s) + 50 \<le> irq_count (io_log s1)"
    "''sched start'' @ [CHR 0x0A] = q @ keys_typed (modifiers s1) (drop (key_reads (io_log s1)) scs)"
    using first_line [OF idle df room buf hlt keys(1) l1, of 1] unfolding Suc_1 by (auto simp del: append.simps)
  define t where "t = cmd_ps ?env (Some ''create'') s1"
  note p = ps_create_result [OF f(3), of ?env, folded t_def]
  note w = waits_proc_step [OF ps_create_step [of s1 ?env, folded t_def] f(4)]
  have q: "kbd_rep t q" "irq_count (io_log s) + 50 \<le> irq_count (io_log t)" "256 \<le> length buf1"
    "line_of 255 [] (q @ keys_typed (modifiers t) (drop (key_reads (io_log t)) scs)) = Some (''sched start'', [])"
    using f(2,5,7) w buf typed_twice(2) [of "[]"] by (simp_all add: f(8) [symmetric])
  obtain buf2 t2 where r: "shell_round ?env buf1 t = map_option (Pair buf2) (shell_process_command ?env ''sched start'' t2)"
    "waits (bt_stub env) t t2"
    using typed_round [OF w(1) q(1) f(6) q(2,3) keys(1) hlt q(4)] by auto
  have t2: "kernel_ready (bt_stub env) t2" "same_procs t t2" using r(2) by (simp_all add: waits_def)
  then obtain c where c: "cmd_sched (Some ''start'') t2 = returns (t2\<lparr>scheduler_enabled := True, con := c\<rparr>)"
    using sched_start [of t2] by (auto simp: kernel_ready_def)
  define u where "u = t2\<lparr>scheduler_enabled := True, con := c\<rparr>"
  have h: "\<not> halted t" "\<not> halted u" using w(1) t2(1) by (simp_all add: waits_def kernel_ready_def u_def)
  have "start 2 im env buf s = shell_run (Suc 0) ?env buf1 t"
    using h(1) by (simp add: f(1) two_commands t_def [symmetric] shell_goes_on_def returns_def)
  also have "\<dots> = shell_goes_on 0 ?env buf2 (returns u)"
    using round_goes_on [OF r(1), of 0] by (simp add: two_commands c u_def)
  also have "\<dots> = returns u" using h(2) by (simp add: shell_goes_on_def returns_def)
  finally have run: "start 2 im env buf s = returns u" .
  have pu: "same_procs t (entered 32 u)"
    by (rule same_procs_trans [OF t2(2) same_procs_trans [OF _ entered_procs(1)]]) (simp add: same_procs_def u_def)
  have "timer_handler (entered 32 u) = Inl 13"
    by (rule null_processes_fault) (use p same_procs_sys [OF pu] pu in \<open>simp_all add: entered_keeps(5) u_def same_procs_def\<close>)
  moreover have "int_target 0 32 u = int_target 0 32 t2" by (rule target_cong) (simp add: u_def)
  then have "cpu_cs u = 8" "int_target 0 32 u = Some (bt_stub env 32)" "76 \<le> unat (r_esp (cpu u))" "unat (r_esp (cpu u)) + 64 \<le> 2 ^ 32"
    using t2(1) by (simp_all add: kernel_ready_def u_def)
  ultimately have "interrupt (bt_stub env) (bt_dev env) 32 u = Some (Inl 13)" by (intro interrupt_faults)
  then show ?thesis using run by blast
qed

text \<open>The two commands, key by key, each pressed and released.\<close>

definition crash_keys :: "u8 list" where
  "crash_keys = concat (map (\<lambda>sc. [sc, sc OR 0x80])
     [0x19, 0x1F, 0x39, 0x2E, 0x13, 0x12, 0x1E, 0x14, 0x12, 0x1C,
      0x1F, 0x2E, 0x23, 0x12, 0x20, 0x39, 0x1F, 0x14, 0x1E, 0x13, 0x14, 0x1C])"

theorem typed_demonstration_faults_witness:
  "\<exists>s. start 2 demo_image (reset_env crash_keys) (nul 256) reset_state = returns s \<and>
    interrupt (bt_stub (reset_env crash_keys)) (bt_dev (reset_env crash_keys)) 32 s = Some (Inl 13)"
proof -
  have t: "keys_typed 0 crash_keys = ''ps create'' @ [CHR 0x0A] @ ''sched start'' @ [CHR 0x0A]" unfolding crash_keys_def by code_simp
  have "keys_typed 0 (drop (key_reads (io_log reset_state)) crash_keys) = ''ps create'' @ [CHR 0x0A] @ ''sched start'' @ [CHR 0x0A]"
    by (simp only: reset_facts key_reads_def list.size filter.simps drop_0 t)
  from typed_demonstration_faults [OF reset_facts(1,3-7,9,2) this] show ?thesis .
qed

end
