(* ===== verification/User_Entry.thy ===== *)
theory User_Entry
  imports Exceptions
begin

text \<open>
  The routines of \<^verbatim>\<open>src/kernel/user_mode_enter.asm\<close>, which nothing in the kernel calls: \<open>enter_user_mode\<close> does
  what its declaration promises; \<open>return_to_user_mode\<close> takes the words of its frame from the wrong places of the
  structure it is given.
\<close>

section \<open>The three routines\<close>

text \<open>\<^verbatim>\<open>mov ax, v\<close>.\<close>

definition mov_ax :: "u32 \<Rightarrow> 'a desc_st_scheme \<Rightarrow> 'a desc_st_scheme" where
  "mov_ax v s = s\<lparr>cpu := (cpu s)\<lparr>r_eax := (r_eax (cpu s) AND 0xFFFF0000) OR (v AND 0xFFFF)\<rparr>\<rparr>"

text \<open>\<open>enter_user_mode\<close> up to its \<^verbatim>\<open>iret\<close>; the word on top of the stack is the return address. The arithmetic flags
  \<^verbatim>\<open>or\<close> sets are those \<^verbatim>\<open>iret\<close> overwrites.\<close>

definition user_frame :: "'a desc_st_scheme \<Rightarrow> 'a desc_st_scheme" where
  "user_frame s =
     (let s = s\<lparr>interrupt_flag := False\<rparr>;
          s = s\<lparr>cpu := (cpu s)\<lparr>r_eax := stack_word 4 s, r_ebx := stack_word 8 s\<rparr>\<rparr>;
          s = load_data_segments 0x23 (mov_ax 0x23 s);
          s = s\<lparr>cpu := (cpu s)\<lparr>r_eax := stack_word 8 s\<rparr>\<rparr>;
          s = push32 0x23 s;
          s = push32 (r_eax (cpu s)) s;
          s = push32 (r_eflags (cpu s)) s;
          s = drop_stack 4 (s\<lparr>cpu := (cpu s)\<lparr>r_eax := stack_word 0 s\<rparr>\<rparr>);
          s = s\<lparr>cpu := (cpu s)\<lparr>r_eax := r_eax (cpu s) OR 0x200\<rparr>\<rparr>;
          s = push32 (r_eax (cpu s)) s;
          s = push32 0x1B s;
          s = s\<lparr>cpu := (cpu s)\<lparr>r_eax := stack_word 20 s\<rparr>\<rparr>
      in push32 (r_eax (cpu s)) s)"

definition enter_user_mode :: "'a desc_st_scheme \<Rightarrow> 'a desc_st_scheme" where
  "enter_user_mode s = interrupt_return (user_frame s)"

text \<open>\<open>return_to_user_mode\<close> up to its \<^verbatim>\<open>iret\<close>.\<close>

definition return_frame :: "'a desc_st_scheme \<Rightarrow> 'a desc_st_scheme" where
  "return_frame s =
     (let s = s\<lparr>cpu := (cpu s)\<lparr>r_ebp := stack_word 4 s\<rparr>\<rparr>;
          s = load_data_segments 0x23 (mov_ax 0x23 s);
          ebp = r_ebp (cpu s);
          s = s\<lparr>cpu := (cpu s)\<lparr>r_eax := read32 (mem s) (ebp + 0), r_ebx := read32 (mem s) (ebp + 4),
                r_ecx := read32 (mem s) (ebp + 8), r_edx := read32 (mem s) (ebp + 12),
                r_esi := read32 (mem s) (ebp + 16), r_edi := read32 (mem s) (ebp + 20)\<rparr>\<rparr>;
          s = push32 (read32 (mem s) (ebp + 40)) s;
          s = push32 (read32 (mem s) (ebp + 32)) s;
          s = push32 (read32 (mem s) (ebp + 36)) s;
          s = push32 (read32 (mem s) (ebp + 44)) s;
          s = push32 (read32 (mem s) (ebp + 28)) s
      in s\<lparr>cpu := (cpu s)\<lparr>r_ebp := read32 (mem s) (ebp + 24)\<rparr>\<rparr>)"

definition return_to_user_mode :: "'a desc_st_scheme \<Rightarrow> 'a desc_st_scheme" where
  "return_to_user_mode s = interrupt_return (return_frame s)"

definition get_cpl :: "'a desc_st_scheme \<Rightarrow> u32 \<times> 'a desc_st_scheme" where
  "get_cpl s =
     (let s = mov_ax (cpu_cs s) s;
          s = mov_ax (r_eax (cpu s) AND 3) s;
          s = s\<lparr>cpu := (cpu s)\<lparr>r_eax := r_eax (cpu s) AND 0xFFFF\<rparr>\<rparr>
      in (r_eax (cpu s), s))"

text \<open>The structure \<^verbatim>\<open>registers_t\<close> of \<^verbatim>\<open>process.h\<close> in memory.\<close>

definition registers_at :: "bytemem \<Rightarrow> u32 \<Rightarrow> registers_t" where
  "registers_at m a = \<lparr>r_eax = read32 m a, r_ebx = read32 m (a + 4), r_ecx = read32 m (a + 8), r_edx = read32 m (a + 12),
     r_esi = read32 m (a + 16), r_edi = read32 m (a + 20), r_ebp = read32 m (a + 24), r_esp = read32 m (a + 28),
     r_ds = read32 m (a + 32), r_es = read32 m (a + 36), r_fs = read32 m (a + 40), r_gs = read32 m (a + 44),
     r_ss = read32 m (a + 48), r_eip = read32 m (a + 52), r_eflags = read32 m (a + 56), r_cr3 = read32 m (a + 60)\<rparr>"

section \<open>What they do\<close>

text \<open>Fact (functional): \<open>enter_user_mode\<close> continues in ring 3 at its first argument, on the stack its second argument
  gives, with the user segments in the segment registers and interrupts on.\<close>

theorem enter_user_mode_enters:
  fixes s :: "'a desc_st_scheme"
  assumes "20 \<le> unat (r_esp (cpu s))" "unat (r_esp (cpu s)) + 12 \<le> 2 ^ 32"
  shows "cpu_cs (enter_user_mode s) = 0x1B" "r_eip (cpu (enter_user_mode s)) = stack_word 4 s"
    "r_esp (cpu (enter_user_mode s)) = stack_word 8 s" "r_ss (cpu (enter_user_mode s)) = 0x23"
    "r_ds (cpu (enter_user_mode s)) = 0x23" "r_es (cpu (enter_user_mode s)) = 0x23"
    "r_eflags (cpu (enter_user_mode s)) = r_eflags (cpu s) OR 0x200" "interrupt_flag (enter_user_mode s)"
proof -
  define e where "e = r_esp (cpu s)"
  define m where "m = write32 (write32 (write32 (write32 (write32 (write32 (mem s) (e - 4) 0x23) (e - 8) (stack_word 8 s))
    (e - 12) (r_eflags (cpu s))) (e - 12) (r_eflags (cpu s) OR 0x200)) (e - 16) 0x1B) (e - 20) (stack_word 4 s)"
  have a: "apart 4 (e - k) 4 (e + 4)" "apart 4 (e - k) 4 (e + 8)" if "4 \<le> unat k" "unat k \<le> 20" for k
    using assms that by (auto intro: apart_above simp: e_def)
  have "mem (user_frame s) = m" "r_esp (cpu (user_frame s)) = e - 20"
    using a by (simp_all add: user_frame_def Let_def push32_def drop_stack_def load_data_segments_def mov_ax_def stack_word_def
        e_def [symmetric] m_def add.commute [of 4 e])
  moreover have "read32 m (e - 20) = stack_word 4 s" "read32 m (e - 16) = 0x1B" "read32 m (e - 12) = r_eflags (cpu s) OR 0x200"
    "read32 m (e - 8) = stack_word 8 s" "read32 m (e - 4) = 0x23"
    using assms by (simp_all add: m_def apart_below e_def)
  moreover have "e - 20 + 4 = e - 16" "e - 20 + 8 = e - 12" "e - 20 + 12 = e - 8" "e - 20 + 16 = e - 4" by simp_all
  ultimately have w: "stack_word 0 (user_frame s) = stack_word 4 s" "stack_word 4 (user_frame s) = 0x1B"
    "stack_word 8 (user_frame s) = r_eflags (cpu s) OR 0x200" "stack_word 12 (user_frame s) = stack_word 8 s"
    "stack_word 16 (user_frame s) = 0x23" by (simp_all add: stack_word_def)
  have seg: "r_ds (cpu (user_frame s)) = 0x23" "r_es (cpu (user_frame s)) = 0x23"
    by (simp_all add: user_frame_def Let_def push32_def drop_stack_def load_data_segments_def mov_ax_def)
  show "cpu_cs (enter_user_mode s) = 0x1B" "r_eip (cpu (enter_user_mode s)) = stack_word 4 s"
    "r_esp (cpu (enter_user_mode s)) = stack_word 8 s" "r_ss (cpu (enter_user_mode s)) = 0x23"
    "r_ds (cpu (enter_user_mode s)) = 0x23" "r_es (cpu (enter_user_mode s)) = 0x23"
    "r_eflags (cpu (enter_user_mode s)) = r_eflags (cpu s) OR 0x200" "interrupt_flag (enter_user_mode s)"
    by (simp_all add: enter_user_mode_def interrupt_return_def Let_def w seg) (simp add: bit_simps)
qed

text \<open>Fact (functional): \<open>return_to_user_mode\<close> restores the general registers of the structure it is given, and then
  returns with its ESP as instruction pointer, its GS as code segment, its ES as flags, its DS as stack pointer and its FS
  as stack segment.\<close>

theorem return_frame_words:
  fixes s :: "'a desc_st_scheme"
  assumes "20 \<le> unat (r_esp (cpu s))" "unat (r_esp (cpu s)) \<le> unat (stack_word 4 s)" "unat (stack_word 4 s) + 64 \<le> 2 ^ 32"
  defines "regs \<equiv> registers_at (mem s) (stack_word 4 s)" and "t \<equiv> return_frame s"
  shows "r_eax (cpu t) = r_eax regs" "r_edi (cpu t) = r_edi regs" "r_ebp (cpu t) = r_ebp regs"
    "stack_word 0 t = r_esp regs" "stack_word 4 t = r_gs regs" "stack_word 8 t = r_es regs" "stack_word 12 t = r_ds regs"
    "stack_word 16 t = r_fs regs"
proof -
  define e where "e = r_esp (cpu s)"
  define p where "p = stack_word 4 s"
  have a: "apart 4 (e - k) 4 (p + n)" if "4 \<le> unat k" "unat k \<le> 20" "unat n \<le> 60" for k n
  proof -
    have "unat (p + n) = unat p + unat n" using assms(3) that(3) by (simp add: p_def unat_plus_no_wrap)
    moreover have "unat (e - k) = unat e - unat k" using assms(1) that by (simp add: e_def unat_sub word_le_nat_alt)
    ultimately show ?thesis using assms(1-3) that by (auto simp: apart_def e_def p_def)
  qed
  define m where "m = write32 (write32 (write32 (write32 (write32 (mem s) (e - 4) (r_fs regs)) (e - 8) (r_ds regs)) (e - 12) (r_es regs))
    (e - 16) (r_gs regs)) (e - 20) (r_esp regs)"
  note d = t_def return_frame_def Let_def push32_def load_data_segments_def mov_ax_def regs_def registers_at_def
  have pd: "read32 (mem s) (e + 4) = p" by (simp add: p_def e_def stack_word_def)
  have a0: "apart 4 (e - k) 4 p" if "4 \<le> unat k" "unat k \<le> 20" for k using a [OF that, of 0] by simp
  have t: "mem t = m" "r_esp (cpu t) = e - 20" "r_eax (cpu t) = r_eax regs" "r_edi (cpu t) = r_edi regs" "r_ebp (cpu t) = r_ebp regs"
    using a a0 by (simp_all add: d m_def e_def [symmetric] stack_word_def pd)
  have "read32 m (e - 20) = r_esp regs" "read32 m (e - 16) = r_gs regs" "read32 m (e - 12) = r_es regs"
    "read32 m (e - 8) = r_ds regs" "read32 m (e - 4) = r_fs regs"
    using assms(1) by (simp_all add: m_def apart_below e_def)
  moreover have "e - 20 + 4 = e - 16" "e - 20 + 8 = e - 12" "e - 20 + 12 = e - 8" "e - 20 + 16 = e - 4" by simp_all
  ultimately show "r_eax (cpu t) = r_eax regs" "r_edi (cpu t) = r_edi regs" "r_ebp (cpu t) = r_ebp regs"
    "stack_word 0 t = r_esp regs" "stack_word 4 t = r_gs regs" "stack_word 8 t = r_es regs" "stack_word 12 t = r_ds regs"
    "stack_word 16 t = r_fs regs" using t by (simp_all add: stack_word_def)
qed

text \<open>Fact (functional): \<open>get_cpl\<close> returns the privilege level.\<close>

lemma low_two_bits:
  fixes x c h :: u32
  shows "((((x AND h) OR (c AND mask 16)) AND h) OR ((((x AND h) OR (c AND mask 16)) AND mask 2) AND mask 16)) AND mask 16 =
    ((x AND h) OR c) AND mask 16 AND (h OR mask 2)"
  by (rule bit_eqI) (auto simp: bit_and_iff bit_or_iff bit_mask_iff)

lemma get_cpl_ring:
  fixes s :: "'a desc_st_scheme"
  shows "fst (get_cpl s) = cpu_cs s AND 3"
proof -
  have m: "(3 :: u32) = mask 2" "(0xFFFF :: u32) = mask 16" "(0xFFFF0000 :: u32) = NOT (mask 16)" by (simp_all add: mask_eq_exp_minus_1)
  have ax: "r_eax (cpu (mov_ax v t)) = (r_eax (cpu t) AND 0xFFFF0000) OR (v AND 0xFFFF)" for v and t :: "'a desc_st_scheme"
    by (simp add: mov_ax_def)
  have "fst (get_cpl s) = r_eax (cpu (mov_ax (r_eax (cpu (mov_ax (cpu_cs s) s)) AND 3) (mov_ax (cpu_cs s) s))) AND 0xFFFF"
    by (simp add: get_cpl_def Let_def)
  also have "\<dots> = cpu_cs s AND 3"
    unfolding ax m low_two_bits by (rule bit_eqI) (auto simp only: bit_and_iff bit_or_iff bit_mask_iff bit_not_iff)
  finally show ?thesis .
qed

end
