(* ===== verification/Session_Runs.thy ===== *)
theory Session_Runs
  imports Kernel_Entry
begin

text \<open>
Whole sessions at the keyboard. A command that neither waits, allocates, halts, switches page tables nor touches the
scheduler leaves the machine waiting for the keyboard again, so a machine that starts runs line after line what is typed:
the induction over the lines that composes the multiboot entry, the boot sequence, the keyboard's interrupts and the shell's rounds.
\<close>

section \<open>Lines that leave the machine to the keyboard\<close>

text \<open>The commands that do not wait, allocate, switch, halt or start the scheduler only print and create processes.\<close>

lemma proc_step_print [simp]: "proc_step s t \<Longrightarrow> proc_step s (process_print_info p t)"
  by (simp add: process_print_info_def Let_def split: option.split)

lemma proc_step_list_loop: "proc_step s t \<Longrightarrow> proc_step s (snd (list_loop is n t))"
  by (induction "is" n t rule: list_loop.induct) (simp_all add: Let_def)

lemma proc_step_list_all [simp]: "proc_step s t \<Longrightarrow> proc_step s (process_list_all t)"
  by (simp add: process_list_all_def Let_def case_prod_beta proc_step_list_loop)

lemma proc_step_created: "process_create name e pr t = (p, u) \<Longrightarrow> proc_step s t \<Longrightarrow> proc_step s u"
  using proc_step_create [of s t name e pr] by simp

lemma proc_step_create_one [simp]:
  assumes "proc_step s t"
  shows "proc_step s (ps_create_one name e t)" "proc_step s (usermode_create_one code name e t)"
  using proc_step_created [OF _ assms] by (auto simp: ps_create_one_def usermode_create_one_def Let_def split: prod.split option.split)

lemma proc_step_commands:
  "proc_step s (cmd_help s)" "proc_step s (cmd_clear s)" "proc_step s (cmd_sysinfo s)" "proc_step s (cmd_echo a s)"
  "proc_step s (cmd_ps env a s)" "proc_step s (cmd_usermode env a s)" "proc_step s (complain w s)"
  by (simp_all add: cmd_help_def cmd_clear_def cmd_sysinfo_def cmd_echo_def cmd_ps_def cmd_usermode_def usermode_status_def
      usermode_create_def complain_def Let_def split: option.split)

definition busy_words :: "string list" where
  "busy_words = [''meminfo'', ''uptime'', ''test'', ''paging'', ''sched'', ''exit'']"

lemma quiet_command:
  assumes "command_word l \<notin> set busy_words"
  shows "\<exists>t. shell_process_command env l s = returns t \<and> proc_step s t"
proof (cases "skip_white l = ''''")
  case True
  then show ?thesis by (intro exI [of _ s]) (simp add: process_command_dispatch)
next
  case False
  then have d: "shell_process_command env l s = (case map_of (builtins env (command_args l)) (command_word l) of
      Some f \<Rightarrow> f s | None \<Rightarrow> returns (complain (command_word l) s))" by (simp add: process_command_dispatch)
  show ?thesis
  proof (cases "map_of (builtins env (command_args l)) (command_word l)")
    case None
    then show ?thesis using d proc_step_commands(7) by auto
  next
    case (Some f)
    then have "(command_word l, f) \<in> set (builtins env (command_args l))" by (rule map_of_SomeD)
    then have "\<exists>t. f s = returns t \<and> proc_step s t" using assms
      by (auto simp: builtins_def busy_words_def intro: proc_step_commands)
    then show ?thesis using d Some by simp
  qed
qed

text \<open>Lines run one after the other, while only time passes between a command and the next.\<close>

inductive session :: "(nat \<Rightarrow> u32) \<Rightarrow> 'a shell_st_scheme shell_env \<Rightarrow> string list \<Rightarrow> 'a shell_st_scheme \<Rightarrow> 'a shell_st_scheme \<Rightarrow> bool"
  for stub env where
  session_end: "session stub env [] s s"
| session_line: "waits stub s s1 \<Longrightarrow> shell_process_command env l s1 = returns s2 \<Longrightarrow> session stub env ls s2 s3 \<Longrightarrow>
    session stub env (l # ls) s s3"

definition printable :: "string \<Rightarrow> bool" where
  "printable l \<longleftrightarrow> (\<forall>c \<in> set l. CHR '' '' \<le> c \<and> c \<le> CHR ''~'')"

lemma line_of_plain:
  "printable l \<Longrightarrow> length k + length l < n \<Longrightarrow> line_of n k (l @ [CHR 0x0A] @ r) = Some (k @ l, r)"
proof (induction l arbitrary: k)
  case Nil
  then show ?case by (subst line_of.simps) simp
next
  case (Cons c l)
  have "c \<noteq> CHR 0x0A" "c \<noteq> CHR 0x08" using Cons.prems(1) by (auto simp: printable_def less_eq_char_def)
  moreover have "line_of n (k @ [c]) (l @ [CHR 0x0A] @ r) = Some ((k @ [c]) @ l, r)"
    by (rule Cons.IH) (use Cons.prems in \<open>simp_all add: printable_def\<close>)
  ultimately show ?case using Cons.prems(2) by (subst line_of.simps) simp
qed

lemma waits_self: "waits stub s0 s \<Longrightarrow> waits stub s s"
  by (simp add: waits_def same_procs_refl)

lemma typed_session:
  assumes keys: "plays dev scs" "sh_hlt env = first_halt stub dev pause scs n"
  shows "waits stub s s \<Longrightarrow> kbd_rep s q \<Longrightarrow> \<forall>c \<in> set q. typed c \<Longrightarrow> n \<le> irq_count (io_log s) \<Longrightarrow> 256 \<le> length buf \<Longrightarrow>
    q @ keys_typed (modifiers s) (drop (key_reads (io_log s)) scs) = concat (map (\<lambda>l. l @ [CHR 0x0A]) ls) @ rest \<Longrightarrow>
    \<forall>l \<in> set ls. printable l \<and> length l < 255 \<and> command_word l \<notin> set busy_words \<Longrightarrow>
    \<exists>s'. shell_run (length ls) env buf s = returns s' \<and> session stub env ls s s' \<and> kernel_ready stub s'"
proof (induction ls arbitrary: s q buf)
  case Nil
  then show ?case by (auto simp: waits_def intro: session_end)
next
  case (Cons l ls)
  let ?r = "concat (map (\<lambda>l. l @ [CHR 0x0A]) ls) @ rest"
  have inp: "q @ keys_typed (modifiers s) (drop (key_reads (io_log s)) scs) = l @ [CHR 0x0A] @ ?r" using Cons.prems(6) by simp
  have line: "line_of 255 [] (q @ keys_typed (modifiers s) (drop (key_reads (io_log s)) scs)) = Some (l, ?r)"
    unfolding inp using line_of_plain [of l "[]" 255 ?r] Cons.prems(7) by simp
  obtain buf' s1 q1 where r: "shell_round env buf s = map_option (Pair buf') (if l = [] then returns s1 else shell_process_command env l s1)"
    "length buf' = length buf" "waits stub s s1" "kbd_rep s1 q1" "?r = q1 @ key_future stub scs n s1"
    using typed_round [OF Cons.prems(1-5) keys line] by blast
  obtain t where t: "shell_process_command env l s1 = returns t" "proc_step s1 t"
    using quiet_command [of l env s1] Cons.prems(7) by auto
  have "l = [] \<Longrightarrow> t = s1" using t(1) by (simp add: process_command_dispatch skip_white_def returns_def)
  then have run: "shell_round env buf s = map_option (Pair buf') (returns t)" using r(1) t(1) by (cases "l = []") simp_all
  note w = waits_proc_step [OF t(2) waits_self [OF r(3)]]
  have fut: "q1 @ keys_typed (modifiers t) (drop (key_reads (io_log t)) scs) = ?r"
    using r(3,5) Cons.prems(4) by (simp add: w(2,3) key_future_def waits_def)
  have "\<forall>c \<in> set ?r. typed c" using line_of_rest [OF line] keys_typed_typed Cons.prems(3) by fastforce
  then have q1: "\<forall>c \<in> set q1. typed c" by (simp add: r(5))
  have "n \<le> irq_count (io_log t)" using r(3) Cons.prems(4) by (simp add: w(3) waits_def)
  moreover have "256 \<le> length buf'" using r(2) Cons.prems(5) by simp
  moreover have "\<forall>l \<in> set ls. printable l \<and> length l < 255 \<and> command_word l \<notin> set busy_words" using Cons.prems(7) by simp
  ultimately obtain s' where
    s': "shell_run (length ls) env buf' t = returns s'" "session stub env ls t s'" "kernel_ready stub s'"
    using Cons.IH [OF w(1) r(4) [folded w(4)] q1 _ _ fut] by blast
  have "\<not> halted t" using w(1) by (simp add: waits_def kernel_ready_def)
  then have "shell_run (length (l # ls)) env buf s = returns s'"
    using round_goes_on [OF run, of "length ls"] s'(1) by (simp add: shell_goes_on_def returns_def)
  then show ?case using session_line [OF r(3) t(1) s'(2)] s'(3) by blast
qed

text \<open>C4 (liveness): a machine that starts runs what is typed at its keyboard, line after line: any number of lines of the commands
  that neither wait, allocate, halt nor touch the scheduler, unknown words included, run in their order, each once, and nothing
  but time passes between them.\<close>

theorem start_runs_session:
  fixes s :: "'a shell_st_scheme"
  assumes idle: "\<And>log. bt_dev env log KB_STATUS_PORT AND KB_STAT_OUTPUT_FULL = 0"
    and df: "\<not> bit (r_eflags (cpu s)) 10" "\<not> halted s"
    and room: "80 \<le> unat (im_stack_top im)" "unat (im_stack_top im) + 60 \<le> 2 ^ 32" and buf: "256 \<le> length buf"
    and hlt: "sh_hlt (bt_shell env) = first_halt (bt_stub env) (bt_dev env) pause scs (irq_count (io_log s) + 50)"
    and keys: "plays (bt_dev env) scs"
      "keys_typed 0 (drop (key_reads (io_log s)) scs) = concat (map (\<lambda>l. l @ [CHR 0x0A]) ls) @ rest"
    and lines: "\<forall>l \<in> set ls. printable l \<and> length l < 255 \<and> command_word l \<notin> set busy_words"
  shows "\<exists>s0 s'. start (length ls) im env buf s = returns s' \<and> only_idle s0 \<and>
    session (bt_stub env) (bt_shell env) ls s0 s' \<and> kernel_ready (bt_stub env) s'"
proof -
  obtain s0 where s0: "start (length ls) im env buf s = shell_run (length ls) (bt_shell env) buf s0" "kernel_ready (bt_stub env) s0"
    "kbd_rep s0 []" "only_idle s0" "modifiers s0 = 0" "key_reads (io_log s0) = key_reads (io_log s)"
    "irq_count (io_log s0) = irq_count (io_log s) + 50"
    using reaches_prompt [OF idle df room hlt, of "length ls"] by blast
  have "waits (bt_stub env) s0 s0" using s0(2,3) by (auto simp: waits_def same_procs_refl)
  from typed_session [OF keys(1) hlt this s0(3) _ _ buf _ lines, of rest] keys(2) s0 show ?thesis by fastforce
qed

text \<open>Four lines: \<open>help\<close>, \<open>ps create\<close>, an empty one and a word that is no command.\<close>

definition session_keys :: "u8 list" where
  "session_keys = [0x23, 0x12, 0x26, 0x19, 0x1C, 0x19, 0x1F, 0x39, 0x2E, 0x13, 0x12, 0x1E, 0x14, 0x12, 0x1C, 0x1C, 0x2D, 0x1C]"

theorem start_runs_session_witness:
  "\<exists>s0 s'. start 4 demo_image (reset_env session_keys) (nul 256) reset_state = returns s' \<and> only_idle s0 \<and>
    session of_nat (bt_shell (reset_env session_keys)) [''help'', ''ps create'', '''', ''x''] s0 s'"
proof -
  let ?ls = "[''help'', ''ps create'', '''', ''x'']"
  have t: "keys_typed 0 session_keys = concat (map (\<lambda>l. l @ [CHR 0x0A]) ?ls) @ []" unfolding session_keys_def by code_simp
  have k: "keys_typed 0 (drop (key_reads (io_log reset_state)) session_keys) = concat (map (\<lambda>l. l @ [CHR 0x0A]) ?ls) @ []"
    by (simp only: reset_facts key_reads_def list.size filter.simps drop_0 t)
  have l: "\<forall>l \<in> set ?ls. printable l \<and> length l < 255 \<and> command_word l \<notin> set busy_words"
    by (simp add: printable_def less_eq_char_def command_word_def skip_white_def busy_words_def)
  have "bt_stub (reset_env session_keys) = of_nat" by (simp add: reset_env_def demo_env_def)
  then show ?thesis
    using start_runs_session [OF reset_facts(1,3-7,9,2) k l] by (auto simp: eval_nat_numeral)
qed

end
