(* ===== verification/Spec2Isabelle.thy ===== *)
theory Spec2Isabelle
  imports Printk Timer Heap_Theorems Paging_Theorems Process_Theorems Descriptors Ready_Queue
    Scheduler_Theorems Keyboard_Theorems Interrupts_Theorems Exceptions Usermode_Theorems User_Programs
    Boot Paging_Boot Usermode_Demo Typing Kernel_Entry User_Entry Session_Runs
begin

text \<open>
  A verification of Aether OS, a 32-bit kernel for one processor: console, heap, paging, processes, a round-robin
  scheduler, interrupts, system calls, user mode and a shell. The C code is in \<^verbatim>\<open>src/kernel\<close> and
  \<^verbatim>\<open>include\<close>; the assembly it hangs on (entry code, context switch, interrupt stubs, system call wrapper, switches to
  user mode, test programs) is modelled with it.

  \<^bold>\<open>How the kernel works.\<close> The entry code clears the static variables and calls \<open>kmain\<close>, which sets up the subsystems one after the other (tables of the
  processor, heap, paging, processes, scheduler, interrupt controllers, timer, keyboard, system calls), enables interrupts
  and runs the shell in process 0. The timer interrupt drives the scheduler, which switches register sets; the keyboard
  interrupt fills a ring buffer that the shell's line editor empties while it waits; interrupt 0x80 enters the system
  calls; any exception ends in the panic screen.

  \<^bold>\<open>State.\<close> One record, extended component by component in the order of the theories: \<open>kout\<close> (the
  console), \<open>ports\<close> (the log of port accesses), \<open>timer_st\<close>, \<open>memory_st\<close> (all of memory, a
  function from 32-bit addresses to bytes, and the heap's globals), \<open>paging_st\<close> (CR0, CR3, interrupt flag),
  \<open>process_st\<close> (the process table), \<open>desc_st\<close> (GDT, IDT, TSS, the registers), \<open>sched_st\<close>,
  \<open>kbd_st\<close>, \<open>shell_st\<close>. An operation of a component is a function on every extension of its record,
  named as in the code; machine integers are words of their width, so that arithmetic wraps as it does there. Heap blocks,
  page tables, interrupt frames and user programs lie in the byte memory; the process table, the descriptor tables and
  the console's cells are fields, and pointers into them are indices. A result \<open>None\<close> stands for a loop that does
  not end or an argument that is not there; \<open>Inl vector\<close> for an exception; \<open>Inr (True, s)\<close> for a
  switch to another process, which the interrupted code sees only when it is resumed.

  \<^bold>\<open>Theories.\<close>
  \<^item> \<open>Prelude\<close>: words, byte and word access to memory, disjoint ranges; \<open>Fifo\<close>: the contract of
    a queue, a locale that the ready queue and the keyboard buffer interpret.
  \<^item> \<open>Console\<close>, \<open>Printk\<close> (printk.c): the text screen, refined to an abstract 25 by 80 screen through the
    locales \<open>char_sink\<close> and \<open>char_sink_refinement\<close>; conversions and the format loop.
  \<^item> \<open>Pic\<close> (pic.c), \<open>Timer\<close> (timer.c).
  \<^item> \<open>Memory\<close> (memory.c): the operations on block headers in memory; \<open>Heap_Layout\<close>,
    \<open>Heap_Refinement\<close>, \<open>Heap_Invariant\<close>: the abstract block list, that the operations implement it, and what
    reachable heaps satisfy; \<open>Allocator\<close>: the contract callers rely on, a locale interpreted on \<open>kmalloc\<close>
    and \<open>kfree\<close>; \<open>Heap_Theorems\<close>: the properties.
  \<^item> \<open>Paging\<close>, \<open>Paging_Theorems\<close> (paging.c, paging.h): mapping, unmapping and the two-level walk;
    \<open>Paging_Boot\<close>: what \<open>paging_init\<close> does on the heap of the boot.
  \<^item> \<open>Process\<close>, \<open>Process_Theorems\<close> (process.c, process.h).
  \<^item> \<open>Descriptors\<close> (gdt.c, idt.c, tss.c), \<open>Scheduler\<close>, \<open>Ready_Queue\<close>,
    \<open>Scheduler_Theorems\<close> (scheduler.c, context_switch.asm).
  \<^item> \<open>Keyboard\<close>, \<open>Keyboard_Theorems\<close> (keyboard.c).
  \<^item> \<open>Interrupts\<close>, \<open>Interrupts_Theorems\<close>, \<open>Exceptions\<close> (panic.c, idt_handlers.asm,
    context.h).
  \<^item> \<open>Syscall\<close>, \<open>Usermode\<close>, \<open>Usermode_Theorems\<close> (syscall.c, syscall_handler.asm, usermode.c);
    \<open>User_Programs\<close> (userlib.h, user_test_code.asm); \<open>User_Entry\<close> (user_mode_enter.asm).
  \<^item> \<open>Shell\<close>, \<open>Shell_Theorems\<close> (shell.c); \<open>Boot\<close> (kernel.c).
  \<^item> \<open>System\<close>, \<open>Shell_Invariant\<close>, \<open>Boot_Effects\<close>, \<open>Boot_Theorems\<close>,
    \<open>Usermode_Demo\<close>: the components together. \<open>system_ok\<close> ties the process table to the ready queue;
    every interrupt, system call and command keeps it, so that it holds in every state of \<open>system_reach\<close>.
  \<^item> \<open>Typing\<close>, \<open>Kernel_Entry\<close> (kernel_entry.asm, multiboot_header.asm, bootloader.asm): from a key to the line the
    shell runs, through gate, stub, driver and line editor; and from the entry code to the commands typed at the prompt,
    a whole session of them in \<open>Session_Runs\<close>.

  \<^bold>\<open>Properties.\<close> They stand in the theories of their components, each after a text with its number. Per
  component: functional behaviour on every branch, the invariants of the reachable states, refinement of an abstract heap,
  screen and queue, termination of the loops that end, bounds, round trips. Across components: interrupts are
  transparent to what they interrupt, the boot establishes what the rest relies on, the shell runs the line that was typed, from the
  first instruction of the entry code on, the system invariant. Several properties show where the code falls short: the four page tables of the boot are one, the two
  demonstrations of the shell fault or hang, the entry code relies on the direction flag, system calls read their number from the wrong register.

  \<^bold>\<open>Parameters.\<close> What the source does not fix is an argument: \<open>dev\<close>, the answers of the devices to
  port reads, given the log of accesses; \<open>hlt\<close>, the effect of the interrupts that end a \<^verbatim>\<open>hlt\<close>;
  the addresses the linker gives (fields and arguments ending in \<open>_at\<close>, \<open>user_code\<close>, the environments
  \<open>shell_env\<close> and \<open>boot_env\<close>); the content of the uninitialised statistics of \<open>meminfo\<close>. Hypotheses on
  them are the documented behaviour: each \<^verbatim>\<open>hlt\<close> ends after a tick, a keyboard without input shows no full
  buffer.

  \<^bold>\<open>Bounds and fuel.\<close> Loops over fixed ranges are recursion on the list of their indices; the loops over
  memory carry their own count. \<open>shell_run\<close> takes the number of rounds of the shell's endless loop and
  \<open>user_test\<close> the number of rounds of a test program; the properties hold for every number. \<open>wait_key\<close> takes the keys still to come, after which no wait ends. Loops that may not
  end (\<open>itoa_loop\<close> in base 1, walks over the heap's list, waiting loops, \<open>user_strlen_loop\<close>) are partial
  functions, and that they return is proved where a property needs it.

  \<^bold>\<open>Not modelled.\<close> The processor's initialisation and the loader (the state in which \<^verbatim>\<open>_start\<close> is
  entered is arbitrary); the declarations of \<^verbatim>\<open>context.h\<close> and \<^verbatim>\<open>paging.h\<close>
  that nothing defines and the types nothing uses; the endless \<^verbatim>\<open>hlt\<close> after the call of
  \<open>kmain\<close>, which does not return; the kernel's own accesses through the page tables once paging is on (except for the fetch
  that faults first); the bytes the C compiler keeps on the stack, so that the stack pointer of C code stays where its
  caller left it; interrupts at other points than \<^verbatim>\<open>hlt\<close>, the stubs and the steps of \<open>system_reach\<close>; in
  programs, the arithmetic flags and the instruction pointer. In the interrupt controllers only the words sent to them are
  modelled. A static variable is a field of the state, not bytes of \<open>mem\<close>: the clear of \<^verbatim>\<open>.bss\<close> resets both.
\<close>

end
